(* ===== verification/GoPrelude.thy ===== *)
theory GoPrelude
  imports Main "HOL-Library.Word" "HOL-Library.AList"
begin

unbundle bit_operations_syntax

text \<open>
  Shared vocabulary of the development: Go strings and byte slices, reading from an
  \<open>io.Reader\<close> with its two end-of-input errors, writing into a \<open>bytes.Buffer\<close>, the
  big-endian integers of \<open>encoding/binary\<close>, single-bit flags, decimal numerals, and the
  interface \<open>codec\<close> that every encoder/decoder pair of the wire protocol satisfies.
\<close>

section \<open>Lemma collections\<close>

named_theorems wire_wr \<open>what a writer produces on a well-formed value\<close>
named_theorems wire_rd \<open>what a reader returns on a written value followed by more input\<close>
named_theorems wire_defs \<open>the definitions of the method codecs\<close>

section \<open>Strings and byte slices\<close>

text \<open>
  A Go string is a sequence of bytes; \<open>char\<close> is HOL's type of the 256 byte values with
  convenient literals. \<open>[]byte(s)\<close> and \<open>string(b)\<close> are the two conversions.
\<close>

type_synonym byte = "8 word"
type_synonym gostring = string

definition byte_of :: "char \<Rightarrow> byte" where
  "byte_of c = word_of_nat (of_char c)"

definition char_of_byte :: "byte \<Rightarrow> char" where
  "char_of_byte b = char_of (unat b)"

definition bytes_of :: "gostring \<Rightarrow> byte list" where
  "bytes_of s = map byte_of s"

definition string_of :: "byte list \<Rightarrow> gostring" where
  "string_of bs = map char_of_byte bs"

lemma char_of_byte_of [simp]: "char_of_byte (byte_of c) = c"
  by (simp add: byte_of_def char_of_byte_def unat_of_nat)

lemma byte_of_char_of [simp]: "byte_of (char_of_byte b) = b"
proof -
  have "unat b < 256"
    using unsigned_less [of b] by simp
  then show ?thesis
    by (simp add: byte_of_def char_of_byte_def)
qed

lemma string_of_bytes_of [simp]: "string_of (bytes_of s) = s"
  by (simp add: string_of_def bytes_of_def comp_def)

lemma bytes_of_string_of [simp]: "bytes_of (string_of b) = b"
  by (simp add: string_of_def bytes_of_def comp_def)

lemma length_bytes_of [simp]: "length (bytes_of s) = length s"
  by (simp add: bytes_of_def)

lemma length_string_of [simp]: "length (string_of b) = length b"
  by (simp add: string_of_def)

lemma bytes_of_take [simp]: "bytes_of (take n s) = take n (bytes_of s)"
  by (simp add: bytes_of_def take_map)

lemma bytes_of_eq_iff [simp]: "bytes_of s = bytes_of t \<longleftrightarrow> s = t"
  by (metis string_of_bytes_of)

lemma bytes_of_Nil_iff [simp]: "bytes_of s = [] \<longleftrightarrow> s = []"
  by (simp add: bytes_of_def)

section \<open>Times\<close>

text \<open>
  A \<open>time.Time\<close> is its Unix second and nanosecond; the zero time is the first of January of
  the year 1. \<open>time.Unix\<close> carries nanoseconds outside a second over to the seconds.
\<close>

type_synonym gotime = "64 word \<times> nat"

definition zero_time :: gotime where
  "zero_time = (word_of_int (- 62135596800), 0)"

definition unix_time :: "int \<Rightarrow> int \<Rightarrow> gotime" where
  "unix_time sec nsec = (word_of_int (sec + nsec div 1000000000), nat (nsec mod 1000000000))"

section \<open>Maps as association lists\<close>

lemma update_new: "k \<notin> fst ` set al \<Longrightarrow> AList.update k v al = al @ [(k, v)]"
  by (induction al) auto

section \<open>Reading from an io.Reader\<close>

text \<open>
  A reader consumes the front of the bytes that will ever arrive and returns a value or
  an error together with what is left. \<open>io.ReadFull\<close> and \<open>binary.Read\<close> return
  \<open>io.EOF\<close> when no byte at all could be read and \<open>io.ErrUnexpectedEOF\<close> when some but
  not all could. A run-time panic of the code is the error \<open>RPanic\<close>.
\<close>

datatype rerr =
    EOF
  | UnexpectedEOF
  | ErrSyntax
  | ErrFrame
  | ErrHeartbeatPayload
  | ErrUnknownMethod nat nat
  | ErrUnknownClass nat
  | RPanic
  | ROutOfFuel

type_synonym ('s, 'e, 'a) reader = "'s \<Rightarrow> ('e + 'a) \<times> 's"

type_synonym 'a rd = "(byte list, rerr, 'a) reader"

definition rd_return :: "'a \<Rightarrow> ('s, 'e, 'a) reader" where
  "rd_return x bs = (Inr x, bs)"

definition rd_fail :: "'e \<Rightarrow> ('s, 'e, 'a) reader" where
  "rd_fail e bs = (Inl e, bs)"

definition rd_bind :: "('s, 'e, 'a) reader \<Rightarrow> ('a \<Rightarrow> ('s, 'e, 'b) reader) \<Rightarrow> ('s, 'e, 'b) reader" where
  "rd_bind m f bs = (case m bs of (Inl e, r) \<Rightarrow> (Inl e, r) | (Inr x, r) \<Rightarrow> f x r)"

definition rd_map :: "('a \<Rightarrow> 'b) \<Rightarrow> ('s, 'e, 'a) reader \<Rightarrow> ('s, 'e, 'b) reader" where
  "rd_map f m = rd_bind m (\<lambda>x. rd_return (f x))"

definition read_full :: "nat \<Rightarrow> byte list rd" where
  "read_full n bs =
     (if n \<le> length bs then (Inr (take n bs), drop n bs)
      else if bs = [] then (Inl EOF, [])
      else (Inl UnexpectedEOF, []))"

lemma rd_return_apply [simp]: "rd_return x bs = (Inr x, bs)"
  by (simp add: rd_return_def)

lemma rd_fail_apply [simp]: "rd_fail e bs = (Inl e, bs)"
  by (simp add: rd_fail_def)

lemma rd_bind_Inr: "m bs = (Inr x, r) \<Longrightarrow> rd_bind m f bs = f x r"
  by (simp add: rd_bind_def)

lemma rd_bind_Inl: "m bs = (Inl e, r) \<Longrightarrow> rd_bind m f bs = (Inl e, r)"
  by (simp add: rd_bind_def)

lemma read_full_append [simp]: "length xs = n \<Longrightarrow> read_full n (xs @ rest) = (Inr xs, rest)"
  by (simp add: read_full_def)

lemma read_full_0 [simp]: "read_full 0 bs = (Inr [], bs)"
  by (simp add: read_full_def)

text \<open>A reader only moves forward: what is left is the end of the input.\<close>

definition consumes :: "'a rd \<Rightarrow> bool" where
  "consumes m \<longleftrightarrow> (\<forall>bs. \<exists>p. bs = p @ snd (m bs))"

lemma consumesI: "(\<And>bs v r. m bs = (v, r) \<Longrightarrow> \<exists>p. bs = p @ r) \<Longrightarrow> consumes m"
  unfolding consumes_def by (metis surjective_pairing)

lemma consumes_prefix: "consumes m \<Longrightarrow> m bs = (x, r) \<Longrightarrow> \<exists>p. bs = p @ r"
  by (metis consumes_def snd_conv)

lemma consumesD: "consumes m \<Longrightarrow> m bs = (x, r) \<Longrightarrow> length r \<le> length bs"
  using consumes_prefix [of m bs x r] by auto

lemma consumes_return [intro, simp]: "consumes (rd_return x)"
  by (simp add: consumes_def)

lemma consumes_fail [intro, simp]: "consumes (rd_fail e)"
  by (simp add: consumes_def)

lemma consumes_read_full [intro, simp]: "consumes (read_full n)"
  by (rule consumesI) (auto simp: read_full_def split: if_splits intro: append_take_drop_id [symmetric])

lemma consumes_bind [intro]:
  "consumes m \<Longrightarrow> (\<And>x. consumes (f x)) \<Longrightarrow> consumes (rd_bind m f)"
proof -
  assume m: "consumes m" and f: "\<And>x. consumes (f x)"
  show ?thesis
  proof (rule consumesI)
    fix bs v r
    assume b: "rd_bind m f bs = (v, r)"
    obtain v' r' where m': "m bs = (v', r')"
      by fastforce
    with m obtain p where "bs = p @ r'"
      using consumes_prefix by blast
    moreover have "\<exists>q. r' = q @ r"
      using b m' by (auto simp: rd_bind_def dest: consumes_prefix [OF f] split: sum.splits)
    ultimately show "\<exists>p. bs = p @ r"
      by auto
  qed
qed

section \<open>Writing into a buffer\<close>

text \<open>
  Every encoder of the protocol writes into a \<open>bytes.Buffer\<close>, whose \<open>Write\<close> does not
  fail; the only error is a table value of a Go type the protocol has no encoding for.
\<close>

datatype werr = ErrFieldType | ErrMissingMethod

type_synonym wr = "werr + byte list"

definition wr_seq :: "wr \<Rightarrow> wr \<Rightarrow> wr" where
  "wr_seq a b = (case a of Inl e \<Rightarrow> Inl e
     | Inr x \<Rightarrow> (case b of Inl e \<Rightarrow> Inl e | Inr y \<Rightarrow> Inr (x @ y)))"

lemma wr_seq_Inr [simp]: "wr_seq (Inr x) (Inr y) = Inr (x @ y)"
  by (simp add: wr_seq_def)

lemma wr_seq_Inl [simp]: "wr_seq (Inl e) b = Inl e"
  by (simp add: wr_seq_def)

lemma wr_seq_Inr_Inl [simp]: "wr_seq (Inr x) (Inl e) = Inl e"
  by (simp add: wr_seq_def)

lemma wr_seq_eq_Inr: "wr_seq a b = Inr z \<longleftrightarrow> (\<exists>x y. a = Inr x \<and> b = Inr y \<and> z = x @ y)"
  by (auto simp: wr_seq_def split: sum.splits)

section \<open>Big-endian integers\<close>

text \<open>\<open>binary.BigEndian.PutUint16\<close> and its siblings, and the readers that \<open>binary.Read\<close> is.\<close>

definition put_u8 :: "8 word \<Rightarrow> byte list" where
  "put_u8 w = [w]"

definition put_u16 :: "16 word \<Rightarrow> byte list" where
  "put_u16 w = [ucast (drop_bit 8 w), ucast w]"

definition put_u32 :: "32 word \<Rightarrow> byte list" where
  "put_u32 w = put_u16 (ucast (drop_bit 16 w)) @ put_u16 (ucast w)"

definition put_u64 :: "64 word \<Rightarrow> byte list" where
  "put_u64 w = put_u32 (ucast (drop_bit 32 w)) @ put_u32 (ucast w)"

definition get_u16 :: "byte list \<Rightarrow> 16 word" where
  "get_u16 b = push_bit 8 (ucast (b ! 0)) OR ucast (b ! 1)"

definition get_u32 :: "byte list \<Rightarrow> 32 word" where
  "get_u32 b = push_bit 16 (ucast (get_u16 (take 2 b))) OR ucast (get_u16 (drop 2 b))"

definition get_u64 :: "byte list \<Rightarrow> 64 word" where
  "get_u64 b = push_bit 32 (ucast (get_u32 (take 4 b))) OR ucast (get_u32 (drop 4 b))"

lemma length_put [simp]:
  "length (put_u8 a) = 1" "length (put_u16 b) = 2" "length (put_u32 c) = 4" "length (put_u64 d) = 8"
  by (simp_all add: put_u8_def put_u16_def put_u32_def put_u64_def)

lemma get_put_u16 [simp]: "get_u16 (put_u16 w) = w"
  by (rule bit_word_eqI) (auto simp: get_u16_def put_u16_def bit_simps)

lemma get_put_u32 [simp]: "get_u32 (put_u32 w) = w"
proof -
  have "push_bit 16 (ucast (ucast (drop_bit 16 w) :: 16 word)) OR ucast (ucast w :: 16 word) = w"
    by (rule bit_word_eqI) (auto simp: bit_simps)
  then show ?thesis
    by (simp add: get_u32_def put_u32_def)
qed

lemma get_put_u64 [simp]: "get_u64 (put_u64 w) = w"
proof -
  have "push_bit 32 (ucast (ucast (drop_bit 32 w) :: 32 word)) OR ucast (ucast w :: 32 word) = w"
    by (rule bit_word_eqI) (auto simp: bit_simps)
  then show ?thesis
    by (simp add: get_u64_def put_u64_def)
qed

lemma put_u32_bytes:
  "put_u32 w = [ucast (drop_bit 24 w), ucast (drop_bit 16 w), ucast (drop_bit 8 w), ucast w]"
  by (simp add: put_u32_def put_u16_def, intro conjI bit_word_eqI)
     (auto simp: bit_simps add.commute)

definition read_u8 :: "8 word rd" where
  "read_u8 = rd_bind (read_full 1) (\<lambda>b. rd_return (b ! 0))"

definition read_u16 :: "16 word rd" where
  "read_u16 = rd_bind (read_full 2) (\<lambda>b. rd_return (get_u16 b))"

definition read_u32 :: "32 word rd" where
  "read_u32 = rd_bind (read_full 4) (\<lambda>b. rd_return (get_u32 b))"

definition read_u64 :: "64 word rd" where
  "read_u64 = rd_bind (read_full 8) (\<lambda>b. rd_return (get_u64 b))"

lemma read_ints [simp, wire_rd]:
  "read_u8 (put_u8 a @ rest) = (Inr a, rest)"
  "read_u16 (put_u16 b @ rest) = (Inr b, rest)"
  "read_u32 (put_u32 c @ rest) = (Inr c, rest)"
  "read_u64 (put_u64 d @ rest) = (Inr d, rest)"
  by (simp_all add: read_u8_def read_u16_def read_u32_def read_u64_def rd_bind_def)
     (simp add: put_u8_def)

lemma read_u8_Cons [simp]: "read_u8 (b # rest) = (Inr b, rest)"
  by (simp add: read_u8_def rd_bind_def read_full_def)

lemma read_u8_Nil [simp]: "read_u8 [] = (Inl EOF, [])"
  by (simp add: read_u8_def rd_bind_def read_full_def)

lemma consumes_ints [intro, simp]:
  "consumes read_u8" "consumes read_u16" "consumes read_u32" "consumes read_u64"
  by (auto simp: read_u8_def read_u16_def read_u32_def read_u64_def)

section \<open>Bit flags packed into an octet\<close>

text \<open>\<open>if b { bits |= 1 << i }\<close> and \<open>bits&(1<<i) > 0\<close>.\<close>

definition flag_set :: "nat \<Rightarrow> bool \<Rightarrow> byte \<Rightarrow> byte" where
  "flag_set i b bits = (if b then bits OR push_bit i 1 else bits)"

definition flag_test :: "nat \<Rightarrow> byte \<Rightarrow> bool" where
  "flag_test i bits \<longleftrightarrow> bits AND push_bit i 1 > 0"

lemma flag_test_bit: "flag_test i bits = bit bits i"
  by (simp add: flag_test_def word_gt_0 bit_iff_and_push_bit_not_eq_0)

lemma bit_flag_set: "bit (flag_set i b bits) j \<longleftrightarrow> (b \<and> i = j \<and> j < 8) \<or> bit bits j"
  by (auto simp: flag_set_def bit_simps bit_1_iff)

lemma flag_test_set [simp]:
  "i < 8 \<Longrightarrow> j < 8 \<Longrightarrow> flag_test j (flag_set i b bits) \<longleftrightarrow> (if i = j then b \<or> flag_test j bits else flag_test j bits)"
  by (auto simp: flag_test_bit bit_flag_set)

lemma flag_test_0 [simp]: "\<not> flag_test i 0"
  by (simp add: flag_test_def)

section \<open>Codecs\<close>

text \<open>
  The contract of an encoder/decoder pair: reading what was written for a well-formed
  value gives the value back (up to the normalisation \<open>norm\<close> of what the wire cannot
  carry) and leaves the following input untouched. Everything a peer relies on follows
  from it: encodings are unambiguous, no encoding is a prefix of another one, and a
  concatenation of encodings is read back item by item.
\<close>

fun read_many :: "('s, 'e, 'a) reader \<Rightarrow> nat \<Rightarrow> ('s, 'e, 'a list) reader" where
  "read_many rd 0 = rd_return []"
| "read_many rd (Suc n) = rd_bind rd (\<lambda>x. rd_bind (read_many rd n) (\<lambda>xs. rd_return (x # xs)))"

fun write_many :: "('a \<Rightarrow> wr) \<Rightarrow> 'a list \<Rightarrow> wr" where
  "write_many wr [] = Inr []"
| "write_many wr (x # xs) = wr_seq (wr x) (write_many wr xs)"

locale codec =
  fixes wr :: "'a \<Rightarrow> wr"
    and rd :: "'b rd"
    and wf :: "'a \<Rightarrow> bool"
    and norm :: "'a \<Rightarrow> 'b"
  assumes written: "wf x \<Longrightarrow> \<exists>bs. wr x = Inr bs"
    and readback: "wf x \<Longrightarrow> wr x = Inr bs \<Longrightarrow> rd (bs @ rest) = (Inr (norm x), rest)"
begin

lemma unambiguous: "wf x \<Longrightarrow> wf y \<Longrightarrow> wr x = wr y \<Longrightarrow> norm x = norm y"
proof -
  assume "wf x" and "wf y" and eq: "wr x = wr y"
  then obtain bs where bs: "wr x = Inr bs"
    using written by blast
  have "rd (bs @ []) = (Inr (norm x), [])"
    using \<open>wf x\<close> bs by (rule readback)
  moreover have "rd (bs @ []) = (Inr (norm y), [])"
    using \<open>wf y\<close> bs eq by (simp only: readback)
  ultimately show ?thesis
    by simp
qed

lemma prefix_free:
  assumes "wf x" and "wf y" and "wr x = Inr bs" and "wr y = Inr (bs @ cs)"
  shows "norm x = norm y \<and> cs = []"
proof -
  have "rd (bs @ cs) = (Inr (norm x), cs)"
    using assms by (blast intro: readback)
  moreover have "rd ((bs @ cs) @ []) = (Inr (norm y), [])"
    using assms by (blast intro: readback)
  ultimately show ?thesis
    by simp
qed

lemma stream:
  assumes "\<forall>x\<in>set xs. wf x"
  shows "\<exists>bs. write_many wr xs = Inr bs \<and>
           (\<forall>rest. read_many rd (length xs) (bs @ rest) = (Inr (map norm xs), rest))"
  using assms
proof (induction xs)
  case Nil
  show ?case by simp
next
  case (Cons x xs)
  then obtain bs where bs: "write_many wr xs = Inr bs"
    "\<And>rest. read_many rd (length xs) (bs @ rest) = (Inr (map norm xs), rest)"
    by auto
  from Cons.prems obtain cs where cs: "wr x = Inr cs"
    using written by auto
  have "rd (cs @ bs @ rest) = (Inr (norm x), bs @ rest)" for rest
    using Cons.prems cs by (intro readback) auto
  then have "read_many rd (length (x # xs)) ((cs @ bs) @ rest) = (Inr (map norm (x # xs)), rest)" for rest
    by (simp add: rd_bind_def bs)
  with cs bs show ?case
    by auto
qed

end

section \<open>Decimal numerals\<close>

text \<open>What \<open>%d\<close> prints: the digits of a number, most significant first, and a sign.\<close>

definition digit_char :: "nat \<Rightarrow> char" where
  "digit_char d = char_of (48 + d)"

fun show_nat :: "nat \<Rightarrow> gostring" where
  "show_nat n = (if n < 10 then [digit_char n] else show_nat (n div 10) @ [digit_char (n mod 10)])"

declare show_nat.simps [simp del]

definition show_int :: "int \<Rightarrow> gostring" where
  "show_int i = (if i < 0 then CHR ''-'' # show_nat (nat (- i)) else show_nat (nat i))"

definition digit_val :: "char \<Rightarrow> nat" where
  "digit_val c = of_char c - 48"

definition is_digit :: "char \<Rightarrow> bool" where
  "is_digit c \<longleftrightarrow> (48::nat) \<le> of_char c \<and> of_char c \<le> (57::nat)"

definition digits_val :: "gostring \<Rightarrow> nat" where
  "digits_val s = fold (\<lambda>c acc. 10 * acc + digit_val c) s 0"

lemma digits_val_snoc [simp]: "digits_val (s @ [c]) = 10 * digits_val s + digit_val c"
  by (simp add: digits_val_def)

lemma of_char_digit_char: "d < 10 \<Longrightarrow> (of_char (digit_char d) :: nat) = 48 + d"
  by (simp add: digit_char_def)

lemma digit_val_digit_char [simp]: "d < 10 \<Longrightarrow> digit_val (digit_char d) = d"
  by (simp add: digit_val_def of_char_digit_char)

lemma is_digit_digit_char [simp]: "d < 10 \<Longrightarrow> is_digit (digit_char d)"
  by (simp add: is_digit_def of_char_digit_char)

lemma digits_val_show_nat [simp]: "digits_val (show_nat n) = n"
proof (induction n rule: show_nat.induct)
  case (1 n)
  show ?case
  proof (cases "n < 10")
    case True
    then show ?thesis
      using digits_val_snoc [of "[]" "digit_char n"] by (simp add: show_nat.simps [of n] digits_val_def)
  next
    case False
    with "1.IH" show ?thesis
      by (simp add: show_nat.simps [of n])
  qed
qed

lemma show_nat_digits: "c \<in> set (show_nat n) \<Longrightarrow> is_digit c"
proof (induction n arbitrary: c rule: show_nat.induct)
  case (1 n)
  then show ?case
    by (cases "n < 10") (auto simp: show_nat.simps [of n])
qed

lemma show_nat_nonempty [simp]: "show_nat n \<noteq> []"
  by (subst show_nat.simps) simp

lemma show_nat_inject [simp]: "show_nat m = show_nat n \<longleftrightarrow> m = n"
  by (metis digits_val_show_nat)

lemma length_show_nat: "n < 10 ^ Suc k \<Longrightarrow> length (show_nat n) \<le> Suc k"
proof (induction k arbitrary: n)
  case (Suc k)
  show ?case
  proof (cases "n < 10")
    case False
    have "length (show_nat (n div 10)) \<le> Suc k"
      by (rule Suc.IH) (use Suc.prems in \<open>simp add: less_mult_imp_div_less\<close>)
    with False show ?thesis
      by (subst show_nat.simps) simp
  qed (subst show_nat.simps, simp)
qed (subst show_nat.simps, simp)

lemma show_nat_no_sign: "show_nat n \<noteq> CHR ''-'' # t"
proof
  assume "show_nat n = CHR ''-'' # t"
  then have "is_digit (CHR ''-'')"
    using show_nat_digits [of "CHR ''-''" n] by simp
  then show False
    by (simp add: is_digit_def)
qed

lemma show_int_inject [simp]: "show_int i = show_int j \<longleftrightarrow> i = j"
  by (auto simp: show_int_def show_nat_no_sign show_nat_no_sign [symmetric] split: if_splits)

end
