(* ===== verification/GoStrings.thy ===== *)
theory GoStrings
  imports GoPrelude
begin

text \<open>
  The parts of \<open>strings\<close>, \<open>strconv\<close>, \<open>net/textproto\<close> and \<open>unicode/utf8\<close> the program uses:
  \<open>strings.TrimSpace\<close> (the UTF-8 encodings of the Unicode white-space code points),
  \<open>strconv.Atoi\<close> on a 64-bit platform, the canonical form of a MIME header key, what
  \<open>encoding/json\<close> makes of a string that is not UTF-8, and \<open>strconv.Quote\<close>.
\<close>

section \<open>strings.TrimSpace\<close>

text \<open>
  A rune at either end of a string is white space exactly when the bytes there are the
  UTF-8 encoding of one of the code points of \<open>unicode.White_Space\<close>; an invalid byte
  decodes to U+FFFD, which is no space.
\<close>

definition space_encodings :: "gostring list" where
  "space_encodings =
     [[CHR 0x09], [CHR 0x0A], [CHR 0x0B], [CHR 0x0C], [CHR 0x0D], [CHR 0x20],
      [CHR 0xC2, CHR 0x85], [CHR 0xC2, CHR 0xA0], [CHR 0xE1, CHR 0x9A, CHR 0x80],
      [CHR 0xE2, CHR 0x80, CHR 0x80], [CHR 0xE2, CHR 0x80, CHR 0x81],
      [CHR 0xE2, CHR 0x80, CHR 0x82], [CHR 0xE2, CHR 0x80, CHR 0x83],
      [CHR 0xE2, CHR 0x80, CHR 0x84], [CHR 0xE2, CHR 0x80, CHR 0x85],
      [CHR 0xE2, CHR 0x80, CHR 0x86], [CHR 0xE2, CHR 0x80, CHR 0x87],
      [CHR 0xE2, CHR 0x80, CHR 0x88], [CHR 0xE2, CHR 0x80, CHR 0x89],
      [CHR 0xE2, CHR 0x80, CHR 0x8A], [CHR 0xE2, CHR 0x80, CHR 0xA8],
      [CHR 0xE2, CHR 0x80, CHR 0xA9], [CHR 0xE2, CHR 0x80, CHR 0xAF],
      [CHR 0xE2, CHR 0x81, CHR 0x9F], [CHR 0xE3, CHR 0x80, CHR 0x80]]"

definition starting :: "gostring list \<Rightarrow> gostring \<Rightarrow> gostring option" where
  "starting es s = find (\<lambda>e. e \<noteq> [] \<and> take (length e) s = e) es"

lemma starting_SomeD:
  assumes "starting es s = Some e"
  shows "e \<in> set es" "e \<noteq> []" "s = e @ drop (length e) s"
proof -
  from assms obtain i where "i < length es" "e = es ! i" "e \<noteq> [] \<and> take (length e) s = e"
    unfolding starting_def by (auto simp: find_Some_iff)
  then show "e \<in> set es" "e \<noteq> []" "s = e @ drop (length e) s"
    by (auto, metis append_take_drop_id)
qed

lemma starting_NoneD: "starting es s = None \<Longrightarrow> e \<in> set es \<Longrightarrow> e \<noteq> [] \<Longrightarrow> s \<noteq> e @ t"
  by (auto simp: starting_def find_None_iff)

function trim_start :: "gostring list \<Rightarrow> gostring \<Rightarrow> gostring" where
  "trim_start es s =
     (case starting es s of None \<Rightarrow> s | Some e \<Rightarrow> trim_start es (drop (length e) s))"
  by pat_completeness auto
termination
proof (relation "measure (\<lambda>(es, s). length s)")
  fix es s e
  assume "starting es s = Some e"
  then have "e \<noteq> []" and "s = e @ drop (length e) s"
    by (rule starting_SomeD)+
  then have "length e \<le> length s" "0 < length e"
    by (metis length_append le_add1, simp)
  then have "length s - length e < length s"
    by linarith
  then show "((es, drop (length e) s), es, s) \<in> measure (\<lambda>(es, s). length s)"
    by simp
qed simp

declare trim_start.simps [simp del]

definition trim_left :: "gostring \<Rightarrow> gostring" where
  "trim_left s = trim_start space_encodings s"

definition trim_right :: "gostring \<Rightarrow> gostring" where
  "trim_right s = rev (trim_start (map rev space_encodings) (rev s))"

definition trim_space :: "gostring \<Rightarrow> gostring" where
  "trim_space s = trim_right (trim_left s)"

lemma starting_trim_start [simp]: "starting es (trim_start es s) = None"
proof (induction es s rule: trim_start.induct)
  case (1 es s)
  then show ?case
    by (cases "starting es s") (simp_all add: trim_start.simps [of es s])
qed

lemma trim_start_id: "starting es s = None \<Longrightarrow> trim_start es s = s"
  by (simp add: trim_start.simps)

text \<open>Trimming removes a sequence of the given strings and nothing else.\<close>

lemma trim_start_split:
  "\<exists>ps. set ps \<subseteq> set es - {[]} \<and> s = concat ps @ trim_start es s"
proof (induction es s rule: trim_start.induct)
  case (1 es s)
  show ?case
  proof (cases "starting es s")
    case None
    then show ?thesis
      by (intro exI [of _ "[]"]) (simp add: trim_start_id)
  next
    case (Some e)
    then obtain ps where "set ps \<subseteq> set es - {[]}"
      "drop (length e) s = concat ps @ trim_start es (drop (length e) s)"
      using "1.IH" by blast
    then show ?thesis
      using starting_SomeD [OF Some] Some
      by (intro exI [of _ "e # ps"]) (simp add: trim_start.simps [of es s])
  qed
qed

lemma trim_start_Nil [simp]: "trim_start es [] = []"
  using trim_start_split [of es "[]"] by auto

definition all_space :: "gostring \<Rightarrow> bool" where
  "all_space s \<longleftrightarrow> (\<exists>ps. set ps \<subseteq> set space_encodings \<and> s = concat ps)"

lemma space_encodings_nonempty: "[] \<notin> set space_encodings"
  by (simp add: space_encodings_def)

lemma trim_right_split: "\<exists>ps. set ps \<subseteq> set space_encodings \<and> s = trim_right s @ concat ps"
proof -
  obtain ps where ps: "set ps \<subseteq> set (map rev space_encodings) - {[]}"
    "rev s = concat ps @ trim_start (map rev space_encodings) (rev s)"
    using trim_start_split by blast
  then have "s = trim_right s @ concat (rev (map rev ps))"
    unfolding trim_right_def by (metis rev_append rev_concat rev_map rev_rev_ident)
  moreover have "set (rev (map rev ps)) \<subseteq> set space_encodings"
    using ps(1) by auto
  ultimately show ?thesis
    by blast
qed

text \<open>The result is blank exactly for a string made of white space only.\<close>

lemma trim_left_all_space: "trim_left s = [] \<Longrightarrow> all_space s"
  using trim_start_split [of space_encodings s] by (auto simp: trim_left_def all_space_def)

lemma trim_right_Nil_trim_left:
  assumes "trim_right (trim_left s) = []"
  shows "trim_left s = []"
proof (rule ccontr)
  assume ne: "trim_left s \<noteq> []"
  obtain ps where ps: "set ps \<subseteq> set space_encodings" "trim_left s = concat ps"
    using trim_right_split [of "trim_left s"] assms by auto
  with ne obtain p qs where "ps = p # qs"
    by (cases ps) auto
  with ps have "p \<in> set space_encodings" "trim_left s = p @ concat qs" "p \<noteq> []"
    using space_encodings_nonempty by auto
  then show False
    using starting_NoneD [OF starting_trim_start] by (auto simp: trim_left_def)
qed

lemma starting_append_None: "starting es (s @ t) = None \<Longrightarrow> starting es s = None"
  by (auto simp: starting_def find_None_iff)

lemma trim_space_Nil_trim_left: "trim_space s = [] \<longleftrightarrow> trim_left s = []"
  by (auto simp: trim_space_def dest: trim_right_Nil_trim_left) (simp add: trim_right_def)

text \<open>A trimmed string has no white space at either end, and trimming again changes nothing.\<close>

definition trimmed :: "gostring \<Rightarrow> bool" where
  "trimmed s \<longleftrightarrow> starting space_encodings s = None \<and> starting (map rev space_encodings) (rev s) = None"

lemma trimmed_trim_space: "trimmed (trim_space s)"
proof -
  obtain ps where "trim_left s = trim_space s @ concat ps"
    using trim_right_split [of "trim_left s"] by (auto simp: trim_space_def)
  moreover have "starting space_encodings (trim_left s) = None"
    by (simp add: trim_left_def)
  ultimately have "starting space_encodings (trim_space s) = None"
    by (metis starting_append_None)
  then show ?thesis
    by (simp add: trimmed_def trim_space_def trim_right_def)
qed

lemma trim_space_id: "trimmed s \<Longrightarrow> trim_space s = s"
  by (simp add: trimmed_def trim_space_def trim_left_def trim_right_def trim_start_id)

lemma trim_space_idem [simp]: "trim_space (trim_space s) = trim_space s"
  by (rule trim_space_id [OF trimmed_trim_space])

lemma trim_space_Nil [simp]: "trim_space [] = []"
  by (simp add: trim_space_def trim_left_def trim_right_def)

section \<open>strconv.Atoi\<close>

text \<open>
  An optional sign and at least one decimal digit, nothing else, with a value that fits
  into 64 bits; every other string is an error.
\<close>

definition atoi :: "gostring \<Rightarrow> int option" where
  "atoi s =
     (let neg = (s \<noteq> [] \<and> hd s = CHR ''-'');
          ds = (if s \<noteq> [] \<and> (hd s = CHR ''-'' \<or> hd s = CHR ''+'') then tl s else s);
          v = (if neg then - int (digits_val ds) else int (digits_val ds))
      in if ds \<noteq> [] \<and> list_all is_digit ds \<and> - (2 ^ 63) \<le> v \<and> v < 2 ^ 63 then Some v else None)"

lemma atoi_range: "atoi s = Some v \<Longrightarrow> - (2 ^ 63) \<le> v \<and> v < 2 ^ 63"
  by (auto simp: atoi_def Let_def split: if_splits)

lemma hd_show_nat: "hd (show_nat n) \<noteq> CHR ''-''" "hd (show_nat n) \<noteq> CHR ''+''"
  using show_nat_digits [of "hd (show_nat n)" n] hd_in_set [OF show_nat_nonempty, of n]
  by (auto simp: is_digit_def)

lemma atoi_show_int:
  assumes "- (2 ^ 63) \<le> i" "i < 2 ^ 63"
  shows "atoi (show_int i) = Some i"
proof (cases "i < 0")
  case True
  have "list_all is_digit (show_nat (nat (- i)))"
    using show_nat_digits by (auto simp: list_all_iff)
  with True assms show ?thesis
    by (simp add: atoi_def show_int_def Let_def)
next
  case False
  have "list_all is_digit (show_nat (nat i))"
    using show_nat_digits by (auto simp: list_all_iff)
  with False assms show ?thesis
    by (simp add: atoi_def show_int_def Let_def hd_show_nat)
qed

section \<open>textproto.CanonicalMIMEHeaderKey\<close>

text \<open>
  The first letter and every letter after a hyphen in upper case, the others in lower
  case. (A key with a byte that is no token character is left alone by the library; the
  keys of this service are constants without such bytes.)
\<close>

definition to_upper :: "char \<Rightarrow> char" where
  "to_upper c = (if (97::nat) \<le> of_char c \<and> of_char c \<le> (122::nat) then char_of (of_char c - 32 :: nat) else c)"

definition to_lower :: "char \<Rightarrow> char" where
  "to_lower c = (if (65::nat) \<le> of_char c \<and> of_char c \<le> (90::nat) then char_of (of_char c + 32 :: nat) else c)"

fun canonical_from :: "bool \<Rightarrow> gostring \<Rightarrow> gostring" where
  "canonical_from up [] = []"
| "canonical_from up (c # cs) =
     (if up then to_upper c else to_lower c) # canonical_from (c = CHR ''-'') cs"

definition canonical_key :: "gostring \<Rightarrow> gostring" where
  "canonical_key k = canonical_from True k"

section \<open>strings.Split\<close>

text \<open>\<open>Split\<close> with a separator of one byte: the pieces between the separators, at least one.\<close>

fun split_on :: "char \<Rightarrow> gostring \<Rightarrow> gostring list" where
  "split_on c [] = [[]]"
| "split_on c (x # s) =
     (if x = c then [] # split_on c s
      else (case split_on c s of [] \<Rightarrow> [[x]] | w # ws \<Rightarrow> (x # w) # ws))"

fun join_with :: "char \<Rightarrow> gostring list \<Rightarrow> gostring" where
  "join_with c [] = []"
| "join_with c [w] = w"
| "join_with c (w # ws) = w @ [c] @ join_with c ws"

lemma split_on_nonempty [simp]: "split_on c s \<noteq> []"
  by (induction s) (auto split: list.splits)

lemma split_on_piece: "c \<notin> set w \<Longrightarrow> split_on c w = [w]"
  by (induction w) auto

lemma split_on_append: "c \<notin> set w \<Longrightarrow> split_on c (w @ c # s) = w # split_on c s"
  by (induction w) auto

lemma split_on_join: "ws \<noteq> [] \<Longrightarrow> \<forall>w \<in> set ws. c \<notin> set w \<Longrightarrow> split_on c (join_with c ws) = ws"
  by (induction c ws rule: join_with.induct) (simp_all add: split_on_piece split_on_append)

section \<open>UTF-8\<close>

text \<open>
  \<open>utf8.DecodeRune\<close>: after the first byte of a character the ranges of the bytes that must
  follow; the second byte has a narrower range where a longer encoding, a surrogate or a code
  point above U+10FFFF would result. \<open>rune_len\<close> is the length of the first character of a string,
  0 when the string does not begin with one.
\<close>

definition byte_in :: "nat \<Rightarrow> nat \<Rightarrow> char \<Rightarrow> bool" where
  "byte_in a b c \<longleftrightarrow> a \<le> of_char c \<and> of_char c \<le> b"

fun bytes_in :: "(nat \<times> nat) list \<Rightarrow> gostring \<Rightarrow> bool" where
  "bytes_in [] cs = True"
| "bytes_in (r # rs) [] = False"
| "bytes_in ((a, b) # rs) (c # cs) = (byte_in a b c \<and> bytes_in rs cs)"

definition rune_tail :: "char \<Rightarrow> (nat \<times> nat) list option" where
  "rune_tail c =
     (let cont = (0x80, 0xBF) in
      if byte_in 0 0x7F c then Some []
      else if byte_in 0xC2 0xDF c then Some [cont]
      else if byte_in 0xE0 0xE0 c then Some [(0xA0, 0xBF), cont]
      else if byte_in 0xED 0xED c then Some [(0x80, 0x9F), cont]
      else if byte_in 0xE1 0xEF c then Some [cont, cont]
      else if byte_in 0xF0 0xF0 c then Some [(0x90, 0xBF), cont, cont]
      else if byte_in 0xF1 0xF3 c then Some [cont, cont, cont]
      else if byte_in 0xF4 0xF4 c then Some [(0x80, 0x8F), cont, cont]
      else None)"

definition rune_len :: "gostring \<Rightarrow> nat" where
  "rune_len s =
     (case s of [] \<Rightarrow> 0
      | c # cs \<Rightarrow> (case rune_tail c of None \<Rightarrow> 0 | Some rs \<Rightarrow> if bytes_in rs cs then Suc (length rs) else 0))"

text \<open>A string as \<open>encoding/json\<close> writes it: each byte that is no character becomes U+FFFD.\<close>

function to_valid_utf8 :: "gostring \<Rightarrow> gostring" where
  "to_valid_utf8 [] = []"
| "to_valid_utf8 (c # cs) =
     (if rune_len (c # cs) = 0 then CHR 0xEF # CHR 0xBF # CHR 0xBD # to_valid_utf8 cs
      else take (rune_len (c # cs)) (c # cs) @ to_valid_utf8 (drop (rune_len (c # cs) - 1) cs))"
  by pat_completeness auto
termination
  by (relation "measure length") auto

definition ascii :: "gostring \<Rightarrow> bool" where
  "ascii s \<longleftrightarrow> list_all (byte_in 0 0x7F) s"

lemma to_valid_utf8_ascii: "ascii s \<Longrightarrow> to_valid_utf8 s = s"
  by (induction s) (simp_all add: ascii_def rune_len_def rune_tail_def)

text \<open>\<open>strconv.Quote\<close>; characters outside ASCII are taken to be printable.\<close>

definition hex_digit :: "nat \<Rightarrow> char" where
  "hex_digit n = (if n < 10 then char_of (48 + n) else char_of (87 + n))"

definition quote_escapes :: "(char \<times> char) list" where
  "quote_escapes = [(CHR 0x07, CHR ''a''), (CHR 0x08, CHR ''b''), (CHR 0x0C, CHR ''f''), (CHR 0x0A, CHR ''n''),
     (CHR 0x0D, CHR ''r''), (CHR 0x09, CHR ''t''), (CHR 0x0B, CHR ''v'')]"

definition quote_byte :: "char \<Rightarrow> gostring" where
  "quote_byte c =
     (if c = CHR 0x22 \<or> c = CHR 0x5C then [CHR 0x5C, c]
      else (case map_of quote_escapes c of
          Some l \<Rightarrow> [CHR 0x5C, l]
        | None \<Rightarrow> (if byte_in 0x20 0x7E c then [c]
            else [CHR 0x5C, CHR ''x'', hex_digit (of_char c div 16), hex_digit (of_char c mod 16)])))"

function quote_runes :: "gostring \<Rightarrow> gostring" where
  "quote_runes [] = []"
| "quote_runes (c # cs) =
     (if rune_len (c # cs) \<le> 1 then quote_byte c @ quote_runes cs
      else take (rune_len (c # cs)) (c # cs) @ quote_runes (drop (rune_len (c # cs) - 1) cs))"
  by pat_completeness auto
termination
  by (relation "measure length") auto

definition go_quote :: "gostring \<Rightarrow> gostring" where
  "go_quote s = CHR 0x22 # quote_runes s @ [CHR 0x22]"

lemma quote_escapes_control: "byte_in 0x20 0x7E c \<Longrightarrow> map_of quote_escapes c = None"
proof -
  have "list_all (\<lambda>c. \<not> byte_in 0x20 0x7E c) (map fst quote_escapes)"
    by (simp add: quote_escapes_def byte_in_def)
  then show "byte_in 0x20 0x7E c \<Longrightarrow> map_of quote_escapes c = None"
    by (force simp: map_of_eq_None_iff list_all_iff)
qed

lemma go_quote_plain:
  assumes "list_all (\<lambda>c. byte_in 0x20 0x7E c \<and> c \<noteq> CHR 0x22 \<and> c \<noteq> CHR 0x5C) s"
  shows "go_quote s = CHR 0x22 # s @ [CHR 0x22]"
proof -
  have "rune_len (c # cs) \<le> 1" if "byte_in 0x20 0x7E c" for c cs
  proof -
    have "byte_in 0 0x7F c"
      using that by (simp add: byte_in_def)
    then show ?thesis
      by (simp add: rune_len_def rune_tail_def Let_def)
  qed
  moreover have "quote_byte c = [c]" if "byte_in 0x20 0x7E c" "c \<noteq> CHR 0x22" "c \<noteq> CHR 0x5C" for c
    using that quote_escapes_control [OF that(1)] by (simp add: quote_byte_def)
  ultimately have "quote_runes s = s"
    using assms by (induction s) simp_all
  then show ?thesis
    by (simp add: go_quote_def)
qed

end
