(* ===== verification/GoFloat.thy ===== *)
theory GoFloat
  imports Complex_Main GoPrelude
begin

text \<open>
  IEEE 754 binary64 as far as the service uses it: conversion of an integer and one
  division. A finite value is the rational it denotes (the sign of zero is not kept);
  every operation is the exact result rounded to nearest, ties to even, with the exponent
  range of the format.
\<close>

section \<open>The binary exponent of a positive rational\<close>

fun ilog2 :: "nat \<Rightarrow> nat" where
  "ilog2 n = (if n < 2 then 0 else Suc (ilog2 (n div 2)))"

declare ilog2.simps [simp del]

lemma ilog2_bounds: "0 < n \<Longrightarrow> 2 ^ ilog2 n \<le> n \<and> n < 2 ^ Suc (ilog2 n)"
proof (induction n rule: ilog2.induct)
  case (1 n)
  show ?case
  proof (cases "n < 2")
    case True
    with "1.prems" show ?thesis
      by (simp add: ilog2.simps [of n])
  next
    case False
    with 1 have "2 ^ ilog2 (n div 2) \<le> n div 2" "n div 2 < 2 ^ Suc (ilog2 (n div 2))"
      by auto
    with False show ?thesis
      by (simp add: ilog2.simps [of n]) linarith
  qed
qed

definition flog2 :: "rat \<Rightarrow> int" where
  "flog2 r = (let (p, q) = quotient_of r;
                  e = int (ilog2 (nat p)) - int (ilog2 (nat q))
              in if 2 powi e \<le> r then e else e - 1)"

lemma powi_two_pos [simp]: "(0::rat) < 2 powi e"
  by (simp add: zero_less_power_int)

lemma powi_two_nz [simp]: "(2::rat) powi e \<noteq> 0"
  by simp

lemma powi_two_Suc: "(2::rat) powi (e + 1) = 2 * 2 powi e"
  by (simp add: power_int_add)

lemma powi_two_mono: "a \<le> b \<Longrightarrow> (2::rat) powi a \<le> 2 powi b"
  by (rule power_int_increasing) auto

lemma powi_two_less: "(2::rat) powi a < 2 powi b \<Longrightarrow> a < b"
  using powi_two_mono [of b a] by linarith

lemma flog2_bounds:
  assumes "0 < r"
  shows "2 powi flog2 r \<le> r" "r < 2 powi (flog2 r + 1)"
proof -
  obtain p q where pq: "quotient_of r = (p, q)"
    by (cases "quotient_of r")
  then have q: "0 < q" and r: "r = of_int p / of_int q"
    by (auto intro: quotient_of_denom_pos quotient_of_div)
  with assms have p: "0 < p"
    by (simp add: zero_less_divide_iff)
  define a b where "a = ilog2 (nat p)" and "b = ilog2 (nat q)"
  have pa: "2 ^ a \<le> p" "p < 2 ^ Suc a"
    using ilog2_bounds [of "nat p"] p by (auto simp: a_def nat_le_iff nat_less_iff le_nat_iff)
  have qb: "2 ^ b \<le> q" "q < 2 ^ Suc b"
    using ilog2_bounds [of "nat q"] q by (auto simp: b_def nat_le_iff nat_less_iff le_nat_iff)
  have pr: "(2::rat) ^ a \<le> of_int p" "of_int p < (2::rat) ^ Suc a"
    using pa by (metis of_int_le_iff of_int_numeral of_int_power)
                (metis pa(2) of_int_less_iff of_int_numeral of_int_power)
  have qr: "(2::rat) ^ b \<le> of_int q" "of_int q < (2::rat) ^ Suc b"
    using qb by (metis of_int_le_iff of_int_numeral of_int_power)
                (metis qb(2) of_int_less_iff of_int_numeral of_int_power)
  define e where "e = int a - int b"
  have e: "(2::rat) powi e = 2 ^ a / 2 ^ b"
    by (simp add: e_def power_int_diff)
  have up: "r < 2 powi (e + 1)"
  proof -
    have "r < 2 ^ Suc a / of_int q"
      using pr(2) q by (simp add: r divide_strict_right_mono)
    also have "\<dots> \<le> 2 ^ Suc a / 2 ^ b"
      using qr(1) by (intro divide_left_mono) (auto simp: q)
    also have "\<dots> = 2 powi (e + 1)"
      by (simp add: powi_two_Suc e)
    finally show ?thesis .
  qed
  have lo: "2 powi (e - 1) \<le> r"
  proof -
    have "(2::rat) powi (e - 1) = 2 ^ a / 2 ^ Suc b"
      using powi_two_Suc [of "e - 1"] by (simp add: e)
    also have "\<dots> \<le> 2 ^ a / of_int q"
      using qr(2) q by (intro divide_left_mono) (auto intro: less_imp_le)
    also have "\<dots> \<le> r"
      using pr(1) q by (simp add: r divide_right_mono)
    finally show ?thesis .
  qed
  have fl: "flog2 r = (if 2 powi e \<le> r then e else e - 1)"
    by (simp add: flog2_def pq e_def a_def b_def)
  show "2 powi flog2 r \<le> r" "r < 2 powi (flog2 r + 1)"
    using up lo by (auto simp: fl)
qed

lemma flog2_unique:
  assumes "2 powi k \<le> r" "r < 2 powi (k + 1)"
  shows "flog2 r = k"
proof -
  have "0 < r"
    using assms(1) powi_two_pos [of k] by linarith
  note b = flog2_bounds [OF this]
  have "(2::rat) powi flog2 r < 2 powi (k + 1)" "(2::rat) powi k < 2 powi (flog2 r + 1)"
    using assms b by linarith+
  then have "flog2 r < k + 1" "k < flog2 r + 1"
    by (blast intro: powi_two_less)+
  then show ?thesis
    by linarith
qed

lemma flog2_mono: "0 < x \<Longrightarrow> x \<le> y \<Longrightarrow> flog2 x \<le> flog2 y"
  using flog2_bounds(1) [of x] flog2_bounds(2) [of y] powi_two_less [of "flog2 x" "flog2 y + 1"]
  by linarith

section \<open>Rounding to nearest, ties to even\<close>

definition round_even :: "rat \<Rightarrow> int" where
  "round_even r =
     (let f = \<lfloor>r\<rfloor>; d = r - of_int f
      in if d < 1 / 2 then f else if d > 1 / 2 then f + 1 else if even f then f else f + 1)"

lemma round_even_int [simp]: "round_even (of_int i) = i"
  by (simp add: round_even_def)

lemma round_even_near: "\<bar>of_int (round_even r) - r\<bar> \<le> 1 / 2"
proof -
  have "of_int \<lfloor>r\<rfloor> \<le> r" "r < of_int \<lfloor>r\<rfloor> + 1"
    by linarith+
  then show ?thesis
    by (auto simp: round_even_def Let_def abs_le_iff)
qed

lemma round_even_mono:
  assumes "x \<le> y"
  shows "round_even x \<le> round_even y"
proof (cases "\<lfloor>x\<rfloor> = \<lfloor>y\<rfloor>")
  case True
  with assms show ?thesis
    by (auto simp: round_even_def Let_def)
next
  case False
  with assms have "\<lfloor>x\<rfloor> + 1 \<le> \<lfloor>y\<rfloor>"
    using floor_mono [OF assms] by linarith
  then show ?thesis
    by (auto simp: round_even_def Let_def)
qed

lemma round_even_ge: "of_int i \<le> r \<Longrightarrow> i \<le> round_even r"
  using round_even_mono [of "of_int i" r] by simp

lemma round_even_le: "r \<le> of_int i \<Longrightarrow> round_even r \<le> i"
  using round_even_mono [of r "of_int i"] by simp

definition f64_exp :: "rat \<Rightarrow> int" where
  "f64_exp r = max (flog2 \<bar>r\<bar> - 52) (- 1074)"

definition f64_round :: "rat \<Rightarrow> rat" where
  "f64_round r =
     (if r = 0 then 0
      else of_int (round_even (r / 2 powi f64_exp r)) * 2 powi f64_exp r)"

lemma f64_round_0 [simp]: "f64_round 0 = 0"
  by (simp add: f64_round_def)

lemma f64_round_exact:
  "r / 2 powi f64_exp r = of_int m \<Longrightarrow> f64_round r = r"
  by (simp add: f64_round_def) (metis nonzero_eq_divide_eq powi_two_nz)

lemma f64_round_nonneg: "0 \<le> r \<Longrightarrow> 0 \<le> f64_round r"
  using round_even_ge [of 0 "r / 2 powi f64_exp r"] by (simp add: f64_round_def)

lemma f64_round_mono:
  assumes "0 \<le> x" "x \<le> y"
  shows "f64_round x \<le> f64_round y"
proof (cases "x = 0")
  case True
  with assms show ?thesis
    by (simp add: f64_round_nonneg)
next
  case False
  with assms have x: "0 < x" and y: "0 < y"
    by auto
  let ?a = "f64_exp x" and ?b = "f64_exp y"
  have le: "?a \<le> ?b"
    using flog2_mono [OF x assms(2)] x y by (simp add: f64_exp_def)
  show ?thesis
  proof (cases "?a = ?b")
    case True
    have "round_even (x / 2 powi ?b) \<le> round_even (y / 2 powi ?b)"
      using assms(2) by (intro round_even_mono divide_right_mono) auto
    with x y True show ?thesis
      by (simp add: f64_round_def mult_right_mono)
  next
    case False
    with le have lt: "?a + 1 \<le> ?b"
      by simp
    have "x < 2 powi (flog2 x + 1)"
      using flog2_bounds [OF x] by simp
    also have "\<dots> \<le> 2 powi (53 + ?a)"
      using x by (intro powi_two_mono) (simp add: f64_exp_def)
    also have "\<dots> = 2 ^ 53 * 2 powi ?a"
      by (simp add: power_int_add)
    finally have "x / 2 powi ?a \<le> of_int (2 ^ 53)"
      by (simp add: field_simps)
    then have "round_even (x / 2 powi ?a) \<le> 2 ^ 53"
      by (rule round_even_le)
    then have "(of_int (round_even (x / 2 powi ?a)) :: rat) \<le> of_int (2 ^ 53)"
      by (rule of_int_le_iff [THEN iffD2])
    then have fx: "f64_round x \<le> 2 ^ 53 * 2 powi ?a"
      using x by (simp add: f64_round_def)
    have eb: "?b = flog2 y - 52"
      using lt y x by (auto simp: f64_exp_def)
    have "(2::rat) ^ 52 * 2 powi ?b = 2 powi flog2 y"
      using power_int_add [of "2::rat" 52 ?b] by (simp add: eb)
    also have "\<dots> \<le> y"
      using flog2_bounds [OF y] by simp
    finally have "of_int (2 ^ 52) \<le> y / 2 powi ?b"
      by (simp add: field_simps)
    then have "2 ^ 52 \<le> round_even (y / 2 powi ?b)"
      by (rule round_even_ge)
    then have "(of_int (2 ^ 52) :: rat) \<le> of_int (round_even (y / 2 powi ?b))"
      by (rule of_int_le_iff [THEN iffD2])
    then have fy: "2 ^ 52 * 2 powi ?b \<le> f64_round y"
      using y by (simp add: f64_round_def)
    have "(2::rat) ^ 53 * 2 powi ?a = 2 ^ 52 * 2 powi (?a + 1)"
      by (simp add: powi_two_Suc)
    also have "\<dots> \<le> 2 ^ 52 * 2 powi ?b"
      using powi_two_mono [OF lt] by simp
    finally show ?thesis
      using fx fy by linarith
  qed
qed

lemma f64_round_power [simp]: "- 1074 \<le> k \<Longrightarrow> f64_round (2 powi k) = 2 powi k"
proof -
  assume k: "- 1074 \<le> k"
  have "flog2 (2 powi k) = k"
    by (rule flog2_unique) (simp_all add: powi_two_Suc)
  then have e: "f64_exp (2 powi k) = max (k - 52) (- 1074)"
    by (simp add: f64_exp_def)
  define m where "m = k - f64_exp (2 powi k)"
  have "0 \<le> m"
    using k by (simp add: m_def e)
  have "2 powi k / 2 powi f64_exp (2 powi k) = (2::rat) powi m"
    by (simp add: m_def power_int_diff)
  also have "\<dots> = of_int (2 ^ nat m)"
    using \<open>0 \<le> m\<close> by (simp add: power_int_def)
  finally show ?thesis
    by (rule f64_round_exact)
qed

lemma f64_round_1 [simp]: "f64_round 1 = 1"
  using f64_round_power [of 0] by simp

lemma f64_round_pos: "2 powi - 1074 \<le> r \<Longrightarrow> 0 < f64_round r"
proof -
  assume "2 powi - 1074 \<le> r"
  then have "f64_round (2 powi - 1074) \<le> f64_round r"
    by (intro f64_round_mono less_imp_le [OF powi_two_pos])
  moreover have "f64_round (2 powi - 1074) = 2 powi - 1074"
    by (rule f64_round_power) simp
  moreover note powi_two_pos [of "- 1074"]
  ultimately show ?thesis
    by (metis less_le_trans)
qed

text \<open>Integers of up to 53 bits are represented exactly.\<close>

lemma f64_round_int:
  assumes "0 \<le> i" "i \<le> 2 ^ 53"
  shows "f64_round (of_int i) = of_int i"
proof -
  consider "i = 0" | "i = 2 ^ 53" | "0 < i" "i < 2 ^ 53"
    using assms by linarith
  then show ?thesis
  proof cases
    case 2
    then show ?thesis
      using f64_round_power [of 53] by simp
  next
    case 3
    have "(2::rat) powi flog2 (of_int i) \<le> of_int i"
      using 3 by (intro flog2_bounds) simp
    also have "\<dots> < of_int (2 ^ 53)"
      using 3(2) by (rule of_int_less_iff [THEN iffD2])
    also have "\<dots> = 2 powi 53"
      by simp
    finally have "flog2 (of_int i) < 53"
      by (rule powi_two_less)
    then have e: "f64_exp (of_int i) \<le> 0"
      using 3 by (simp add: f64_exp_def)
    have "of_int i / (2::rat) powi f64_exp (of_int i) = of_int i * 2 powi (- f64_exp (of_int i))"
      by (simp add: power_int_minus field_simps)
    also have "\<dots> = of_int (i * 2 ^ nat (- f64_exp (of_int i)))"
      using e by (simp add: power_int_def)
    finally show ?thesis
      by (rule f64_round_exact)
  qed simp
qed

section \<open>The float64 type of Go\<close>

datatype float64 = Finite rat | Infinite bool | NaN

definition f64_of_rat :: "rat \<Rightarrow> float64" where
  "f64_of_rat r = (let x = f64_round r in if 2 ^ 1024 \<le> \<bar>x\<bar> then Infinite (x < 0) else Finite x)"

definition f64_of_int :: "int \<Rightarrow> float64" where
  "f64_of_int i = f64_of_rat (of_int i)"

fun f64_div :: "float64 \<Rightarrow> float64 \<Rightarrow> float64" where
  "f64_div (Finite a) (Finite b) =
     (if b = 0 then (if a = 0 then NaN else Infinite (a < 0)) else f64_of_rat (a / b))"
| "f64_div (Infinite s) (Finite b) = Infinite (s \<noteq> (b < 0))"
| "f64_div (Finite a) (Infinite s) = Finite 0"
| "f64_div (Infinite s) (Infinite t) = NaN"
| "f64_div NaN y = NaN"
| "f64_div x NaN = NaN"

lemma f64_of_rat_small: "0 \<le> r \<Longrightarrow> r \<le> 2 ^ 64 \<Longrightarrow> f64_of_rat r = Finite (f64_round r)"
proof -
  assume r: "0 \<le> r" "r \<le> 2 ^ 64"
  then have "f64_round r \<le> f64_round (2 powi 64)"
    by (intro f64_round_mono) auto
  also have "\<dots> = 2 ^ 64"
    by (simp only: f64_round_power) simp
  also have "(2::rat) ^ 64 < 2 ^ 1024"
    by (rule power_strict_increasing) auto
  finally show ?thesis
    using f64_round_nonneg [OF r(1)] by (simp add: f64_of_rat_def Let_def)
qed

text \<open>The quotient of two int64 values \<open>0 \<le> a \<le> b\<close>, \<open>0 < b\<close>, converted first, as in Go.\<close>

definition ratio :: "int \<Rightarrow> int \<Rightarrow> rat" where
  "ratio a b = f64_round (f64_round (of_int a) / f64_round (of_int b))"

lemma f64_round_int_pos: "0 < i \<Longrightarrow> 1 \<le> f64_round (of_int i)"
  using f64_round_mono [of 1 "of_int i"] by simp

lemma f64_round_int_le: "0 \<le> i \<Longrightarrow> i < 2 ^ 63 \<Longrightarrow> f64_round (of_int i) \<le> 2 ^ 63"
proof -
  assume i: "0 \<le> i" "i < 2 ^ 63"
  then have "(of_int i :: rat) \<le> of_int (2 ^ 63)"
    by (intro of_int_le_iff [THEN iffD2]) simp
  then have "f64_round (of_int i) \<le> f64_round (2 powi 63)"
    using i by (intro f64_round_mono) auto
  also have "\<dots> = 2 ^ 63"
    by (simp only: f64_round_power) simp
  finally show ?thesis .
qed

lemma f64_div_ints:
  assumes "0 \<le> a" "a < 2 ^ 63" "0 < b" "b < 2 ^ 63"
  shows "f64_div (f64_of_int a) (f64_of_int b) = Finite (ratio a b)"
proof -
  have bounds: "(of_int i :: rat) \<le> 2 ^ 64" if "i < 2 ^ 63" for i :: int
  proof -
    have "(of_int i :: rat) \<le> of_int (2 ^ 63)"
      using that by (intro of_int_le_iff [THEN iffD2]) simp
    then show ?thesis
      by simp
  qed
  let ?a = "f64_round (of_int a)" and ?b = "f64_round (of_int b)"
  have b1: "1 \<le> ?b"
    using assms by (simp add: f64_round_int_pos)
  have "0 \<le> ?a" "?a \<le> 2 ^ 63"
    using assms by (simp add: f64_round_nonneg, intro f64_round_int_le)
  moreover have "?a / ?b \<le> ?a"
    using b1 \<open>0 \<le> ?a\<close> by (simp add: divide_le_eq mult_le_cancel_left1)
  ultimately have "0 \<le> ?a / ?b" "?a / ?b \<le> 2 ^ 64"
    using b1 by auto
  then show ?thesis
    using assms b1 by (simp add: f64_of_int_def f64_of_rat_small bounds ratio_def)
qed

lemma ratio_bounds:
  assumes "0 \<le> a" "a \<le> b" "0 < b"
  shows "0 \<le> ratio a b" "ratio a b \<le> 1"
proof -
  have b: "1 \<le> f64_round (of_int b)"
    using assms by (simp add: f64_round_int_pos)
  have a: "0 \<le> f64_round (of_int a)"
    using assms by (simp add: f64_round_nonneg)
  have ab: "f64_round (of_int a) \<le> f64_round (of_int b)"
    using assms by (intro f64_round_mono) auto
  show "0 \<le> ratio a b"
    using a b by (simp add: ratio_def f64_round_nonneg)
  have "ratio a b \<le> f64_round 1"
    unfolding ratio_def using a b ab by (intro f64_round_mono) (auto simp: divide_le_eq)
  then show "ratio a b \<le> 1"
    by simp
qed

lemma ratio_self: "0 < b \<Longrightarrow> ratio b b = 1"
  using f64_round_int_pos [of b] by (simp add: ratio_def)

lemma ratio_0 [simp]: "ratio 0 b = 0"
  by (simp add: ratio_def)

lemma ratio_mono: "0 \<le> a \<Longrightarrow> a \<le> a' \<Longrightarrow> 0 < b \<Longrightarrow> ratio a b \<le> ratio a' b"
proof -
  assume a: "0 \<le> a" "a \<le> a'" and "0 < b"
  then have "1 \<le> f64_round (of_int b)"
    by (simp add: f64_round_int_pos)
  moreover have "f64_round (of_int a) \<le> f64_round (of_int a')" "0 \<le> f64_round (of_int a)"
    using a by (auto intro: f64_round_mono simp: f64_round_nonneg)
  ultimately show ?thesis
    unfolding ratio_def by (intro f64_round_mono) (auto intro: divide_right_mono)
qed

lemma ratio_pos:
  assumes "0 < a" "0 < b" "b < 2 ^ 63"
  shows "0 < ratio a b"
proof -
  let ?a = "f64_round (of_int a)" and ?b = "f64_round (of_int b)"
  have "1 \<le> ?a" "1 \<le> ?b"
    using assms by (simp_all add: f64_round_int_pos)
  moreover have "?b \<le> 2 ^ 63"
    using assms by (intro f64_round_int_le) simp_all
  ultimately have "1 / 2 ^ 63 \<le> ?a / ?b"
    by (intro frac_le) auto
  moreover have "(2::rat) powi - 1074 \<le> 2 powi - 63"
    by (rule powi_two_mono) simp
  moreover have "(2::rat) powi - 63 = 1 / 2 ^ 63"
    by (simp add: power_int_minus field_simps)
  ultimately show ?thesis
    unfolding ratio_def by (intro f64_round_pos) linarith
qed

text \<open>Up to 53 bits the ratio tells a full sector from one that is not.\<close>

lemma ratio_less_1:
  assumes "0 \<le> a" "a < b" "b \<le> 2 ^ 53"
  shows "ratio a b < 1"
proof -
  let ?x = "(2 ^ 53 - 1) / (2::rat) ^ 53"
  have x: "2 powi - 1 \<le> ?x" "?x < 2 powi (- 1 + 1)"
    by (simp_all add: power_int_minus field_simps)
  have "flog2 ?x = - 1"
    by (rule flog2_unique [OF x])
  then have e: "f64_exp ?x = - 53"
    by (simp add: f64_exp_def)
  have "?x / 2 powi f64_exp ?x = of_int (2 ^ 53 - 1)"
    unfolding e by (simp add: power_int_minus)
  then have fx: "f64_round ?x = ?x"
    by (rule f64_round_exact)
  have b: "(of_int b :: rat) \<le> of_int (2 ^ 53)"
    using assms(3) by (rule of_int_le_iff [THEN iffD2])
  have ab: "(of_int a :: rat) \<le> of_int (b - 1)"
    using assms(2) by (intro of_int_le_iff [THEN iffD2]) simp
  have bpos: "(0::rat) < of_int b"
    using assms by simp
  have "of_int a / of_int b \<le> (of_int b - 1) / (of_int b :: rat)"
    using ab bpos by (simp add: divide_right_mono)
  also have "\<dots> \<le> ?x"
    using b bpos by (simp add: field_simps)
  finally have q: "of_int a / of_int b \<le> ?x" .
  have ra: "f64_round (of_int a) = of_int a" "f64_round (of_int b) = of_int b"
    using assms by (auto intro: f64_round_int)
  have "ratio a b \<le> f64_round ?x"
    unfolding ratio_def ra using q assms(1) bpos by (intro f64_round_mono) auto
  then show ?thesis
    by (simp only: fx) simp
qed


text \<open>Above 53 bits an odd integer is rounded to a neighbour, and the ratio may become 1.\<close>

lemma f64_round_odd: "f64_round (of_int (2 ^ 53 + 1)) = of_int (2 ^ 53)"
proof -
  have "flog2 (of_int (2 ^ 53 + 1)) = 53"
    by (rule flog2_unique) (simp_all add: power_int_def)
  then have e: "f64_exp (of_int (2 ^ 53 + 1)) = 1"
    by (simp add: f64_exp_def)
  have "\<lfloor>(9007199254740993 / 2 :: rat)\<rfloor> = 4503599627370496"
    by (rule floor_unique) simp_all
  then have "round_even (9007199254740993 / 2) = 4503599627370496"
    by (simp add: round_even_def)
  then show ?thesis
    using e by (simp add: f64_round_def)
qed

lemma ratio_rounds_to_1: "ratio (2 ^ 53) (2 ^ 53 + 1) = 1"
  using f64_round_int [of "2 ^ 53"] by (simp add: ratio_def f64_round_odd [simplified])

end
