(* ===== verification/Telemetry.thy ===== *)
theory Telemetry
  imports GoStrings GoFloat "HOL-Library.Char_ord" "HOL-Library.List_Lexorder"
begin

text \<open>
  The request path of \<open>telemetry-service/main.go\<close>: the payload and event structs, JSON
  decoding of the payload, validation, the fill rate, the HTTP routes and the ingest
  handler over the two interfaces \<open>StateStore\<close> and \<open>EventPublisher\<close>.
\<close>

section \<open>Data\<close>

text \<open>
  A Go \<open>int\<close> is an \<open>int\<close> here; that a decoded one fits into 64 bits is proved below.
  \<open>*string\<close> is an option.
\<close>

record raw_telemetry_payload =
  pl_droneID :: gostring
  pl_sector :: gostring
  pl_containerCount :: int
  pl_capacity :: int
  pl_blockageDetected :: bool
  pl_timestamp :: gostring
  pl_vesselETA :: "gostring option"

record processed_telemetry_event =
  ev_correlationID :: gostring
  ev_sector :: gostring
  ev_fillRate :: float64
  ev_blockageDetected :: bool
  ev_droneID :: gostring
  ev_vesselETA :: "gostring option"
  ev_timestamp :: gostring

section \<open>JSON values\<close>

text \<open>
  A JSON text as the tree its scanner yields: a number literal is an integer literal or
  one with a fraction or an exponent; an object keeps its members in order, duplicates
  included. The strings of a tree that is read are what the decoder's \<open>unquote\<close> yields.
  \<open>JFloat\<close> is the literal the encoder prints for a float64, and \<open>json_str\<close> the string it
  writes: bytes that are not UTF-8 are replaced by U+FFFD.
\<close>

datatype json =
    JNull
  | JBool bool
  | JInt int
  | JReal rat
  | JFloat float64
  | JStr gostring
  | JArr "json list"
  | JObj "(gostring \<times> json) list"

definition json_str :: "gostring \<Rightarrow> json" where
  "json_str s = JStr (to_valid_utf8 s)"

definition zero_payload :: raw_telemetry_payload where
  "zero_payload = \<lparr>pl_droneID = '''', pl_sector = '''', pl_containerCount = 0, pl_capacity = 0,
     pl_blockageDetected = False, pl_timestamp = '''', pl_vesselETA = None\<rparr>"

text \<open>
  \<open>encoding/json\<close> finds the struct field of a member by its exact tag, else by the folded
  name: ASCII letters in upper case, and the two non-ASCII letters that fold to an ASCII
  one (U+017F to S, U+212A to K).
\<close>

fun fold_name :: "gostring \<Rightarrow> gostring" where
  "fold_name [] = []"
| "fold_name (c # cs) =
     (if c = CHR 0xC5 \<and> take 1 cs = [CHR 0xBF] then CHR ''S'' # fold_name (drop 1 cs)
      else if c = CHR 0xE2 \<and> take 2 cs = [CHR 0x84, CHR 0xAA] then CHR ''K'' # fold_name (drop 2 cs)
      else to_upper c # fold_name cs)"

datatype payload_field = F_droneId | F_sector | F_containerCount | F_capacity
  | F_blockageDetected | F_timestamp | F_vesselEta

fun field_tag :: "payload_field \<Rightarrow> gostring" where
  "field_tag F_droneId = ''droneId''"
| "field_tag F_sector = ''sector''"
| "field_tag F_containerCount = ''containerCount''"
| "field_tag F_capacity = ''capacity''"
| "field_tag F_blockageDetected = ''blockageDetected''"
| "field_tag F_timestamp = ''timestamp''"
| "field_tag F_vesselEta = ''vesselEta''"

definition payload_fields :: "payload_field list" where
  "payload_fields = [F_droneId, F_sector, F_containerCount, F_capacity, F_blockageDetected,
     F_timestamp, F_vesselEta]"

definition field_for :: "gostring \<Rightarrow> payload_field option" where
  "field_for key =
     (case find (\<lambda>f. field_tag f = key) payload_fields of
        Some f \<Rightarrow> Some f
      | None \<Rightarrow> find (\<lambda>f. fold_name (field_tag f) = fold_name key) payload_fields)"

text \<open>
  Storing one value: \<open>null\<close> leaves a plain field alone and clears a pointer; a value of the
  wrong JSON type, and a number that is no 64-bit integer literal, leaves the field alone
  and records an \<open>UnmarshalTypeError\<close> (the flag), after which decoding goes on.
\<close>

fun set_string :: "json \<Rightarrow> gostring \<Rightarrow> gostring \<times> bool" where
  "set_string (JStr s) old = (s, True)"
| "set_string JNull old = (old, True)"
| "set_string v old = (old, False)"

fun set_int :: "json \<Rightarrow> int \<Rightarrow> int \<times> bool" where
  "set_int (JInt i) old = (if - (2 ^ 63) \<le> i \<and> i < 2 ^ 63 then (i, True) else (old, False))"
| "set_int JNull old = (old, True)"
| "set_int v old = (old, False)"

fun set_bool :: "json \<Rightarrow> bool \<Rightarrow> bool \<times> bool" where
  "set_bool (JBool b) old = (b, True)"
| "set_bool JNull old = (old, True)"
| "set_bool v old = (old, False)"

fun set_string_ptr :: "json \<Rightarrow> gostring option \<Rightarrow> gostring option \<times> bool" where
  "set_string_ptr (JStr s) old = (Some s, True)"
| "set_string_ptr JNull old = (None, True)"
| "set_string_ptr v old = (Some (case old of None \<Rightarrow> [] | Some s \<Rightarrow> s), False)"

fun set_field :: "payload_field \<Rightarrow> json \<Rightarrow> raw_telemetry_payload \<Rightarrow> raw_telemetry_payload \<times> bool" where
  "set_field F_droneId v p =
     (let (x, ok) = set_string v (pl_droneID p) in (p\<lparr>pl_droneID := x\<rparr>, ok))"
| "set_field F_sector v p =
     (let (x, ok) = set_string v (pl_sector p) in (p\<lparr>pl_sector := x\<rparr>, ok))"
| "set_field F_containerCount v p =
     (let (x, ok) = set_int v (pl_containerCount p) in (p\<lparr>pl_containerCount := x\<rparr>, ok))"
| "set_field F_capacity v p =
     (let (x, ok) = set_int v (pl_capacity p) in (p\<lparr>pl_capacity := x\<rparr>, ok))"
| "set_field F_blockageDetected v p =
     (let (x, ok) = set_bool v (pl_blockageDetected p) in (p\<lparr>pl_blockageDetected := x\<rparr>, ok))"
| "set_field F_timestamp v p =
     (let (x, ok) = set_string v (pl_timestamp p) in (p\<lparr>pl_timestamp := x\<rparr>, ok))"
| "set_field F_vesselEta v p =
     (let (x, ok) = set_string_ptr v (pl_vesselETA p) in (p\<lparr>pl_vesselETA := x\<rparr>, ok))"

fun decode_members :: "(gostring \<times> json) list \<Rightarrow> raw_telemetry_payload \<Rightarrow> raw_telemetry_payload \<times> bool" where
  "decode_members [] p = (p, True)"
| "decode_members ((k, v) # ms) p =
     (case field_for k of
        None \<Rightarrow> decode_members ms p
      | Some f \<Rightarrow> (let (p', ok) = set_field f v p; (p'', ok') = decode_members ms p' in (p'', ok \<and> ok')))"

text \<open>
  \<open>json.NewDecoder(r.Body).Decode(&payload)\<close>: \<open>None\<close> for a body that does not start with
  a JSON value; a top-level \<open>null\<close> decodes without an error and leaves the zero payload.
\<close>

definition decode_payload :: "json option \<Rightarrow> raw_telemetry_payload option" where
  "decode_payload body =
     (case body of
        Some (JObj ms) \<Rightarrow> (let (p, ok) = decode_members ms zero_payload in if ok then Some p else None)
      | Some JNull \<Rightarrow> Some zero_payload
      | _ \<Rightarrow> None)"

definition int64 :: "int \<Rightarrow> bool" where
  "int64 i \<longleftrightarrow> - (2 ^ 63) \<le> i \<and> i < 2 ^ 63"

definition payload_int64 :: "raw_telemetry_payload \<Rightarrow> bool" where
  "payload_int64 p \<longleftrightarrow> int64 (pl_containerCount p) \<and> int64 (pl_capacity p)"

lemma set_int_int64: "int64 old \<Longrightarrow> int64 (fst (set_int v old))"
  by (cases "(v, old)" rule: set_int.cases) (auto simp: int64_def)

lemma set_field_int64: "payload_int64 p \<Longrightarrow> payload_int64 (fst (set_field f v p))"
  using set_int_int64 [of "pl_containerCount p" v] set_int_int64 [of "pl_capacity p" v]
  by (cases f) (simp_all add: payload_int64_def split_beta)

lemma decode_members_int64: "payload_int64 p \<Longrightarrow> payload_int64 (fst (decode_members ms p))"
proof (induction ms arbitrary: p)
  case (Cons m ms)
  obtain k v where m: "m = (k, v)"
    by fastforce
  show ?case
  proof (cases "field_for k")
    case None
    with Cons m show ?thesis
      by simp
  next
    case (Some f)
    have "payload_int64 (fst (decode_members ms (fst (set_field f v p))))"
      using set_field_int64 [OF Cons.prems] by (rule Cons.IH)
    with Some m show ?thesis
      by (simp add: split_beta)
  qed
qed simp

lemma decode_payload_int64: "decode_payload body = Some p \<Longrightarrow> payload_int64 p"
proof -
  assume dec: "decode_payload body = Some p"
  have zero: "payload_int64 zero_payload"
    by (simp add: payload_int64_def int64_def zero_payload_def)
  from dec consider "p = zero_payload" | ms where "p = fst (decode_members ms zero_payload)"
    by (auto simp: decode_payload_def Let_def split_beta split: option.splits json.splits if_splits)
  then show ?thesis
    by cases (simp_all add: zero decode_members_int64)
qed

section \<open>Validation\<close>

text \<open>\<open>validateTelemetry\<close>: the message of the first check that fails, \<open>None\<close> for \<open>nil\<close>.\<close>

definition validate_telemetry :: "raw_telemetry_payload \<Rightarrow> gostring option" where
  "validate_telemetry payload =
     (if trim_space (pl_droneID payload) = '''' then Some ''droneId must not be blank''
      else if trim_space (pl_sector payload) = '''' then Some ''sector must not be blank''
      else if pl_containerCount payload < 0 then Some ''containerCount must be >= 0''
      else if pl_capacity payload \<le> 0 then Some ''capacity must be > 0''
      else if pl_containerCount payload > pl_capacity payload
        then Some ''containerCount must not exceed capacity''
      else if trim_space (pl_timestamp payload) = '''' then Some ''timestamp must not be blank''
      else None)"

definition valid_payload :: "raw_telemetry_payload \<Rightarrow> bool" where
  "valid_payload p \<longleftrightarrow> trim_space (pl_droneID p) \<noteq> [] \<and> trim_space (pl_sector p) \<noteq> []
     \<and> trim_space (pl_timestamp p) \<noteq> [] \<and> 0 \<le> pl_containerCount p \<and> 0 < pl_capacity p
     \<and> pl_containerCount p \<le> pl_capacity p"

lemma validate_telemetry_None: "validate_telemetry p = None \<longleftrightarrow> valid_payload p"
  by (auto simp: validate_telemetry_def valid_payload_def)

section \<open>HTTP\<close>

text \<open>
  A request as the server hands it to a handler: header keys are canonical and a key may
  have several values. A response is the status, the header map and the encoded body.
\<close>

record request =
  req_method :: gostring
  req_path :: gostring
  req_header :: "(gostring \<times> gostring list) list"
  req_body :: "json option"

record response =
  resp_status :: nat
  resp_header :: "(gostring \<times> gostring) list"
  resp_body :: "json option"

definition correlationHeader :: gostring where
  "correlationHeader = ''X-Correlation-ID''"

definition header_get :: "(gostring \<times> gostring list) list \<Rightarrow> gostring \<Rightarrow> gostring" where
  "header_get h k = (case map_of h (canonical_key k) of Some (v # vs) \<Rightarrow> v | _ \<Rightarrow> '''')"

definition header_set :: "gostring \<Rightarrow> gostring \<Rightarrow> (gostring \<times> gostring) list \<Rightarrow> (gostring \<times> gostring) list" where
  "header_set k v h = (canonical_key k, v) # filter (\<lambda>x. fst x \<noteq> canonical_key k) h"

text \<open>
  Encoding a value fails (and an empty body is sent after the status) only for a float64
  that is no number JSON knows. A Go map is encoded with its keys sorted.
\<close>

definition map_json :: "(gostring \<times> gostring) list \<Rightarrow> json option" where
  "map_json m = Some (JObj (map (\<lambda>(k, v). (to_valid_utf8 k, json_str v)) (sort_key fst m)))"

fun opt_string_json :: "gostring option \<Rightarrow> json" where
  "opt_string_json None = JNull"
| "opt_string_json (Some s) = json_str s"

fun float_json :: "float64 \<Rightarrow> json option" where
  "float_json (Finite r) = Some (JFloat (Finite r))"
| "float_json _ = None"

definition payload_json :: "raw_telemetry_payload \<Rightarrow> json" where
  "payload_json p = JObj
     [(''droneId'', json_str (pl_droneID p)), (''sector'', json_str (pl_sector p)),
      (''containerCount'', JInt (pl_containerCount p)), (''capacity'', JInt (pl_capacity p)),
      (''blockageDetected'', JBool (pl_blockageDetected p)),
      (''timestamp'', json_str (pl_timestamp p)), (''vesselEta'', opt_string_json (pl_vesselETA p))]"

definition event_json :: "processed_telemetry_event \<Rightarrow> json option" where
  "event_json e =
     (case float_json (ev_fillRate e) of None \<Rightarrow> None | Some r \<Rightarrow> Some (JObj
     [(''correlationId'', json_str (ev_correlationID e)), (''sector'', json_str (ev_sector e)),
      (''fillRate'', r), (''blockageDetected'', JBool (ev_blockageDetected e)),
      (''droneId'', json_str (ev_droneID e)), (''vesselEta'', opt_string_json (ev_vesselETA e)),
      (''timestamp'', json_str (ev_timestamp e))]))"

definition write_json :: "(gostring \<times> gostring) list \<Rightarrow> nat \<Rightarrow> json option \<Rightarrow> response" where
  "write_json h status value =
     \<lparr>resp_status = status, resp_header = header_set ''Content-Type'' ''application/json'' h,
      resp_body = value\<rparr>"

definition write_error :: "(gostring \<times> gostring) list \<Rightarrow> nat \<Rightarrow> gostring \<Rightarrow> response" where
  "write_error h status message = write_json h status (map_json [(''error'', message)])"

definition new_correlation_id :: "int \<Rightarrow> gostring" where
  "new_correlation_id now = ''go-'' @ show_int now"

section \<open>The server\<close>

text \<open>
  The two interfaces of the \<open>Server\<close> struct, over a state \<open>'s\<close> of the outside world; an
  error is its message. \<open>now\<close> is what \<open>time.Now().UnixNano()\<close> returns in this request.
\<close>

type_synonym goerror = gostring

record 's server =
  sv_store :: "raw_telemetry_payload \<Rightarrow> 's \<Rightarrow> goerror option \<times> 's"
  sv_publish :: "processed_telemetry_event \<Rightarrow> 's \<Rightarrow> goerror option \<times> 's"

definition request_correlation_id :: "request \<Rightarrow> int \<Rightarrow> gostring" where
  "request_correlation_id r now =
     (let correlationID = trim_space (header_get (req_header r) correlationHeader)
      in if correlationID = '''' then new_correlation_id now else correlationID)"

definition processed_event :: "gostring \<Rightarrow> raw_telemetry_payload \<Rightarrow> processed_telemetry_event" where
  "processed_event correlationID payload =
     \<lparr>ev_correlationID = correlationID, ev_sector = pl_sector payload,
      ev_fillRate = f64_div (f64_of_int (pl_containerCount payload)) (f64_of_int (pl_capacity payload)),
      ev_blockageDetected = pl_blockageDetected payload, ev_droneID = pl_droneID payload,
      ev_vesselETA = pl_vesselETA payload, ev_timestamp = pl_timestamp payload\<rparr>"

definition handle_ingest :: "'s server \<Rightarrow> request \<Rightarrow> int \<Rightarrow> 's \<Rightarrow> response \<times> 's" where
  "handle_ingest s r now w =
     (case decode_payload (req_body r) of
        None \<Rightarrow> (write_error [] 400 ''invalid JSON payload'', w)
      | Some payload \<Rightarrow>
          (case validate_telemetry payload of
             Some err \<Rightarrow> (write_error [] 400 err, w)
           | None \<Rightarrow>
               (let correlationID = request_correlation_id r now;
                    event = processed_event correlationID payload;
                    (_, w1) = sv_store s payload w
                in case sv_publish s event w1 of
                     (Some _, w2) \<Rightarrow> (write_error [] 502 ''telemetry publish failed'', w2)
                   | (None, w2) \<Rightarrow>
                       (write_json (header_set correlationHeader correlationID []) 202 (event_json event), w2))))"

definition handle_health :: response where
  "handle_health = write_json [] 200
     (map_json [(''status'', ''UP''), (''service'', ''telemetry-service''), (''runtime'', ''go'')])"

text \<open>
  The two patterns of \<open>RegisterRoutes\<close> on Go 1.22's \<open>ServeMux\<close>, for a path in clean form:
  \<open>GET\<close> also serves \<open>HEAD\<close>; a known path with another method is 405.
\<close>

definition route :: "'s server \<Rightarrow> request \<Rightarrow> int \<Rightarrow> 's \<Rightarrow> response \<times> 's" where
  "route s r now w =
     (if req_path r = ''/health'' then
        (if req_method r \<in> {''GET'', ''HEAD''} then (handle_health, w)
         else (\<lparr>resp_status = 405, resp_header = [(''Allow'', ''GET, HEAD'')], resp_body = None\<rparr>, w))
      else if req_path r = ''/telemetry/ingest'' then
        (if req_method r = ''POST'' then handle_ingest s r now w
         else (\<lparr>resp_status = 405, resp_header = [(''Allow'', ''POST'')], resp_body = None\<rparr>, w))
      else (\<lparr>resp_status = 404, resp_header = [], resp_body = None\<rparr>, w))"


section \<open>Lemmas of the request path\<close>

lemma processed_event_fill:
  assumes "valid_payload p" "payload_int64 p"
  shows "ev_fillRate (processed_event cid p) = Finite (ratio (pl_containerCount p) (pl_capacity p))"
  using assms
  by (simp add: processed_event_def f64_div_ints valid_payload_def payload_int64_def int64_def)

lemma processed_event_sel [simp]:
  "ev_correlationID (processed_event cid p) = cid"
  "ev_sector (processed_event cid p) = pl_sector p"
  "ev_blockageDetected (processed_event cid p) = pl_blockageDetected p"
  "ev_droneID (processed_event cid p) = pl_droneID p"
  "ev_vesselETA (processed_event cid p) = pl_vesselETA p"
  "ev_timestamp (processed_event cid p) = pl_timestamp p"
  by (simp_all add: processed_event_def)

lemma event_json_valid:
  assumes "valid_payload p" "payload_int64 p"
  obtains j where "event_json (processed_event cid p) = Some j"
  using assms by (simp add: event_json_def processed_event_fill)

text \<open>A digit ends no white-space encoding, so a generated identifier needs no trimming.\<close>

lemma space_encodings_no_digit: "e \<in> set (map rev space_encodings) \<Longrightarrow> e = x # xs \<Longrightarrow> \<not> is_digit x"
  by (auto simp: space_encodings_def is_digit_def)

lemma starting_rev_digit: "is_digit c \<Longrightarrow> starting (map rev space_encodings) (c # t) = None"
proof (rule ccontr)
  assume c: "is_digit c" and "starting (map rev space_encodings) (c # t) \<noteq> None"
  then obtain e where e: "starting (map rev space_encodings) (c # t) = Some e"
    by blast
  note e' = starting_SomeD [OF e]
  obtain x xs where "e = x # xs"
    using e'(2) by (meson neq_Nil_conv)
  with e' have "x = c"
    by (metis append_Cons list.inject)
  with c e' \<open>e = x # xs\<close> show False
    using space_encodings_no_digit by blast
qed

lemma show_int_snoc: "\<exists>t d. show_int i = t @ [d] \<and> is_digit d"
proof -
  have "\<exists>t d. show_nat n = t @ [d] \<and> is_digit d" for n
    by (metis append_butlast_last_id last_in_set show_nat_digits show_nat_nonempty)
  then show ?thesis
    by (metis show_int_def append_Cons)
qed

lemma trimmed_new_correlation_id: "trimmed (new_correlation_id now)"
proof -
  obtain t d where t: "show_int now = t @ [d]" "is_digit d"
    using show_int_snoc by blast
  have "starting space_encodings (''go-'' @ show_int now) = None"
    by (simp add: starting_def space_encodings_def)
  moreover have "starting (map rev space_encodings) (rev (''go-'' @ show_int now)) = None"
    by (simp add: t starting_rev_digit)
  ultimately show ?thesis
    by (simp add: trimmed_def new_correlation_id_def)
qed

lemma request_correlation_id_trimmed: "trimmed (request_correlation_id r now)"
  by (simp add: request_correlation_id_def Let_def trimmed_trim_space trimmed_new_correlation_id)

lemma request_correlation_id_nonempty: "request_correlation_id r now \<noteq> []"
  by (simp add: request_correlation_id_def Let_def new_correlation_id_def)

text \<open>The three ways the ingest handler ends.\<close>

lemma handle_ingest_undecodable:
  "decode_payload (req_body r) = None \<Longrightarrow>
   handle_ingest s r now w = (write_error [] 400 ''invalid JSON payload'', w)"
  by (simp add: handle_ingest_def)

lemma handle_ingest_invalid:
  "decode_payload (req_body r) = Some p \<Longrightarrow> validate_telemetry p = Some err \<Longrightarrow>
   handle_ingest s r now w = (write_error [] 400 err, w)"
  by (simp add: handle_ingest_def)

lemma handle_ingest_valid:
  "decode_payload (req_body r) = Some p \<Longrightarrow> valid_payload p \<Longrightarrow>
   handle_ingest s r now w =
     (let e = processed_event (request_correlation_id r now) p
      in case sv_publish s e (snd (sv_store s p w)) of
           (Some _, w2) \<Rightarrow> (write_error [] 502 ''telemetry publish failed'', w2)
         | (None, w2) \<Rightarrow> (write_json (header_set correlationHeader (ev_correlationID e) []) 202
                           (event_json e), w2))"
  by (simp add: handle_ingest_def validate_telemetry_None [THEN iffD2] Let_def split_beta
           split: option.split prod.split)

lemma write_sel [simp]:
  "resp_status (write_json h st v) = st" "resp_body (write_json h st v) = v"
  "resp_status (write_error h st m) = st"
  by (simp_all add: write_json_def write_error_def)

lemmas handle_ingest_cases = handle_ingest_undecodable handle_ingest_invalid handle_ingest_valid

lemma ingest_cases:
  obtains (undecodable) "decode_payload (req_body r) = None"
  | (invalid) p err where "decode_payload (req_body r) = Some p" "validate_telemetry p = Some err"
      "\<not> valid_payload p"
  | (valid) p where "decode_payload (req_body r) = Some p" "valid_payload p" "payload_int64 p"
  by (metis decode_payload_int64 not_Some_eq validate_telemetry_None)

lemma accepted_cases:
  assumes "resp_status (fst (handle_ingest s r now w)) = 202"
  obtains p w2 where "decode_payload (req_body r) = Some p" "valid_payload p" "payload_int64 p"
    "sv_publish s (processed_event (request_correlation_id r now) p) (snd (sv_store s p w)) = (None, w2)"
    "handle_ingest s r now w =
       (write_json (header_set correlationHeader (request_correlation_id r now) []) 202
          (event_json (processed_event (request_correlation_id r now) p)), w2)"
  using ingest_cases [of r]
proof cases
  case (valid p)
  then show ?thesis
    using assms that [of p]
    by (auto simp: handle_ingest_valid Let_def split: prod.splits option.splits)
qed (use assms in \<open>simp_all add: handle_ingest_cases\<close>)


section \<open>Properties of the request path\<close>

text \<open>
  The servers the witnesses run: one that logs what it stores and publishes and succeeds,
  one whose store fails, one whose broker fails.
\<close>

type_synonym log_world = "raw_telemetry_payload list \<times> processed_telemetry_event list"

definition log_server :: "log_world server" where
  "log_server = \<lparr>sv_store = (\<lambda>p (a, b). (None, (a @ [p], b))),
                 sv_publish = (\<lambda>e (a, b). (None, (a, b @ [e])))\<rparr>"

definition no_store_server :: "log_world server" where
  "no_store_server = log_server\<lparr>sv_store := (\<lambda>p (a, b). (Some ''redis unavailable'', (a @ [p], b)))\<rparr>"

definition sample_payload :: raw_telemetry_payload where
  "sample_payload = \<lparr>pl_droneID = ''HD-07'', pl_sector = ''B-12'', pl_containerCount = 94,
     pl_capacity = 100, pl_blockageDetected = True, pl_timestamp = ''2025-01-15T14:28:00Z'',
     pl_vesselETA = Some ''14:30''\<rparr>"

definition sample_request :: request where
  "sample_request = \<lparr>req_method = ''POST'', req_path = ''/telemetry/ingest'',
     req_header = [(''X-Correlation-Id'', [''CID-1''])], req_body = Some (payload_json sample_payload)\<rparr>"

lemma field_for_tag [simp]: "field_for (field_tag f) = Some f"
  by (cases f) (simp_all add: field_for_def payload_fields_def)

lemma trim_space_nonblank: "starting space_encodings s = None \<Longrightarrow> s \<noteq> [] \<Longrightarrow> trim_space s \<noteq> []"
  by (simp add: trim_space_Nil_trim_left trim_left_def trim_start_id)

lemma sample_valid: "valid_payload sample_payload" "payload_int64 sample_payload"
  by (simp_all add: payload_int64_def int64_def sample_payload_def valid_payload_def
      trim_space_nonblank starting_def space_encodings_def)

lemma sample_ascii:
  "to_valid_utf8 ''HD-07'' = ''HD-07''" "to_valid_utf8 ''B-12'' = ''B-12''" "to_valid_utf8 ''14:30'' = ''14:30''"
  "to_valid_utf8 ''2025-01-15T14:28:00Z'' = ''2025-01-15T14:28:00Z''"
  by (rule to_valid_utf8_ascii, simp add: ascii_def byte_in_def)+

lemma sample_decodes: "decode_payload (req_body sample_request) = Some sample_payload"
  using sample_valid(2) field_for_tag [of F_droneId] field_for_tag [of F_sector]
    field_for_tag [of F_containerCount] field_for_tag [of F_capacity]
    field_for_tag [of F_blockageDetected] field_for_tag [of F_timestamp] field_for_tag [of F_vesselEta]
  by (simp add: sample_request_def decode_payload_def payload_json_def payload_int64_def int64_def
      zero_payload_def Let_def sample_payload_def json_str_def sample_ascii del: to_valid_utf8.simps)

lemma sample_accepted: "resp_status (fst (handle_ingest log_server sample_request now w)) = 202"
  by (cases w) (simp add: handle_ingest_valid [OF sample_decodes sample_valid(1)] log_server_def Let_def)

text \<open>C2. The ingest handler answers 202 exactly when the body decodes, the payload passes
  every check and the broker took the event; in every other case it answers 400 or 502,
  and 502 exactly when only the broker failed.\<close>
theorem ingest_status:
  "resp_status (fst (handle_ingest s r now w)) =
     (case decode_payload (req_body r) of
        None \<Rightarrow> 400
      | Some p \<Rightarrow> if valid_payload p
          then (if fst (sv_publish s (processed_event (request_correlation_id r now) p)
                          (snd (sv_store s p w))) = None then 202 else 502)
          else 400)"
  using ingest_cases [of r]
  by cases (auto simp: handle_ingest_cases Let_def split: prod.splits option.splits)

text \<open>C5. A request that is refused with 400 reaches neither Redis nor the broker: the
  world is left as it was, whatever the two interfaces would do.\<close>
theorem ingest_rejected_untouched:
  "resp_status (fst (handle_ingest s r now w)) = 400 \<Longrightarrow> snd (handle_ingest s r now w) = w"
  using ingest_cases [of r]
  by cases (auto simp: handle_ingest_cases Let_def split: prod.splits option.splits)

theorem ingest_rejected_untouched_witness:
  "snd (handle_ingest log_server (sample_request\<lparr>req_body := Some (JStr ''x'')\<rparr>) 7 ([], [])) = ([], [])"
  by (rule ingest_rejected_untouched) (simp add: handle_ingest_undecodable decode_payload_def)

text \<open>C7. The outcome does not depend on what the state store returns: a server whose store
  has the same effect but reports other errors gives the same response and the same world.\<close>
theorem ingest_ignores_store_error:
  assumes "\<And>p w. snd (sv_store s p w) = snd (sv_store s' p w)" "sv_publish s = sv_publish s'"
  shows "handle_ingest s r now w = handle_ingest s' r now w"
  using ingest_cases [of r] by cases (simp_all add: handle_ingest_cases assms)

theorem ingest_ignores_store_error_witness:
  "handle_ingest no_store_server sample_request 7 ([], []) = handle_ingest log_server sample_request 7 ([], [])"
  by (rule ingest_ignores_store_error) (auto simp: no_store_server_def log_server_def)

text \<open>C6. An accepted request carries one correlation identifier: the response header and the
  published event have the same non-empty string without white space at either end, and
  the response body is the JSON of that event, which begins with the identifier as
  \<open>encoding/json\<close> writes it, bytes that are not UTF-8 replaced.\<close>
theorem accepted_correlation_id:
  assumes "resp_status (fst (handle_ingest s r now w)) = 202"
  shows "\<exists>p e j. decode_payload (req_body r) = Some p
     \<and> sv_publish s e (snd (sv_store s p w)) = (None, snd (handle_ingest s r now w))
     \<and> map_of (resp_header (fst (handle_ingest s r now w))) (canonical_key correlationHeader)
         = Some (ev_correlationID e)
     \<and> resp_body (fst (handle_ingest s r now w)) = Some j \<and> event_json e = Some j
     \<and> (\<exists>ms. j = JObj ((''correlationId'', json_str (ev_correlationID e)) # ms))
     \<and> ev_correlationID e \<noteq> [] \<and> trimmed (ev_correlationID e)"
  using assms
proof (rule accepted_cases)
  fix p w2
  assume p: "decode_payload (req_body r) = Some p" "valid_payload p" "payload_int64 p"
  let ?e = "processed_event (request_correlation_id r now) p"
  assume "sv_publish s ?e (snd (sv_store s p w)) = (None, w2)"
    and h: "handle_ingest s r now w =
       (write_json (header_set correlationHeader (request_correlation_id r now) []) 202 (event_json ?e), w2)"
  moreover obtain j where j: "event_json ?e = Some j"
    using event_json_valid p(2,3) .
  moreover have "\<exists>ms. j = JObj ((''correlationId'', json_str (ev_correlationID ?e)) # ms)"
    using j by (auto simp: event_json_def split: option.splits)
  moreover have "canonical_key ''Content-Type'' \<noteq> canonical_key correlationHeader"
    by (simp add: canonical_key_def to_upper_def correlationHeader_def)
  ultimately show ?thesis
    using p
    by (intro exI [of _ p] exI [of _ ?e] exI [of _ j])
       (auto simp: request_correlation_id_nonempty request_correlation_id_trimmed write_json_def
          header_set_def)
qed

theorem accepted_correlation_id_witness:
  "\<exists>p e j. decode_payload (req_body sample_request) = Some p
     \<and> sv_publish log_server e (snd (sv_store log_server p ([], [])))
         = (None, snd (handle_ingest log_server sample_request 7 ([], [])))
     \<and> map_of (resp_header (fst (handle_ingest log_server sample_request 7 ([], []))))
         (canonical_key correlationHeader) = Some (ev_correlationID e)
     \<and> resp_body (fst (handle_ingest log_server sample_request 7 ([], []))) = Some j
     \<and> event_json e = Some j
     \<and> (\<exists>ms. j = JObj ((''correlationId'', json_str (ev_correlationID e)) # ms))
     \<and> ev_correlationID e \<noteq> [] \<and> trimmed (ev_correlationID e)"
  by (rule accepted_correlation_id [OF sample_accepted])

text \<open>C8. Every published event has a fill rate that is a number between 0 and 1, and it is
  0 exactly for an empty sector.\<close>
theorem accepted_fill_rate:
  assumes "decode_payload body = Some p" "validate_telemetry p = None"
  shows "\<exists>q. ev_fillRate (processed_event cid p) = Finite q \<and> 0 \<le> q \<and> q \<le> 1
           \<and> (q = 0 \<longleftrightarrow> pl_containerCount p = 0)"
proof -
  have v: "valid_payload p" "payload_int64 p"
    using assms by (simp_all add: validate_telemetry_None decode_payload_int64)
  then have c: "0 \<le> pl_containerCount p" "pl_containerCount p \<le> pl_capacity p" "0 < pl_capacity p"
    "pl_capacity p < 2 ^ 63"
    by (simp_all add: valid_payload_def payload_int64_def int64_def)
  have "ratio (pl_containerCount p) (pl_capacity p) = 0 \<longleftrightarrow> pl_containerCount p = 0"
    using ratio_pos [of "pl_containerCount p" "pl_capacity p"] c by (cases "pl_containerCount p = 0") simp_all
  then show ?thesis
    using ratio_bounds [OF c(1,2,3)] by (simp add: processed_event_fill v)
qed

theorem accepted_fill_rate_witness:
  "\<exists>q. ev_fillRate (processed_event ''CID-1'' sample_payload) = Finite q \<and> 0 \<le> q \<and> q \<le> 1
     \<and> (q = 0 \<longleftrightarrow> pl_containerCount sample_payload = 0)"
  by (rule accepted_fill_rate [OF sample_decodes])
     (simp add: validate_telemetry_None sample_valid)

text \<open>C9. For capacities up to 2 to the 53 the fill rate is 1 exactly when the sector is
  full, and a fuller sector of the same capacity never reports a smaller rate.\<close>
theorem fill_rate_full_and_monotone:
  assumes "valid_payload p" "payload_int64 p" "pl_capacity p \<le> 2 ^ 53"
    and "0 \<le> n" "n \<le> pl_containerCount p"
  shows "(ev_fillRate (processed_event cid p) = Finite 1) = (pl_containerCount p = pl_capacity p)
     \<and> (\<exists>q q'. ev_fillRate (processed_event cid (p\<lparr>pl_containerCount := n\<rparr>)) = Finite q
              \<and> ev_fillRate (processed_event cid p) = Finite q' \<and> q \<le> q')"
proof
  have c: "0 \<le> pl_containerCount p" "pl_containerCount p \<le> pl_capacity p" "0 < pl_capacity p"
    using assms(1) by (simp_all add: valid_payload_def)
  show "(ev_fillRate (processed_event cid p) = Finite 1) = (pl_containerCount p = pl_capacity p)"
    using ratio_less_1 [OF c(1) _ assms(3)] c ratio_self [OF c(3)]
    by (auto simp: processed_event_fill assms(1,2)) (metis less_le order_less_irrefl)
  have "valid_payload (p\<lparr>pl_containerCount := n\<rparr>)" "payload_int64 (p\<lparr>pl_containerCount := n\<rparr>)"
    using assms by (auto simp: valid_payload_def payload_int64_def int64_def)
  then show "\<exists>q q'. ev_fillRate (processed_event cid (p\<lparr>pl_containerCount := n\<rparr>)) = Finite q
              \<and> ev_fillRate (processed_event cid p) = Finite q' \<and> q \<le> q'"
    using ratio_mono [OF assms(4,5) c(3)] by (simp add: processed_event_fill assms(1,2))
qed

theorem fill_rate_full_and_monotone_witness:
  "(ev_fillRate (processed_event ''CID-1'' sample_payload) = Finite 1)
     = (pl_containerCount sample_payload = pl_capacity sample_payload)
   \<and> (\<exists>q q'. ev_fillRate (processed_event ''CID-1'' (sample_payload\<lparr>pl_containerCount := 7\<rparr>)) = Finite q
            \<and> ev_fillRate (processed_event ''CID-1'' sample_payload) = Finite q' \<and> q \<le> q')"
  by (rule fill_rate_full_and_monotone [OF sample_valid]) (simp_all add: sample_payload_def)

text \<open>Beyond 53 bits the float64 division loses the distinction: a sector of capacity
  2 to the 53 plus 1 with one free place passes validation and reports the rate 1.\<close>
lemma fill_rate_rounds_to_full:
  "\<exists>p. valid_payload p \<and> payload_int64 p \<and> pl_containerCount p < pl_capacity p
     \<and> ev_fillRate (processed_event cid p) = Finite 1"
proof -
  let ?p = "sample_payload\<lparr>pl_containerCount := 2 ^ 53, pl_capacity := 2 ^ 53 + 1\<rparr>"
  have v: "valid_payload ?p" "payload_int64 ?p"
    using sample_valid by (simp_all add: valid_payload_def payload_int64_def int64_def)
  have "ratio (2 ^ 53) (2 ^ 53 + 1) = 1"
    by (rule ratio_rounds_to_1)
  with v show ?thesis
    by (intro exI [of _ ?p]) (simp add: processed_event_fill)
qed

end
