(* ===== verification/Messaging.thy ===== *)
theory Messaging
  imports Telemetry "HOL-Library.Sublist"
begin

text \<open>
  What the request path needs of its two interfaces, \<open>StateStore\<close> and \<open>EventPublisher\<close>, as a
  locale, and what a server over them guarantees for any sequence of requests.
\<close>

section \<open>Serving requests\<close>

text \<open>Requests with the clock of each, one after the other.\<close>

fun serve :: "'s server \<Rightarrow> (request \<times> int) list \<Rightarrow> 's \<Rightarrow> response list \<times> 's" where
  "serve s [] w = ([], w)"
| "serve s ((r, now) # rs) w =
     (let (resp, w1) = route s r now w; (resps, w2) = serve s rs w1 in (resp # resps, w2))"

text \<open>The event a request asks to publish: there is one for a valid payload posted to the ingest route.\<close>

definition request_event :: "request \<times> int \<Rightarrow> processed_telemetry_event option" where
  "request_event x = (case x of (r, now) \<Rightarrow>
     if req_path r = ''/telemetry/ingest'' \<and> req_method r = ''POST'' then
       (case decode_payload (req_body r) of
          None \<Rightarrow> None
        | Some p \<Rightarrow> if valid_payload p then Some (processed_event (request_correlation_id r now) p) else None)
     else None)"

definition asked :: "(request \<times> int) list \<Rightarrow> processed_telemetry_event list" where
  "asked rs = List.map_filter request_event rs"

definition accepted :: "(request \<times> int) list \<Rightarrow> response list \<Rightarrow> processed_telemetry_event list" where
  "accepted rs resps = List.map_filter (\<lambda>(x, resp). if resp_status resp = 202 then request_event x else None) (zip rs resps)"

lemma asked_simps [simp]:
  "asked [] = []" "asked (x # rs) = (case request_event x of None \<Rightarrow> asked rs | Some e \<Rightarrow> e # asked rs)"
  by (simp_all add: asked_def List.map_filter_def split: option.split)

lemma accepted_simps [simp]:
  "accepted rs [] = []"
  "accepted (x # rs) (resp # resps) =
     (if resp_status resp = 202 then (case request_event x of None \<Rightarrow> [] | Some e \<Rightarrow> [e]) else []) @ accepted rs resps"
  by (simp_all add: accepted_def List.map_filter_def split: option.split)

text \<open>The three outcomes of a request.\<close>

lemma route_no_event: "request_event (r, now) = None \<Longrightarrow> snd (route s r now w) = w"
proof -
  assume none: "request_event (r, now) = None"
  show ?thesis
  proof (cases "req_path r = ''/telemetry/ingest'' \<and> req_method r = ''POST''")
    case True
    with none have "snd (handle_ingest s r now w) = w"
      by (cases rule: ingest_cases [of r])
        (auto simp: handle_ingest_cases request_event_def split: option.splits if_splits)
    with True show ?thesis
      by (simp add: route_def)
  qed (auto simp: route_def)
qed

lemma route_event:
  assumes "request_event (r, now) = Some e"
  obtains p where "decode_payload (req_body r) = Some p" "valid_payload p"
    "snd (route s r now w) = snd (sv_publish s e (snd (sv_store s p w)))"
    "resp_status (fst (route s r now w)) =
       (if fst (sv_publish s e (snd (sv_store s p w))) = None then 202 else 502)"
proof -
  obtain p where p: "decode_payload (req_body r) = Some p" "valid_payload p"
    "e = processed_event (request_correlation_id r now) p" "req_path r = ''/telemetry/ingest''" "req_method r = ''POST''"
    using assms by (auto simp: request_event_def split: option.splits if_splits)
  obtain q w2 where q: "sv_publish s e (snd (sv_store s p w)) = (q, w2)"
    by fastforce
  show ?thesis
    by (rule that [OF p(1,2)])
      (use q p in \<open>simp_all add: route_def handle_ingest_valid Let_def split: option.split\<close>)
qed

section \<open>The interface\<close>

text \<open>
  \<open>inv\<close> is an invariant of the outside world, \<open>sent w\<close> the messages that went out,
  \<open>enc\<close> the message of an event and \<open>fits\<close> the events the publisher can carry. Storing a
  payload sends nothing; publishing sends the message if it returns no error, and at most
  the message if it returns one.
\<close>

locale messaging =
  fixes srv :: "'s server"
    and inv :: "'s \<Rightarrow> bool"
    and sent :: "'s \<Rightarrow> 'm list"
    and enc :: "processed_telemetry_event \<Rightarrow> 'm"
    and fits :: "processed_telemetry_event \<Rightarrow> bool"
  assumes store_keeps: "inv w \<Longrightarrow> inv (snd (sv_store srv p w)) \<and> sent (snd (sv_store srv p w)) = sent w"
    and publish_inv: "inv w \<Longrightarrow> fits e \<Longrightarrow> inv (snd (sv_publish srv e w))"
    and publish_ok: "inv w \<Longrightarrow> fits e \<Longrightarrow> fst (sv_publish srv e w) = None \<Longrightarrow>
          sent (snd (sv_publish srv e w)) = sent w @ [enc e]"
    and publish_error: "inv w \<Longrightarrow> fits e \<Longrightarrow> fst (sv_publish srv e w) \<noteq> None \<Longrightarrow>
          sent (snd (sv_publish srv e w)) = sent w \<or> sent (snd (sv_publish srv e w)) = sent w @ [enc e]"
begin

text \<open>One request.\<close>

lemma route_sends:
  assumes "inv w" "\<And>e. request_event (r, now) = Some e \<Longrightarrow> fits e"
  shows "inv (snd (route srv r now w))
    \<and> (\<exists>new. sent (snd (route srv r now w)) = sent w @ new
        \<and> subseq (map enc (accepted [(r, now)] [fst (route srv r now w)])) new
        \<and> subseq new (map enc (asked [(r, now)])))"
proof (cases "request_event (r, now)")
  case None
  with assms(1) show ?thesis
    by (simp add: route_no_event)
next
  case (Some e)
  obtain p where p: "snd (route srv r now w) = snd (sv_publish srv e (snd (sv_store srv p w)))"
    "resp_status (fst (route srv r now w)) =
       (if fst (sv_publish srv e (snd (sv_store srv p w))) = None then 202 else 502)"
    using route_event [OF Some] by metis
  let ?w = "snd (sv_store srv p w)"
  have w: "inv ?w" "sent ?w = sent w"
    using store_keeps [OF assms(1)] by auto
  have e: "fits e"
    using assms(2) Some .
  show ?thesis
  proof (cases "fst (sv_publish srv e ?w) = None")
    case True
    then show ?thesis
      using publish_inv [OF w(1) e] publish_ok [OF w(1) e True] w(2) p Some by simp
  next
    case False
    then show ?thesis
      using publish_inv [OF w(1) e] publish_error [OF w(1) e False] w(2) p Some by auto
  qed
qed

text \<open>
  Any requests: every event answered with 202 has been sent, in order; what was sent was
  asked for by a valid request, in order and at most once.
\<close>

lemma serve_sends:
  assumes "inv w" "list_all fits (asked rs)" "serve srv rs w = (resps, w')"
  shows "inv w' \<and> (\<exists>new. sent w' = sent w @ new \<and> subseq (map enc (accepted rs resps)) new
    \<and> subseq new (map enc (asked rs)))"
  using assms
proof (induction rs arbitrary: w resps)
  case Nil
  then show ?case
    by auto
next
  case (Cons x rs)
  obtain r now where x: "x = (r, now)"
    by fastforce
  obtain resp w1 where 1: "route srv r now w = (resp, w1)"
    by fastforce
  obtain resps' w2 where 2: "serve srv rs w1 = (resps', w2)"
    by fastforce
  have eqs: "resps = resp # resps'" "w' = w2"
    using Cons.prems(3) x 1 2 by auto
  have fit: "\<And>e. request_event (r, now) = Some e \<Longrightarrow> fits e" and fits: "list_all fits (asked rs)"
    using Cons.prems(2) x by (auto split: option.splits)
  have "inv w1 \<and> (\<exists>new. sent w1 = sent w @ new
      \<and> subseq (map enc (accepted [(r, now)] [resp])) new \<and> subseq new (map enc (asked [(r, now)])))"
    using route_sends [where r = r and now = now, OF Cons.prems(1)] fit unfolding 1 fst_conv snd_conv .
  then obtain n1 where n1: "inv w1" "sent w1 = sent w @ n1"
    "subseq (map enc (accepted [(r, now)] [resp])) n1" "subseq n1 (map enc (asked [(r, now)]))"
    by blast
  have "serve srv rs w1 = (resps', w')"
    using 2 eqs(2) by simp
  from Cons.IH [OF n1(1) fits this] eqs(2) obtain n2 where n2: "inv w2" "sent w2 = sent w1 @ n2"
    "subseq (map enc (accepted rs resps')) n2" "subseq n2 (map enc (asked rs))"
    by blast
  have "map enc (accepted (x # rs) (resp # resps')) = map enc (accepted [(r, now)] [resp]) @ map enc (accepted rs resps')"
    "map enc (asked (x # rs)) = map enc (asked [(r, now)]) @ map enc (asked rs)"
    by (simp_all add: x split: option.split)
  then show ?case
    using n1 n2 eqs by (auto intro!: list_emb_append_mono)
qed

end

end
