(* ===== verification/WireFields.thy ===== *)
theory WireFields
  imports GoPrelude
begin

text \<open>
  The AMQP data types on the wire: strings, decimals, timestamps, field tables and field
  arrays of \<open>read.go\<close>, \<open>write.go\<close> and \<open>types.go\<close> of the RabbitMQ client.
\<close>

section \<open>Field values\<close>

text \<open>
  A table value is a Go interface; the constructors are the dynamic types the encoder
  switches on, \<open>FOther\<close> any other type. Floats are their bit patterns. A time is its Unix
  second (a 64-bit number) and its nanosecond. A Go map iterates in an order of its own:
  a table is the list of its entries in that order (\<open>nil\<close> is the empty list).
\<close>

datatype field =
    FNil
  | FBool bool
  | FByte "8 word"
  | FInt8 "8 word"
  | FInt16 "16 word"
  | FInt "64 word"
  | FInt32 "32 word"
  | FInt64 "64 word"
  | FFloat32 "32 word"
  | FFloat64 "64 word"
  | FDecimal "8 word" "32 word"
  | FString gostring
  | FBytes "byte list"
  | FArray "field list"
  | FTime "64 word" nat
  | FTable "(gostring \<times> field) list"
  | FOther gostring

type_synonym table = "(gostring \<times> field) list"

text \<open>\<open>validateField\<close>: \<open>True\<close> for \<open>nil\<close>.\<close>

fun validate_field :: "field \<Rightarrow> bool"
and validate_fields :: "field list \<Rightarrow> bool"
and validate_entries :: "table \<Rightarrow> bool" where
  "validate_field (FArray vs) = validate_fields vs"
| "validate_field (FTable t) = validate_entries t"
| "validate_field (FOther ty) = False"
| "validate_field v = True"
| "validate_fields [] = True"
| "validate_fields (v # vs) = (validate_field v \<and> validate_fields vs)"
| "validate_entries [] = True"
| "validate_entries ((k, v) # t) = (validate_field v \<and> validate_entries t)"

section \<open>Writing\<close>

text \<open>
  The length octet of a short string is the length modulo 256 and only that many bytes
  follow; the length of a long string is taken modulo 2 to the 32.
\<close>

definition write_shortstr :: "gostring \<Rightarrow> byte list" where
  "write_shortstr s =
     (let b = bytes_of s; len = word_of_nat (length b) :: 8 word in put_u8 len @ take (unat len) b)"

definition write_longstr_bytes :: "byte list \<Rightarrow> byte list" where
  "write_longstr_bytes b =
     (let len = word_of_nat (length b) :: 32 word in put_u32 len @ take (unat len) b)"

definition write_longstr :: "gostring \<Rightarrow> byte list" where
  "write_longstr s = write_longstr_bytes (bytes_of s)"

fun write_field :: "field \<Rightarrow> wr"
and write_fields :: "field list \<Rightarrow> wr"
and write_entries :: "table \<Rightarrow> wr" where
  "write_field (FBool v) = Inr [byte_of CHR ''t'', if v then 1 else 0]"
| "write_field (FByte v) = Inr [byte_of CHR ''B'', v]"
| "write_field (FInt8 v) = Inr [byte_of CHR ''b'', v]"
| "write_field (FInt16 v) = Inr (byte_of CHR ''s'' # put_u16 v)"
| "write_field (FInt v) = Inr (byte_of CHR ''I'' # put_u32 (ucast v))"
| "write_field (FInt32 v) = Inr (byte_of CHR ''I'' # put_u32 v)"
| "write_field (FInt64 v) = Inr (byte_of CHR ''l'' # put_u64 v)"
| "write_field (FFloat32 v) = Inr (byte_of CHR ''f'' # put_u32 v)"
| "write_field (FFloat64 v) = Inr (byte_of CHR ''d'' # put_u64 v)"
| "write_field (FDecimal scale v) = Inr (byte_of CHR ''D'' # scale # put_u32 v)"
| "write_field (FString s) =
     Inr (byte_of CHR ''S'' # put_u32 (word_of_nat (length s)) @ bytes_of s)"
| "write_field (FArray vs) =
     (case write_fields vs of
        Inl e \<Rightarrow> Inl e
      | Inr sec \<Rightarrow> Inr (byte_of CHR ''A'' # put_u32 (word_of_nat (length sec)) @ sec))"
| "write_field (FTime sec nsec) = Inr (byte_of CHR ''T'' # put_u64 sec)"
| "write_field (FTable t) =
     (case write_entries t of
        Inl e \<Rightarrow> Inl e
      | Inr b \<Rightarrow> Inr (byte_of CHR ''F'' # write_longstr_bytes b))"
| "write_field (FBytes b) = Inr (byte_of CHR ''x'' # put_u32 (word_of_nat (length b)) @ b)"
| "write_field FNil = Inr [byte_of CHR ''V'']"
| "write_field (FOther ty) = Inl ErrFieldType"
| "write_fields [] = Inr []"
| "write_fields (v # vs) = wr_seq (write_field v) (write_fields vs)"
| "write_entries [] = Inr []"
| "write_entries ((k, v) # t) = wr_seq (Inr (write_shortstr k)) (wr_seq (write_field v) (write_entries t))"

definition write_table :: "table \<Rightarrow> wr" where
  "write_table t =
     (case write_entries t of Inl e \<Rightarrow> Inl e | Inr b \<Rightarrow> Inr (write_longstr_bytes b))"

section \<open>Reading\<close>

definition read_shortstr :: "gostring rd" where
  "read_shortstr =
     rd_bind read_u8 (\<lambda>len. rd_bind (read_full (unat len)) (\<lambda>b. rd_return (string_of b)))"

text \<open>A length above 2 to the 31 minus 1 yields the empty string, and no error.\<close>

definition read_longstr :: "gostring rd" where
  "read_longstr =
     rd_bind read_u32 (\<lambda>len.
       if len > drop_bit 1 (NOT 0) then rd_return ''''
       else rd_bind (read_full (unat len)) (\<lambda>b. rd_return (string_of b)))"

definition read_timestamp :: "(64 word \<times> nat) rd" where
  "read_timestamp = rd_bind read_u64 (\<lambda>sec. rd_return (sec, 0))"

text \<open>\<open>io.LimitedReader\<close>: at most \<open>n\<close> bytes of the input are visible.\<close>

definition rd_limited :: "nat \<Rightarrow> 'a rd \<Rightarrow> 'a rd" where
  "rd_limited n m bs = (case m (take n bs) of (v, r) \<Rightarrow> (v, r @ drop n bs))"

text \<open>Reading the whole of a nested buffer; the outer input does not move.\<close>

definition rd_nested :: "byte list \<Rightarrow> 'a rd \<Rightarrow> 'a rd" where
  "rd_nested buf m bs = (fst (m buf), bs)"

definition rd_neg_len :: "32 word \<Rightarrow> bool" where
  "rd_neg_len len \<longleftrightarrow> sint len < 0"

text \<open>
  The three readers call each other; each call takes one unit of fuel, and every call
  consumes a byte before the next one, so one more than the length of the input is
  always enough (proved below). An element that meets the end of the input exactly ends
  an array (\<open>err == io.EOF\<close>).
\<close>

fun read_field :: "nat \<Rightarrow> field rd"
and read_elems :: "nat \<Rightarrow> field list rd"
and read_entries :: "nat \<Rightarrow> table \<Rightarrow> table rd" where
  "read_field 0 = rd_fail ROutOfFuel"
| "read_field (Suc n) =
     rd_bind read_u8 (\<lambda>typ.
       let c = char_of_byte typ in
       if c = CHR ''t'' then rd_bind read_u8 (\<lambda>v. rd_return (FBool (v \<noteq> 0)))
       else if c = CHR ''B'' then rd_bind read_u8 (\<lambda>v. rd_return (FByte v))
       else if c = CHR ''b'' then rd_bind read_u8 (\<lambda>v. rd_return (FInt8 v))
       else if c = CHR ''s'' then rd_bind read_u16 (\<lambda>v. rd_return (FInt16 v))
       else if c = CHR ''I'' then rd_bind read_u32 (\<lambda>v. rd_return (FInt32 v))
       else if c = CHR ''l'' then rd_bind read_u64 (\<lambda>v. rd_return (FInt64 v))
       else if c = CHR ''f'' then rd_bind read_u32 (\<lambda>v. rd_return (FFloat32 v))
       else if c = CHR ''d'' then rd_bind read_u64 (\<lambda>v. rd_return (FFloat64 v))
       else if c = CHR ''D'' then
         rd_bind read_u8 (\<lambda>s. rd_bind read_u32 (\<lambda>v. rd_return (FDecimal s v)))
       else if c = CHR ''S'' then rd_bind read_longstr (\<lambda>s. rd_return (FString s))
       else if c = CHR ''A'' then
         rd_bind read_u32 (\<lambda>size. rd_bind (rd_limited (unat size) (read_elems n)) (\<lambda>vs. rd_return (FArray vs)))
       else if c = CHR ''T'' then rd_bind read_timestamp (\<lambda>(s, ns). rd_return (FTime s ns))
       else if c = CHR ''F'' then
         rd_bind read_longstr (\<lambda>str.
           rd_bind (rd_nested (bytes_of str) (read_entries n [])) (\<lambda>t. rd_return (FTable t)))
       else if c = CHR ''x'' then
         rd_bind read_u32 (\<lambda>len.
           if rd_neg_len len then rd_fail RPanic
           else rd_bind (read_full (unat len)) (\<lambda>b. rd_return (FBytes b)))
       else if c = CHR ''V'' then rd_return FNil
       else rd_fail ErrSyntax)"
| "read_elems 0 = rd_fail ROutOfFuel"
| "read_elems (Suc n) = (\<lambda>bs.
     case read_field n bs of
       (Inl e, r) \<Rightarrow> if e = EOF then (Inr [], r) else (Inl e, r)
     | (Inr v, r) \<Rightarrow> rd_bind (read_elems n) (\<lambda>vs. rd_return (v # vs)) r)"
| "read_entries 0 acc = rd_fail ROutOfFuel"
| "read_entries (Suc n) acc = (\<lambda>bs.
     if bs = [] then (Inr acc, [])
     else rd_bind read_shortstr (\<lambda>key.
            rd_bind (read_field n) (\<lambda>v. read_entries n (AList.update key v acc))) bs)"

definition read_table :: "table rd" where
  "read_table =
     rd_bind read_longstr (\<lambda>str.
       rd_nested (bytes_of str) (read_entries (Suc (length str)) []))"


section \<open>Every call returns\<close>

lemma consumes_limited: "consumes m \<Longrightarrow> consumes (rd_limited n m)"
proof -
  assume m: "consumes m"
  show ?thesis
  proof (rule consumesI)
    fix bs v r
    assume "rd_limited n m bs = (v, r)"
    then obtain r' where r: "m (take n bs) = (v, r')" "r = r' @ drop n bs"
      by (auto simp: rd_limited_def split: prod.splits)
    with m obtain p where "take n bs = p @ r'"
      using consumes_prefix by blast
    then have "bs = p @ r' @ drop n bs"
      by (metis append.assoc append_take_drop_id)
    with r show "\<exists>p. bs = p @ r"
      by blast
  qed
qed

lemma consumes_nested [simp, intro]: "consumes (rd_nested buf m)"
  by (simp add: consumes_def rd_nested_def)

lemma consumes_if [intro]: "(c \<Longrightarrow> consumes a) \<Longrightarrow> (\<not> c \<Longrightarrow> consumes b) \<Longrightarrow> consumes (if c then a else b)"
  by simp

lemma consumes_strings [simp, intro]: "consumes read_shortstr" "consumes read_longstr" "consumes read_timestamp"
  unfolding read_shortstr_def read_longstr_def read_timestamp_def
  by (intro consumes_bind consumes_if consumes_ints consumes_return consumes_read_full)+

lemma consumes_field_step:
  assumes "consumes (read_elems n)"
  shows "consumes (read_field (Suc n))"
  unfolding read_field.simps Let_def
  by (intro consumes_bind consumes_if consumes_ints consumes_return consumes_read_full consumes_strings
      consumes_limited consumes_nested consumes_fail assms)
     (simp split: prod.split)

lemma consumes_fields:
  "consumes (read_field n)" "consumes (read_elems n)" "consumes (read_entries n acc)"
proof (induction n arbitrary: acc)
  case (Suc n)
  {
    case 1
    show ?case
      using Suc(2) by (rule consumes_field_step)
  next
    case 2
    show ?case
    proof (rule consumesI)
      fix bs v r
      assume rd: "read_elems (Suc n) bs = (v, r)"
      obtain w r' where w: "read_field n bs = (w, r')"
        by fastforce
      obtain p where p: "bs = p @ r'"
        using consumes_prefix [OF Suc(1) w] by blast
      have c: "consumes (rd_bind (read_elems n) (\<lambda>vs. rd_return (x # vs)))" for x
        using Suc(2) by auto
      have "\<exists>q. r' = q @ r"
        using rd w by (auto split: sum.splits if_splits dest: consumes_prefix [OF c])
      with p show "\<exists>p. bs = p @ r"
        by auto
    qed
  next
    case (3 acc)
    have "consumes (rd_bind read_shortstr (\<lambda>key.
              rd_bind (read_field n) (\<lambda>v. read_entries n (AList.update key v acc))))"
      using Suc by auto
    then show ?case
      by (auto simp: consumes_def)
  }
qed simp_all

lemma read_u8_strict: "read_u8 bs = (Inr v, r) \<Longrightarrow> length r < length bs"
  by (cases bs) auto

lemma rd_bind_strict:
  assumes "rd_bind m f bs = (Inr v, r)"
    and "\<And>x r. m bs = (Inr x, r) \<Longrightarrow> length r < length bs"
    and "\<And>x. consumes (f x)"
  shows "length r < length bs"
proof -
  from assms(1) obtain x r' where m: "m bs = (Inr x, r')" "f x r' = (Inr v, r)"
    by (auto simp: rd_bind_def split: prod.splits sum.splits)
  then show ?thesis
    using assms(2) [OF m(1)] consumesD [OF assms(3) m(2)] by simp
qed

lemma read_shortstr_strict: "read_shortstr bs = (Inr v, r) \<Longrightarrow> length r < length bs"
  unfolding read_shortstr_def by (erule rd_bind_strict) (auto intro: read_u8_strict)

lemma read_field_strict:
  assumes "read_field n bs = (Inr v, r)"
  shows "length r < length bs"
proof (cases n)
  case 0
  with assms show ?thesis
    by simp
next
  case (Suc m)
  show ?thesis
    using assms unfolding Suc read_field.simps Let_def
    apply (rule rd_bind_strict)
    apply (erule read_u8_strict)
    by (intro consumes_bind consumes_if consumes_ints consumes_return consumes_read_full consumes_strings
          consumes_limited consumes_nested consumes_fail consumes_fields, simp split: prod.split)
qed

text \<open>A reader that does not run out of fuel on an input.\<close>

definition fuelled :: "'a rd \<Rightarrow> byte list \<Rightarrow> bool" where
  "fuelled m bs \<longleftrightarrow> fst (m bs) \<noteq> Inl ROutOfFuel"

lemma fuelled_simps [simp]:
  "fuelled (rd_return x) bs" "e \<noteq> ROutOfFuel \<Longrightarrow> fuelled (rd_fail e) bs" "fuelled (read_full n) bs"
  by (simp_all add: fuelled_def read_full_def)

lemma fuelled_bind:
  "fuelled m bs \<Longrightarrow> (\<And>x r. m bs = (Inr x, r) \<Longrightarrow> fuelled (f x) r) \<Longrightarrow> fuelled (rd_bind m f) bs"
  by (auto simp: fuelled_def rd_bind_def split: prod.splits sum.splits)

lemma fuelled_ints [simp]:
  "fuelled read_u8 bs" "fuelled read_u16 bs" "fuelled read_u32 bs" "fuelled read_u64 bs"
  by (auto simp: read_u8_def read_u16_def read_u32_def read_u64_def intro!: fuelled_bind)

lemma fuelled_strings [simp]:
  "fuelled read_shortstr bs" "fuelled read_longstr bs" "fuelled read_timestamp bs"
  by (auto simp: read_shortstr_def read_longstr_def read_timestamp_def intro!: fuelled_bind)

lemma fuelled_limited: "fuelled m (take n bs) \<Longrightarrow> fuelled (rd_limited n m) bs"
  by (auto simp: fuelled_def rd_limited_def split: prod.splits)

lemma fuelled_if: "(c \<Longrightarrow> fuelled a bs) \<Longrightarrow> (\<not> c \<Longrightarrow> fuelled b bs) \<Longrightarrow> fuelled (if c then a else b) bs"
  by simp

lemma fuelled_nested: "fuelled m buf \<Longrightarrow> fuelled (rd_nested buf m) bs"
  by (simp add: fuelled_def rd_nested_def)

lemma read_longstr_length:
  assumes "read_longstr bs = (Inr s, r)"
  shows "length s + length r < length bs"
proof -
  from assms obtain len r' where len: "read_u32 bs = (Inr len, r')"
    and s: "(if len > drop_bit 1 (NOT 0) then rd_return ''''
       else rd_bind (read_full (unat len)) (\<lambda>b. rd_return (string_of b))) r' = (Inr s, r)"
    unfolding read_longstr_def by (auto simp: rd_bind_def split: prod.splits sum.splits)
  have "length r' < length bs"
    using len by (auto simp: read_u32_def rd_bind_def read_full_def split: if_splits)
  moreover have "length s + length r \<le> length r'"
    using s by (auto simp: rd_bind_def read_full_def split: if_splits)
  ultimately show ?thesis
    by simp
qed

lemma read_u32_length: "read_u32 bs = (Inr v, r) \<Longrightarrow> length r < length bs"
  by (auto simp: read_u32_def rd_bind_def read_full_def split: if_splits)

lemma fuelled_field_step:
  assumes elems: "\<And>bs. Suc (length bs) < n \<Longrightarrow> fuelled (read_elems n) bs"
    and entries: "\<And>bs. length bs < n \<Longrightarrow> fuelled (read_entries n []) bs"
    and len: "length bs < Suc n"
  shows "fuelled (read_field (Suc n)) bs"
proof -
  have 1: "fuelled (rd_limited (unat size) (read_elems n)) r2"
    if "read_u8 bs = (Inr t, r1)" "read_u32 r1 = (Inr size, r2)" for t size r1 r2
    using len read_u8_strict [OF that(1)] read_u32_length [OF that(2)]
    by (intro fuelled_limited elems) simp
  have 2: "fuelled (rd_nested (bytes_of str) (read_entries n [])) r2"
    if "read_u8 bs = (Inr t, r1)" "read_longstr r1 = (Inr str, r2)" for t str r1 r2
    using len read_u8_strict [OF that(1)] read_longstr_length [OF that(2)]
    by (intro fuelled_nested entries) simp
  show ?thesis
    unfolding read_field.simps Let_def
    by (intro fuelled_bind fuelled_if fuelled_ints fuelled_simps fuelled_strings)
       (erule (1) 1 | erule (1) 2 | simp split: prod.split)+
qed

lemma enough_fuel:
  "length bs < n \<Longrightarrow> fuelled (read_field n) bs"
  "Suc (length bs) < n \<Longrightarrow> fuelled (read_elems n) bs"
  "length bs < n \<Longrightarrow> fuelled (read_entries n acc) bs"
proof (induction n arbitrary: bs acc)
  case (Suc n)
  {
    case 1
    then show ?case
      using Suc by (intro fuelled_field_step) auto
  next
    case 2
    have f: "fuelled (read_field n) bs"
      using 2 Suc(1) by simp
    have "fuelled (rd_bind (read_elems n) (\<lambda>vs. rd_return (v # vs))) r"
      if "read_field n bs = (Inr v, r)" for v r
      using 2 Suc(2) read_field_strict [OF that] by (intro fuelled_bind) auto
    then show ?case
      using f by (auto simp: fuelled_def split: prod.splits sum.splits)
  next
    case 3
    have "fuelled (rd_bind read_shortstr (\<lambda>key.
              rd_bind (read_field n) (\<lambda>v. read_entries n (AList.update key v acc)))) bs"
    proof (intro fuelled_bind)
      fix key r
      assume "read_shortstr bs = (Inr key, r)"
      then have r: "length r < n"
        using 3 read_shortstr_strict by fastforce
      then show "fuelled (read_field n) r"
        by (rule Suc(1))
      fix v r'
      assume "read_field n r = (Inr v, r')"
      then have "length r' < length r"
        by (rule read_field_strict)
      with r show "fuelled (read_entries n (AList.update key v acc)) r'"
        by (intro Suc(3)) simp
    qed simp
    then show ?case
      by (simp add: fuelled_def)
  }
qed simp_all

section \<open>Writing succeeds exactly on supported types\<close>

lemma wr_seq_Inr_iff: "(\<exists>z. wr_seq a b = Inr z) \<longleftrightarrow> (\<exists>x. a = Inr x) \<and> (\<exists>y. b = Inr y)"
  by (auto simp: wr_seq_def split: sum.splits)

lemma write_validates:
  "(\<exists>bs. write_field v = Inr bs) = validate_field v"
  "(\<exists>bs. write_fields vs = Inr bs) = validate_fields vs"
  "(\<exists>bs. write_entries t = Inr bs) = validate_entries t"
  by (induction v and vs and t rule: write_field_write_fields_write_entries.induct)
     (auto simp: wr_seq_Inr_iff split: sum.splits)

section \<open>What the peer reads\<close>

text \<open>
  Go's \<open>int\<close> travels as 32 bits and a time as whole seconds; every other value arrives as
  it was.
\<close>

fun norm_field :: "field \<Rightarrow> field"
and norm_fields :: "field list \<Rightarrow> field list"
and norm_entries :: "table \<Rightarrow> table" where
  "norm_field (FInt v) = FInt32 (ucast v)"
| "norm_field (FTime sec nsec) = FTime sec 0"
| "norm_field (FArray vs) = FArray (norm_fields vs)"
| "norm_field (FTable t) = FTable (norm_entries t)"
| "norm_field v = v"
| "norm_fields [] = []"
| "norm_fields (v # vs) = norm_field v # norm_fields vs"
| "norm_entries [] = []"
| "norm_entries ((k, v) # t) = (k, norm_field v) # norm_entries t"

text \<open>
  The values that fit: keys below 256 bytes and distinct (a Go map has no duplicates),
  strings, byte strings and nested tables below 2 to the 31 bytes, arrays below 2 to the 32.
\<close>

definition wr_shorter :: "nat \<Rightarrow> wr \<Rightarrow> bool" where
  "wr_shorter n w = (case w of Inl e \<Rightarrow> False | Inr b \<Rightarrow> length b < n)"

fun field_ok :: "field \<Rightarrow> bool"
and fields_ok :: "field list \<Rightarrow> bool"
and entries_ok :: "table \<Rightarrow> bool" where
  "field_ok (FString s) = (length s < 2 ^ 31)"
| "field_ok (FBytes b) = (length b < 2 ^ 31)"
| "field_ok (FArray vs) = (fields_ok vs \<and> wr_shorter (2 ^ 32) (write_fields vs))"
| "field_ok (FTable t) =
     (entries_ok t \<and> distinct (map fst t) \<and> wr_shorter (2 ^ 31) (write_entries t))"
| "field_ok (FOther ty) = False"
| "field_ok v = True"
| "fields_ok [] = True"
| "fields_ok (v # vs) = (field_ok v \<and> fields_ok vs)"
| "entries_ok [] = True"
| "entries_ok ((k, v) # t) = (length k < 256 \<and> field_ok v \<and> entries_ok t)"

definition table_ok :: "table \<Rightarrow> bool" where
  "table_ok t = field_ok (FTable t)"

lemma norm_entries_keys [simp]: "map fst (norm_entries t) = map fst t"
proof (induction t)
  case (Cons kv t)
  then show ?case
    by (cases kv) simp
qed simp

section \<open>Round trips\<close>

lemma unat_len8: "n < 256 \<Longrightarrow> unat (word_of_nat n :: 8 word) = n"
  by (simp add: unat_of_nat)

lemma unat_len32: "n < 2 ^ 32 \<Longrightarrow> unat (word_of_nat n :: 32 word) = n"
  by (simp add: unat_of_nat)

lemma read_write_shortstr [simp, wire_rd]:
  "length s < 256 \<Longrightarrow> read_shortstr (write_shortstr s @ rest) = (Inr s, rest)"
  by (simp add: read_shortstr_def write_shortstr_def Let_def rd_bind_def unat_len8)

lemma longstr_limit: "unat (drop_bit 1 (NOT 0) :: 32 word) = 2 ^ 31 - 1"
  by (simp add: mask_eq_exp_minus_1)

lemma len32_small: "n < 2 ^ 31 \<Longrightarrow> \<not> (drop_bit 1 (NOT 0) :: 32 word) < word_of_nat n"
  by (simp only: word_less_nat_alt longstr_limit) (simp add: unat_len32)

lemma read_write_longstr_bytes [simp]:
  "length b < 2 ^ 31 \<Longrightarrow> read_longstr (write_longstr_bytes b @ rest) = (Inr (string_of b), rest)"
  using len32_small [of "length b"] unat_len32 [of "length b"]
  by (simp add: read_longstr_def write_longstr_bytes_def Let_def rd_bind_def)

lemma read_write_longstr [simp, wire_rd]:
  "length s < 2 ^ 31 \<Longrightarrow> read_longstr (write_longstr s @ rest) = (Inr s, rest)"
  by (simp add: write_longstr_def)

lemma sint_small: "n < 2 ^ 31 \<Longrightarrow> \<not> rd_neg_len (word_of_nat n)"
proof -
  assume n: "n < 2 ^ 31"
  then have "uint (word_of_nat n :: 32 word) = int n"
    by (simp add: unsigned_of_nat take_bit_nat_eq_self)
  with n have "sint (word_of_nat n :: 32 word) = int n"
    by (simp add: sint_uint signed_take_bit_int_eq_self)
  then show ?thesis
    by (simp add: rd_neg_len_def)
qed

lemma rd_limited_all: "m sec = (v, []) \<Longrightarrow> length sec = n \<Longrightarrow> rd_limited n m (sec @ rest) = (v, rest)"
  by (simp add: rd_limited_def)

lemma string_of_inject: "bytes_of (string_of b) = b"
  by simp

text \<open>
  One lemma per group of constructors, then the simultaneous induction over a value, the
  elements of an array and the entries of a table.
\<close>

lemma read_field_scalar:
  "0 < n \<Longrightarrow> read_field n (byte_of CHR ''t'' # b # rest) = (Inr (FBool (b \<noteq> 0)), rest)"
  "0 < n \<Longrightarrow> read_field n (byte_of CHR ''B'' # b # rest) = (Inr (FByte b), rest)"
  "0 < n \<Longrightarrow> read_field n (byte_of CHR ''b'' # b # rest) = (Inr (FInt8 b), rest)"
  "0 < n \<Longrightarrow> read_field n (byte_of CHR ''s'' # put_u16 w16 @ rest) = (Inr (FInt16 w16), rest)"
  "0 < n \<Longrightarrow> read_field n (byte_of CHR ''I'' # put_u32 w32 @ rest) = (Inr (FInt32 w32), rest)"
  "0 < n \<Longrightarrow> read_field n (byte_of CHR ''l'' # put_u64 w64 @ rest) = (Inr (FInt64 w64), rest)"
  "0 < n \<Longrightarrow> read_field n (byte_of CHR ''f'' # put_u32 w32 @ rest) = (Inr (FFloat32 w32), rest)"
  "0 < n \<Longrightarrow> read_field n (byte_of CHR ''d'' # put_u64 w64 @ rest) = (Inr (FFloat64 w64), rest)"
  "0 < n \<Longrightarrow> read_field n (byte_of CHR ''D'' # b # put_u32 w32 @ rest) = (Inr (FDecimal b w32), rest)"
  "0 < n \<Longrightarrow> read_field n (byte_of CHR ''T'' # put_u64 w64 @ rest) = (Inr (FTime w64 0), rest)"
  "0 < n \<Longrightarrow> read_field n (byte_of CHR ''V'' # rest) = (Inr FNil, rest)"
  by (cases n; simp add: rd_bind_def read_timestamp_def)+

lemma longstr_eq: "write_longstr (string_of b) = write_longstr_bytes b"
  by (simp add: write_longstr_def)

lemma read_field_string:
  "length s < 2 ^ 31 \<Longrightarrow>
   read_field (Suc n) (byte_of CHR ''S'' # put_u32 (word_of_nat (length s)) @ bytes_of s @ rest) = (Inr (FString s), rest)"
  using read_write_longstr [of s rest] unat_len32 [of "length s"]
  by (simp add: rd_bind_def write_longstr_def write_longstr_bytes_def)

lemma read_field_bytes:
  "length b < 2 ^ 31 \<Longrightarrow>
   read_field (Suc n) (byte_of CHR ''x'' # put_u32 (word_of_nat (length b)) @ b @ rest) = (Inr (FBytes b), rest)"
  using sint_small [of "length b"] unat_len32 [of "length b"] by (simp add: rd_bind_def)

lemma read_field_array:
  "length sec < 2 ^ 32 \<Longrightarrow> read_elems n sec = (Inr vs, []) \<Longrightarrow>
   read_field (Suc n) (byte_of CHR ''A'' # put_u32 (word_of_nat (length sec)) @ sec @ rest) = (Inr (FArray vs), rest)"
  using unat_len32 [of "length sec"] by (simp add: rd_bind_def rd_limited_all)

lemma read_field_table:
  "length b < 2 ^ 31 \<Longrightarrow> read_entries n [] b = (Inr t, []) \<Longrightarrow>
   read_field (Suc n) (byte_of CHR ''F'' # write_longstr_bytes b @ rest) = (Inr (FTable t), rest)"
  by (simp add: rd_bind_def rd_nested_def)

lemmas read_field_value = read_field_scalar read_field_string read_field_bytes read_field_array read_field_table

lemma write_shortstr_nonempty: "write_shortstr k \<noteq> []"
  by (simp add: write_shortstr_def Let_def put_u8_def)

lemma write_field_nonempty: "write_field v = Inr bs \<Longrightarrow> bs \<noteq> []"
  by (cases v) (auto split: sum.splits)

lemma field_roundtrip:
  "field_ok v \<Longrightarrow> write_field v = Inr bs \<Longrightarrow> length bs < n \<Longrightarrow>
     read_field n (bs @ rest) = (Inr (norm_field v), rest)"
  "fields_ok vs \<Longrightarrow> write_fields vs = Inr bs \<Longrightarrow> Suc (length bs) < n \<Longrightarrow>
     read_elems n bs = (Inr (norm_fields vs), [])"
  "entries_ok t \<Longrightarrow> distinct (map fst (acc @ t)) \<Longrightarrow> write_entries t = Inr bs \<Longrightarrow> length bs < n \<Longrightarrow>
     read_entries n acc bs = (Inr (acc @ norm_entries t), [])"
proof (induction v and vs and t arbitrary: bs n rest and bs n and acc bs n
    rule: write_field_write_fields_write_entries.induct)
  case (11 s bs n)
  then show ?case
    by (cases n) (auto simp: read_field_string simp del: read_field.simps)
next
  case (12 vs bs n)
  then obtain sec m where m: "write_fields vs = Inr sec" "n = Suc m"
    by (cases n) (auto split: sum.splits)
  with 12 have "read_elems m sec = (Inr (norm_fields vs), [])"
    by (intro 12(1)) auto
  with 12 m show ?case
    by (auto simp: read_field_array wr_shorter_def simp del: read_field.simps)
next
  case (14 t bs n)
  then obtain b m where m: "write_entries t = Inr b" "n = Suc m"
    by (cases n) (auto split: sum.splits)
  have b: "length b < 2 ^ 31"
    using 14(2) m by (auto simp: wr_shorter_def)
  have bs: "bs = byte_of CHR ''F'' # write_longstr_bytes b"
    using 14(3) m by auto
  have "length b \<le> length (write_longstr_bytes b)"
    using b unat_len32 [of "length b"] by (simp add: write_longstr_bytes_def Let_def)
  then have "read_entries m [] b = (Inr (norm_entries t), [])"
    using 14 m bs 14(1) [of "[]" b m] by auto
  with b bs m show ?case
    by (simp add: read_field_table del: read_field.simps)
next
  case (15 b bs n)
  then show ?case
    by (cases n) (auto simp: read_field_bytes simp del: read_field.simps)
next
  case (18 bs n)
  then obtain m where "n = Suc (Suc m)"
    by (metis Suc_lessE less_SucE)
  with 18 show ?case
    by (simp add: rd_bind_def)
next
  case (19 v vs bs n)
  obtain x y m where xy: "write_field v = Inr x" "write_fields vs = Inr y" "bs = x @ y" "n = Suc m"
    using 19 by (cases n) (auto simp: wr_seq_eq_Inr)
  have "Suc (length y) \<le> length (x @ y)"
    using write_field_nonempty [OF xy(1)] by (cases x) simp_all
  with 19 xy have "Suc (length y) < m"
    by simp
  then have "read_field m (x @ y) = (Inr (norm_field v), y)" "read_elems m y = (Inr (norm_fields vs), [])"
    using 19 xy by (auto intro!: 19(1,2))
  with xy show ?case
    by (simp add: rd_bind_def)
next
  case (20 acc bs n)
  then show ?case
    by (cases n) auto
next
  case (21 k v t acc bs n)
  then obtain x y m where xy: "write_field v = Inr x" "write_entries t = Inr y"
    "bs = write_shortstr k @ x @ y" "n = Suc m"
    by (cases n) (auto simp: wr_seq_eq_Inr)
  have "read_field m (x @ y) = (Inr (norm_field v), y)"
    using 21 xy write_shortstr_nonempty [of k] by (intro 21(1)) (auto simp: neq_Nil_conv)
  moreover have "read_entries m (acc @ [(k, norm_field v)]) y = (Inr ((acc @ [(k, norm_field v)]) @ norm_entries t), [])"
    using 21 xy write_shortstr_nonempty [of k] by (intro 21(2)) (auto simp: neq_Nil_conv)
  moreover have "AList.update k (norm_field v) acc = acc @ [(k, norm_field v)]"
    using 21 by (intro update_new) auto
  ultimately show ?case
    using xy 21 write_shortstr_nonempty [of k] by (simp add: rd_bind_def)
qed (auto simp: read_field_scalar simp del: read_field.simps)


text \<open>The interface of the wire readers and writers, on field tables.\<close>

lemma table_written: "table_ok t \<Longrightarrow> \<exists>bs. write_table t = Inr bs"
  by (auto simp: table_ok_def wr_shorter_def write_table_def split: sum.splits)

lemma read_write_table [simp, wire_rd]:
  assumes "table_ok t" "write_table t = Inr bs"
  shows "read_table (bs @ rest) = (Inr (norm_entries t), rest)"
proof -
  obtain b where b: "write_entries t = Inr b" "bs = write_longstr_bytes b" "length b < 2 ^ 31"
    using assms by (auto simp: table_ok_def wr_shorter_def write_table_def split: sum.splits)
  have "read_entries (Suc (length b)) [] b = (Inr ([] @ norm_entries t), [])"
    using assms(1) b by (intro field_roundtrip(3)) (auto simp: table_ok_def)
  with b show ?thesis
    by (simp add: read_table_def rd_bind_def rd_nested_def del: read_entries.simps)
qed

interpretation table_codec: codec write_table read_table table_ok norm_entries
  by unfold_locales (auto dest: table_written)

lemma read_table_fuelled: "fuelled read_table bs"
  unfolding read_table_def by (intro fuelled_bind fuelled_nested enough_fuel(3)) simp_all

section \<open>Properties\<close>

text \<open>C20. Reading back a table: for every table whose values have an AMQP encoding and whose
  parts fit their length fields, the writer succeeds and the reader returns the table with
  the same keys in the same order, Go ints cut to 32 bits and times cut to seconds, and
  leaves the bytes after it.\<close>
theorem table_roundtrip:
  "table_ok t \<Longrightarrow> \<exists>bs. write_table t = Inr bs
     \<and> (\<forall>rest. read_table (bs @ rest) = (Inr (norm_entries t), rest))"
  by (metis table_written table_codec.readback)

definition sample_table :: table where
  "sample_table = [(''x-dead-letter-exchange'', FString ''''),
     (''x-dead-letter-routing-key'', FString ''dlq.errors''),
     (''nested'', FTable [(''a'', FArray [FInt 5, FBool True, FNil, FTime 7 9])])]"

theorem table_roundtrip_witness:
  "\<exists>bs. write_table sample_table = Inr bs
     \<and> (\<forall>rest. read_table (bs @ rest) = (Inr (norm_entries sample_table), rest))"
  by (rule table_roundtrip)
     (simp add: sample_table_def table_ok_def wr_shorter_def write_shortstr_def Let_def unat_len8
        write_longstr_bytes_def)

text \<open>C29. Encoding a table fails exactly when \<open>Table.Validate\<close> refuses it, that is when some
  value in it, at any depth, has a Go type without an AMQP encoding.\<close>
theorem write_table_validate: "(\<exists>bs. write_table t = Inr bs) = validate_field (FTable t)"
  using write_validates(3) [of t] by (auto simp: write_table_def split: sum.splits)

text \<open>C30. A byte array whose 32-bit length is negative makes the reader panic: \<open>make\<close> is
  called with the signed length the server sent.\<close>
theorem read_bytes_negative_length:
  "sint len < 0 \<Longrightarrow>
   fst (read_field (Suc n) (byte_of CHR ''x'' # put_u32 len @ rest)) = Inl RPanic"
  by (simp add: rd_bind_def rd_neg_len_def)

theorem read_bytes_negative_length_witness:
  "fst (read_field 1 (byte_of CHR ''x'' # put_u32 (- 1) @ [])) = Inl RPanic"
  using read_bytes_negative_length [of "- 1" 0 "[]"] by simp

text \<open>C31. A short string of 256 bytes or more is written with its length modulo 256 and cut
  to that many bytes without an error, so the peer reads another string.\<close>
theorem shortstr_truncates:
  "read_shortstr (write_shortstr s @ rest) = (Inr (take (length s mod 256) s), rest)"
proof -
  have "unat (word_of_nat (length s) :: 8 word) = length s mod 256"
    by (simp add: unat_of_nat)
  then show ?thesis
    by (simp add: read_shortstr_def write_shortstr_def Let_def rd_bind_def flip: bytes_of_take)
qed

text \<open>C32. A long string whose length field exceeds 2 to the 31 minus 1 is read as the empty
  string: no error is reported and none of its bytes are consumed.\<close>
theorem longstr_too_long_is_empty:
  "2 ^ 31 \<le> unat len \<Longrightarrow> read_longstr (put_u32 len @ rest) = (Inr '''', rest)"
proof -
  assume "2 ^ 31 \<le> unat len"
  then have "drop_bit 1 (NOT 0) < len"
    unfolding word_less_nat_alt longstr_limit by simp
  then show ?thesis
    by (simp add: read_longstr_def rd_bind_def)
qed

theorem longstr_too_long_is_empty_witness:
  "read_longstr (put_u32 0x80000000 @ [1, 2]) = (Inr '''', [1, 2])"
  by (rule longstr_too_long_is_empty) simp

end
