(* ===== verification/MethodsConnection.thy ===== *)
theory MethodsConnection
  imports WireFields
begin

text \<open>
  The methods of the AMQP classes connection and channel (spec091.go).  Each message of
  spec091.go is a record with its method identifier, whether a reply is awaited, its writer
  and its reader, in the order of the struct, id, wait, write and read of the source.
\<close>

section \<open>Class connection\<close>

text \<open>
  Handshake, tuning, virtual host, close, and the blocked notifications.
\<close>

record connectionStart =
  connectionStart_VersionMajor :: "8 word"
  connectionStart_VersionMinor :: "8 word"
  connectionStart_ServerProperties :: table
  connectionStart_Mechanisms :: gostring
  connectionStart_Locales :: gostring

definition connectionStart_id :: "16 word \<times> 16 word" where [wire_defs]:
  "connectionStart_id = (10, 10)"

definition connectionStart_wait :: "connectionStart \<Rightarrow> bool" where [wire_defs]:
  "connectionStart_wait msg = True"

definition connectionStart_write :: "connectionStart \<Rightarrow> wr" where [wire_defs]:
  "connectionStart_write msg =
     wr_seq (Inr (put_u8 (connectionStart_VersionMajor msg))) (
     wr_seq (Inr (put_u8 (connectionStart_VersionMinor msg))) (
     wr_seq (write_table (connectionStart_ServerProperties msg)) (
     wr_seq (Inr (write_longstr (connectionStart_Mechanisms msg))) (
     Inr (write_longstr (connectionStart_Locales msg))))))"

definition connectionStart_read :: "connectionStart rd" where [wire_defs]:
  "connectionStart_read =
     rd_bind read_u8 (\<lambda>versionMajor.
     rd_bind read_u8 (\<lambda>versionMinor.
     rd_bind read_table (\<lambda>serverProperties.
     rd_bind read_longstr (\<lambda>mechanisms.
     rd_bind read_longstr (\<lambda>locales.
     rd_return \<lparr>connectionStart_VersionMajor = versionMajor, connectionStart_VersionMinor
       = versionMinor, connectionStart_ServerProperties = serverProperties,
       connectionStart_Mechanisms = mechanisms, connectionStart_Locales = locales\<rparr>)))))"

record connectionStartOk =
  connectionStartOk_ClientProperties :: table
  connectionStartOk_Mechanism :: gostring
  connectionStartOk_Response :: gostring
  connectionStartOk_Locale :: gostring

definition connectionStartOk_id :: "16 word \<times> 16 word" where [wire_defs]:
  "connectionStartOk_id = (10, 11)"

definition connectionStartOk_wait :: "connectionStartOk \<Rightarrow> bool" where [wire_defs]:
  "connectionStartOk_wait msg = True"

definition connectionStartOk_write :: "connectionStartOk \<Rightarrow> wr" where [wire_defs]:
  "connectionStartOk_write msg =
     wr_seq (write_table (connectionStartOk_ClientProperties msg)) (
     wr_seq (Inr (write_shortstr (connectionStartOk_Mechanism msg))) (
     wr_seq (Inr (write_longstr (connectionStartOk_Response msg))) (
     Inr (write_shortstr (connectionStartOk_Locale msg)))))"

definition connectionStartOk_read :: "connectionStartOk rd" where [wire_defs]:
  "connectionStartOk_read =
     rd_bind read_table (\<lambda>clientProperties.
     rd_bind read_shortstr (\<lambda>mechanism.
     rd_bind read_longstr (\<lambda>response.
     rd_bind read_shortstr (\<lambda>locale.
     rd_return \<lparr>connectionStartOk_ClientProperties = clientProperties,
       connectionStartOk_Mechanism = mechanism, connectionStartOk_Response = response,
       connectionStartOk_Locale = locale\<rparr>))))"

record connectionSecure =
  connectionSecure_Challenge :: gostring

definition connectionSecure_id :: "16 word \<times> 16 word" where [wire_defs]:
  "connectionSecure_id = (10, 20)"

definition connectionSecure_wait :: "connectionSecure \<Rightarrow> bool" where [wire_defs]:
  "connectionSecure_wait msg = True"

definition connectionSecure_write :: "connectionSecure \<Rightarrow> wr" where [wire_defs]:
  "connectionSecure_write msg =
     Inr (write_longstr (connectionSecure_Challenge msg))"

definition connectionSecure_read :: "connectionSecure rd" where [wire_defs]:
  "connectionSecure_read =
     rd_bind read_longstr (\<lambda>challenge.
     rd_return \<lparr>connectionSecure_Challenge = challenge\<rparr>)"

record connectionSecureOk =
  connectionSecureOk_Response :: gostring

definition connectionSecureOk_id :: "16 word \<times> 16 word" where [wire_defs]:
  "connectionSecureOk_id = (10, 21)"

definition connectionSecureOk_wait :: "connectionSecureOk \<Rightarrow> bool" where [wire_defs]:
  "connectionSecureOk_wait msg = True"

definition connectionSecureOk_write :: "connectionSecureOk \<Rightarrow> wr" where [wire_defs]:
  "connectionSecureOk_write msg =
     Inr (write_longstr (connectionSecureOk_Response msg))"

definition connectionSecureOk_read :: "connectionSecureOk rd" where [wire_defs]:
  "connectionSecureOk_read =
     rd_bind read_longstr (\<lambda>response.
     rd_return \<lparr>connectionSecureOk_Response = response\<rparr>)"

record connectionTune =
  connectionTune_ChannelMax :: "16 word"
  connectionTune_FrameMax :: "32 word"
  connectionTune_Heartbeat :: "16 word"

definition connectionTune_id :: "16 word \<times> 16 word" where [wire_defs]:
  "connectionTune_id = (10, 30)"

definition connectionTune_wait :: "connectionTune \<Rightarrow> bool" where [wire_defs]:
  "connectionTune_wait msg = True"

definition connectionTune_write :: "connectionTune \<Rightarrow> wr" where [wire_defs]:
  "connectionTune_write msg =
     wr_seq (Inr (put_u16 (connectionTune_ChannelMax msg))) (
     wr_seq (Inr (put_u32 (connectionTune_FrameMax msg))) (
     Inr (put_u16 (connectionTune_Heartbeat msg))))"

definition connectionTune_read :: "connectionTune rd" where [wire_defs]:
  "connectionTune_read =
     rd_bind read_u16 (\<lambda>channelMax.
     rd_bind read_u32 (\<lambda>frameMax.
     rd_bind read_u16 (\<lambda>heartbeat.
     rd_return \<lparr>connectionTune_ChannelMax = channelMax, connectionTune_FrameMax =
       frameMax, connectionTune_Heartbeat = heartbeat\<rparr>)))"

record connectionTuneOk =
  connectionTuneOk_ChannelMax :: "16 word"
  connectionTuneOk_FrameMax :: "32 word"
  connectionTuneOk_Heartbeat :: "16 word"

definition connectionTuneOk_id :: "16 word \<times> 16 word" where [wire_defs]:
  "connectionTuneOk_id = (10, 31)"

definition connectionTuneOk_wait :: "connectionTuneOk \<Rightarrow> bool" where [wire_defs]:
  "connectionTuneOk_wait msg = True"

definition connectionTuneOk_write :: "connectionTuneOk \<Rightarrow> wr" where [wire_defs]:
  "connectionTuneOk_write msg =
     wr_seq (Inr (put_u16 (connectionTuneOk_ChannelMax msg))) (
     wr_seq (Inr (put_u32 (connectionTuneOk_FrameMax msg))) (
     Inr (put_u16 (connectionTuneOk_Heartbeat msg))))"

definition connectionTuneOk_read :: "connectionTuneOk rd" where [wire_defs]:
  "connectionTuneOk_read =
     rd_bind read_u16 (\<lambda>channelMax.
     rd_bind read_u32 (\<lambda>frameMax.
     rd_bind read_u16 (\<lambda>heartbeat.
     rd_return \<lparr>connectionTuneOk_ChannelMax = channelMax, connectionTuneOk_FrameMax =
       frameMax, connectionTuneOk_Heartbeat = heartbeat\<rparr>)))"

record connectionOpen =
  connectionOpen_VirtualHost :: gostring
  connectionOpen_reserved1 :: gostring
  connectionOpen_reserved2 :: bool

definition connectionOpen_id :: "16 word \<times> 16 word" where [wire_defs]:
  "connectionOpen_id = (10, 40)"

definition connectionOpen_wait :: "connectionOpen \<Rightarrow> bool" where [wire_defs]:
  "connectionOpen_wait msg = True"

definition connectionOpen_write :: "connectionOpen \<Rightarrow> wr" where [wire_defs]:
  "connectionOpen_write msg =
     wr_seq (Inr (write_shortstr (connectionOpen_VirtualHost msg))) (
     wr_seq (Inr (write_shortstr (connectionOpen_reserved1 msg))) (
     Inr (put_u8 (flag_set 0 (connectionOpen_reserved2 msg) 0))))"

definition connectionOpen_read :: "connectionOpen rd" where [wire_defs]:
  "connectionOpen_read =
     rd_bind read_shortstr (\<lambda>virtualHost.
     rd_bind read_shortstr (\<lambda>reserved1.
     rd_bind read_u8 (\<lambda>bits.
     rd_return \<lparr>connectionOpen_VirtualHost = virtualHost, connectionOpen_reserved1 =
       reserved1, connectionOpen_reserved2 = flag_test 0 bits\<rparr>)))"

record connectionOpenOk =
  connectionOpenOk_reserved1 :: gostring

definition connectionOpenOk_id :: "16 word \<times> 16 word" where [wire_defs]:
  "connectionOpenOk_id = (10, 41)"

definition connectionOpenOk_wait :: "connectionOpenOk \<Rightarrow> bool" where [wire_defs]:
  "connectionOpenOk_wait msg = True"

definition connectionOpenOk_write :: "connectionOpenOk \<Rightarrow> wr" where [wire_defs]:
  "connectionOpenOk_write msg =
     Inr (write_shortstr (connectionOpenOk_reserved1 msg))"

definition connectionOpenOk_read :: "connectionOpenOk rd" where [wire_defs]:
  "connectionOpenOk_read =
     rd_bind read_shortstr (\<lambda>reserved1.
     rd_return \<lparr>connectionOpenOk_reserved1 = reserved1\<rparr>)"

record connectionClose =
  connectionClose_ReplyCode :: "16 word"
  connectionClose_ReplyText :: gostring
  connectionClose_ClassId :: "16 word"
  connectionClose_MethodId :: "16 word"

definition connectionClose_id :: "16 word \<times> 16 word" where [wire_defs]:
  "connectionClose_id = (10, 50)"

definition connectionClose_wait :: "connectionClose \<Rightarrow> bool" where [wire_defs]:
  "connectionClose_wait msg = True"

definition connectionClose_write :: "connectionClose \<Rightarrow> wr" where [wire_defs]:
  "connectionClose_write msg =
     wr_seq (Inr (put_u16 (connectionClose_ReplyCode msg))) (
     wr_seq (Inr (write_shortstr (connectionClose_ReplyText msg))) (
     wr_seq (Inr (put_u16 (connectionClose_ClassId msg))) (
     Inr (put_u16 (connectionClose_MethodId msg)))))"

definition connectionClose_read :: "connectionClose rd" where [wire_defs]:
  "connectionClose_read =
     rd_bind read_u16 (\<lambda>replyCode.
     rd_bind read_shortstr (\<lambda>replyText.
     rd_bind read_u16 (\<lambda>classId.
     rd_bind read_u16 (\<lambda>methodId.
     rd_return \<lparr>connectionClose_ReplyCode = replyCode, connectionClose_ReplyText =
       replyText, connectionClose_ClassId = classId, connectionClose_MethodId =
       methodId\<rparr>))))"

type_synonym connectionCloseOk = unit

definition connectionCloseOk_id :: "16 word \<times> 16 word" where [wire_defs]:
  "connectionCloseOk_id = (10, 51)"

definition connectionCloseOk_wait :: "connectionCloseOk \<Rightarrow> bool" where [wire_defs]:
  "connectionCloseOk_wait msg = True"

definition connectionCloseOk_write :: "connectionCloseOk \<Rightarrow> wr" where [wire_defs]:
  "connectionCloseOk_write msg =
     Inr []"

definition connectionCloseOk_read :: "connectionCloseOk rd" where [wire_defs]:
  "connectionCloseOk_read =
     rd_return ()"

record connectionBlocked =
  connectionBlocked_Reason :: gostring

definition connectionBlocked_id :: "16 word \<times> 16 word" where [wire_defs]:
  "connectionBlocked_id = (10, 60)"

definition connectionBlocked_wait :: "connectionBlocked \<Rightarrow> bool" where [wire_defs]:
  "connectionBlocked_wait msg = False"

definition connectionBlocked_write :: "connectionBlocked \<Rightarrow> wr" where [wire_defs]:
  "connectionBlocked_write msg =
     Inr (write_shortstr (connectionBlocked_Reason msg))"

definition connectionBlocked_read :: "connectionBlocked rd" where [wire_defs]:
  "connectionBlocked_read =
     rd_bind read_shortstr (\<lambda>reason.
     rd_return \<lparr>connectionBlocked_Reason = reason\<rparr>)"

type_synonym connectionUnblocked = unit

definition connectionUnblocked_id :: "16 word \<times> 16 word" where [wire_defs]:
  "connectionUnblocked_id = (10, 61)"

definition connectionUnblocked_wait :: "connectionUnblocked \<Rightarrow> bool" where [wire_defs]:
  "connectionUnblocked_wait msg = False"

definition connectionUnblocked_write :: "connectionUnblocked \<Rightarrow> wr" where [wire_defs]:
  "connectionUnblocked_write msg =
     Inr []"

definition connectionUnblocked_read :: "connectionUnblocked rd" where [wire_defs]:
  "connectionUnblocked_read =
     rd_return ()"

record connectionUpdateSecret =
  connectionUpdateSecret_NewSecret :: gostring
  connectionUpdateSecret_Reason :: gostring

definition connectionUpdateSecret_id :: "16 word \<times> 16 word" where [wire_defs]:
  "connectionUpdateSecret_id = (10, 70)"

definition connectionUpdateSecret_wait :: "connectionUpdateSecret \<Rightarrow> bool" where [wire_defs]:
  "connectionUpdateSecret_wait msg = True"

definition connectionUpdateSecret_write :: "connectionUpdateSecret \<Rightarrow> wr" where [wire_defs]:
  "connectionUpdateSecret_write msg =
     wr_seq (Inr (write_longstr (connectionUpdateSecret_NewSecret msg))) (
     Inr (write_shortstr (connectionUpdateSecret_Reason msg)))"

definition connectionUpdateSecret_read :: "connectionUpdateSecret rd" where [wire_defs]:
  "connectionUpdateSecret_read =
     rd_bind read_longstr (\<lambda>newSecret.
     rd_bind read_shortstr (\<lambda>reason.
     rd_return \<lparr>connectionUpdateSecret_NewSecret = newSecret,
       connectionUpdateSecret_Reason = reason\<rparr>))"

type_synonym connectionUpdateSecretOk = unit

definition connectionUpdateSecretOk_id :: "16 word \<times> 16 word" where [wire_defs]:
  "connectionUpdateSecretOk_id = (10, 71)"

definition connectionUpdateSecretOk_wait :: "connectionUpdateSecretOk \<Rightarrow> bool" where [wire_defs]:
  "connectionUpdateSecretOk_wait msg = True"

definition connectionUpdateSecretOk_write :: "connectionUpdateSecretOk \<Rightarrow> wr" where [wire_defs]:
  "connectionUpdateSecretOk_write msg =
     Inr []"

definition connectionUpdateSecretOk_read :: "connectionUpdateSecretOk rd" where [wire_defs]:
  "connectionUpdateSecretOk_read =
     rd_return ()"

datatype connection_msg =
    ConnectionStart connectionStart
  | ConnectionStartOk connectionStartOk
  | ConnectionSecure connectionSecure
  | ConnectionSecureOk connectionSecureOk
  | ConnectionTune connectionTune
  | ConnectionTuneOk connectionTuneOk
  | ConnectionOpen connectionOpen
  | ConnectionOpenOk connectionOpenOk
  | ConnectionClose connectionClose
  | ConnectionCloseOk connectionCloseOk
  | ConnectionBlocked connectionBlocked
  | ConnectionUnblocked connectionUnblocked
  | ConnectionUpdateSecret connectionUpdateSecret
  | ConnectionUpdateSecretOk connectionUpdateSecretOk

fun connection_id :: "connection_msg \<Rightarrow> 16 word \<times> 16 word" where
  "connection_id (ConnectionStart msg) = connectionStart_id"
| "connection_id (ConnectionStartOk msg) = connectionStartOk_id"
| "connection_id (ConnectionSecure msg) = connectionSecure_id"
| "connection_id (ConnectionSecureOk msg) = connectionSecureOk_id"
| "connection_id (ConnectionTune msg) = connectionTune_id"
| "connection_id (ConnectionTuneOk msg) = connectionTuneOk_id"
| "connection_id (ConnectionOpen msg) = connectionOpen_id"
| "connection_id (ConnectionOpenOk msg) = connectionOpenOk_id"
| "connection_id (ConnectionClose msg) = connectionClose_id"
| "connection_id (ConnectionCloseOk msg) = connectionCloseOk_id"
| "connection_id (ConnectionBlocked msg) = connectionBlocked_id"
| "connection_id (ConnectionUnblocked msg) = connectionUnblocked_id"
| "connection_id (ConnectionUpdateSecret msg) = connectionUpdateSecret_id"
| "connection_id (ConnectionUpdateSecretOk msg) = connectionUpdateSecretOk_id"

fun connection_wait :: "connection_msg \<Rightarrow> bool" where
  "connection_wait (ConnectionStart msg) = connectionStart_wait msg"
| "connection_wait (ConnectionStartOk msg) = connectionStartOk_wait msg"
| "connection_wait (ConnectionSecure msg) = connectionSecure_wait msg"
| "connection_wait (ConnectionSecureOk msg) = connectionSecureOk_wait msg"
| "connection_wait (ConnectionTune msg) = connectionTune_wait msg"
| "connection_wait (ConnectionTuneOk msg) = connectionTuneOk_wait msg"
| "connection_wait (ConnectionOpen msg) = connectionOpen_wait msg"
| "connection_wait (ConnectionOpenOk msg) = connectionOpenOk_wait msg"
| "connection_wait (ConnectionClose msg) = connectionClose_wait msg"
| "connection_wait (ConnectionCloseOk msg) = connectionCloseOk_wait msg"
| "connection_wait (ConnectionBlocked msg) = connectionBlocked_wait msg"
| "connection_wait (ConnectionUnblocked msg) = connectionUnblocked_wait msg"
| "connection_wait (ConnectionUpdateSecret msg) = connectionUpdateSecret_wait msg"
| "connection_wait (ConnectionUpdateSecretOk msg) = connectionUpdateSecretOk_wait msg"

fun connection_write :: "connection_msg \<Rightarrow> wr" where
  "connection_write (ConnectionStart msg) = connectionStart_write msg"
| "connection_write (ConnectionStartOk msg) = connectionStartOk_write msg"
| "connection_write (ConnectionSecure msg) = connectionSecure_write msg"
| "connection_write (ConnectionSecureOk msg) = connectionSecureOk_write msg"
| "connection_write (ConnectionTune msg) = connectionTune_write msg"
| "connection_write (ConnectionTuneOk msg) = connectionTuneOk_write msg"
| "connection_write (ConnectionOpen msg) = connectionOpen_write msg"
| "connection_write (ConnectionOpenOk msg) = connectionOpenOk_write msg"
| "connection_write (ConnectionClose msg) = connectionClose_write msg"
| "connection_write (ConnectionCloseOk msg) = connectionCloseOk_write msg"
| "connection_write (ConnectionBlocked msg) = connectionBlocked_write msg"
| "connection_write (ConnectionUnblocked msg) = connectionUnblocked_write msg"
| "connection_write (ConnectionUpdateSecret msg) = connectionUpdateSecret_write msg"
| "connection_write (ConnectionUpdateSecretOk msg) = connectionUpdateSecretOk_write msg"

definition connection_parse :: "16 word \<Rightarrow> connection_msg rd" where
  "connection_parse methodId =
     (if methodId = 10 then rd_map ConnectionStart connectionStart_read
      else if methodId = 11 then rd_map ConnectionStartOk connectionStartOk_read
      else if methodId = 20 then rd_map ConnectionSecure connectionSecure_read
      else if methodId = 21 then rd_map ConnectionSecureOk connectionSecureOk_read
      else if methodId = 30 then rd_map ConnectionTune connectionTune_read
      else if methodId = 31 then rd_map ConnectionTuneOk connectionTuneOk_read
      else if methodId = 40 then rd_map ConnectionOpen connectionOpen_read
      else if methodId = 41 then rd_map ConnectionOpenOk connectionOpenOk_read
      else if methodId = 50 then rd_map ConnectionClose connectionClose_read
      else if methodId = 51 then rd_map ConnectionCloseOk connectionCloseOk_read
      else if methodId = 60 then rd_map ConnectionBlocked connectionBlocked_read
      else if methodId = 61 then rd_map ConnectionUnblocked connectionUnblocked_read
      else if methodId = 70 then rd_map ConnectionUpdateSecret connectionUpdateSecret_read
      else if methodId = 71 then rd_map ConnectionUpdateSecretOk connectionUpdateSecretOk_read
      else rd_fail (ErrUnknownMethod (unat methodId) 10))"

text \<open>The messages whose parts fit their length fields, and what the peer reads of them.\<close>

fun connection_ok :: "connection_msg \<Rightarrow> bool" where
  "connection_ok (ConnectionStart msg) = (table_ok (connectionStart_ServerProperties msg) \<and>
       length (connectionStart_Mechanisms msg) < 2 ^ 31 \<and> length (connectionStart_Locales msg) <
       2 ^ 31)"
| "connection_ok (ConnectionStartOk msg) = (table_ok (connectionStartOk_ClientProperties msg)
       \<and> length (connectionStartOk_Mechanism msg) < 256 \<and> length
       (connectionStartOk_Response msg) < 2 ^ 31 \<and> length (connectionStartOk_Locale msg) < 256)"
| "connection_ok (ConnectionSecure msg) = (length (connectionSecure_Challenge msg) < 2 ^ 31)"
| "connection_ok (ConnectionSecureOk msg) = (length (connectionSecureOk_Response msg) < 2 ^ 31)"
| "connection_ok (ConnectionTune msg) = True"
| "connection_ok (ConnectionTuneOk msg) = True"
| "connection_ok (ConnectionOpen msg) = (length (connectionOpen_VirtualHost msg) < 256 \<and>
       length (connectionOpen_reserved1 msg) < 256)"
| "connection_ok (ConnectionOpenOk msg) = (length (connectionOpenOk_reserved1 msg) < 256)"
| "connection_ok (ConnectionClose msg) = (length (connectionClose_ReplyText msg) < 256)"
| "connection_ok (ConnectionCloseOk msg) = True"
| "connection_ok (ConnectionBlocked msg) = (length (connectionBlocked_Reason msg) < 256)"
| "connection_ok (ConnectionUnblocked msg) = True"
| "connection_ok (ConnectionUpdateSecret msg) = (length (connectionUpdateSecret_NewSecret msg) <
       2 ^ 31 \<and> length (connectionUpdateSecret_Reason msg) < 256)"
| "connection_ok (ConnectionUpdateSecretOk msg) = True"

fun connection_norm :: "connection_msg \<Rightarrow> connection_msg" where
  "connection_norm (ConnectionStart msg) = ConnectionStart
       (msg\<lparr>connectionStart_ServerProperties := norm_entries (connectionStart_ServerProperties
       msg)\<rparr>)"
| "connection_norm (ConnectionStartOk msg) = ConnectionStartOk
       (msg\<lparr>connectionStartOk_ClientProperties := norm_entries
       (connectionStartOk_ClientProperties msg)\<rparr>)"
| "connection_norm (ConnectionSecure msg) = ConnectionSecure msg"
| "connection_norm (ConnectionSecureOk msg) = ConnectionSecureOk msg"
| "connection_norm (ConnectionTune msg) = ConnectionTune msg"
| "connection_norm (ConnectionTuneOk msg) = ConnectionTuneOk msg"
| "connection_norm (ConnectionOpen msg) = ConnectionOpen msg"
| "connection_norm (ConnectionOpenOk msg) = ConnectionOpenOk msg"
| "connection_norm (ConnectionClose msg) = ConnectionClose msg"
| "connection_norm (ConnectionCloseOk msg) = ConnectionCloseOk msg"
| "connection_norm (ConnectionBlocked msg) = ConnectionBlocked msg"
| "connection_norm (ConnectionUnblocked msg) = ConnectionUnblocked msg"
| "connection_norm (ConnectionUpdateSecret msg) = ConnectionUpdateSecret msg"
| "connection_norm (ConnectionUpdateSecretOk msg) = ConnectionUpdateSecretOk msg"

lemma connection_written: "connection_ok m \<Longrightarrow> \<exists>bs. connection_write m = Inr bs"
  by (cases m) (auto simp: wire_defs dest: table_written)

lemma connection_readback:
  "connection_ok m \<Longrightarrow> connection_write m = Inr bs \<Longrightarrow>
   connection_parse (snd (connection_id m)) (bs @ rest) = (Inr (connection_norm m), rest)"
  by (cases m) (auto simp: connection_parse_def rd_map_def wire_defs rd_bind_def wr_seq_eq_Inr)

lemma connection_class: "fst (connection_id m) = 10"
  by (cases m) (simp_all add: wire_defs)

section \<open>Class channel\<close>

text \<open>
  Opening, flow control and closing of a channel.
\<close>

record channelOpen =
  channelOpen_reserved1 :: gostring

definition channelOpen_id :: "16 word \<times> 16 word" where [wire_defs]:
  "channelOpen_id = (20, 10)"

definition channelOpen_wait :: "channelOpen \<Rightarrow> bool" where [wire_defs]:
  "channelOpen_wait msg = True"

definition channelOpen_write :: "channelOpen \<Rightarrow> wr" where [wire_defs]:
  "channelOpen_write msg =
     Inr (write_shortstr (channelOpen_reserved1 msg))"

definition channelOpen_read :: "channelOpen rd" where [wire_defs]:
  "channelOpen_read =
     rd_bind read_shortstr (\<lambda>reserved1.
     rd_return \<lparr>channelOpen_reserved1 = reserved1\<rparr>)"

record channelOpenOk =
  channelOpenOk_reserved1 :: gostring

definition channelOpenOk_id :: "16 word \<times> 16 word" where [wire_defs]:
  "channelOpenOk_id = (20, 11)"

definition channelOpenOk_wait :: "channelOpenOk \<Rightarrow> bool" where [wire_defs]:
  "channelOpenOk_wait msg = True"

definition channelOpenOk_write :: "channelOpenOk \<Rightarrow> wr" where [wire_defs]:
  "channelOpenOk_write msg =
     Inr (write_longstr (channelOpenOk_reserved1 msg))"

definition channelOpenOk_read :: "channelOpenOk rd" where [wire_defs]:
  "channelOpenOk_read =
     rd_bind read_longstr (\<lambda>reserved1.
     rd_return \<lparr>channelOpenOk_reserved1 = reserved1\<rparr>)"

record channelFlow =
  channelFlow_Active :: bool

definition channelFlow_id :: "16 word \<times> 16 word" where [wire_defs]:
  "channelFlow_id = (20, 20)"

definition channelFlow_wait :: "channelFlow \<Rightarrow> bool" where [wire_defs]:
  "channelFlow_wait msg = True"

definition channelFlow_write :: "channelFlow \<Rightarrow> wr" where [wire_defs]:
  "channelFlow_write msg =
     Inr (put_u8 (flag_set 0 (channelFlow_Active msg) 0))"

definition channelFlow_read :: "channelFlow rd" where [wire_defs]:
  "channelFlow_read =
     rd_bind read_u8 (\<lambda>bits.
     rd_return \<lparr>channelFlow_Active = flag_test 0 bits\<rparr>)"

record channelFlowOk =
  channelFlowOk_Active :: bool

definition channelFlowOk_id :: "16 word \<times> 16 word" where [wire_defs]:
  "channelFlowOk_id = (20, 21)"

definition channelFlowOk_wait :: "channelFlowOk \<Rightarrow> bool" where [wire_defs]:
  "channelFlowOk_wait msg = False"

definition channelFlowOk_write :: "channelFlowOk \<Rightarrow> wr" where [wire_defs]:
  "channelFlowOk_write msg =
     Inr (put_u8 (flag_set 0 (channelFlowOk_Active msg) 0))"

definition channelFlowOk_read :: "channelFlowOk rd" where [wire_defs]:
  "channelFlowOk_read =
     rd_bind read_u8 (\<lambda>bits.
     rd_return \<lparr>channelFlowOk_Active = flag_test 0 bits\<rparr>)"

record channelClose =
  channelClose_ReplyCode :: "16 word"
  channelClose_ReplyText :: gostring
  channelClose_ClassId :: "16 word"
  channelClose_MethodId :: "16 word"

definition channelClose_id :: "16 word \<times> 16 word" where [wire_defs]:
  "channelClose_id = (20, 40)"

definition channelClose_wait :: "channelClose \<Rightarrow> bool" where [wire_defs]:
  "channelClose_wait msg = True"

definition channelClose_write :: "channelClose \<Rightarrow> wr" where [wire_defs]:
  "channelClose_write msg =
     wr_seq (Inr (put_u16 (channelClose_ReplyCode msg))) (
     wr_seq (Inr (write_shortstr (channelClose_ReplyText msg))) (
     wr_seq (Inr (put_u16 (channelClose_ClassId msg))) (
     Inr (put_u16 (channelClose_MethodId msg)))))"

definition channelClose_read :: "channelClose rd" where [wire_defs]:
  "channelClose_read =
     rd_bind read_u16 (\<lambda>replyCode.
     rd_bind read_shortstr (\<lambda>replyText.
     rd_bind read_u16 (\<lambda>classId.
     rd_bind read_u16 (\<lambda>methodId.
     rd_return \<lparr>channelClose_ReplyCode = replyCode, channelClose_ReplyText = replyText,
       channelClose_ClassId = classId, channelClose_MethodId = methodId\<rparr>))))"

type_synonym channelCloseOk = unit

definition channelCloseOk_id :: "16 word \<times> 16 word" where [wire_defs]:
  "channelCloseOk_id = (20, 41)"

definition channelCloseOk_wait :: "channelCloseOk \<Rightarrow> bool" where [wire_defs]:
  "channelCloseOk_wait msg = True"

definition channelCloseOk_write :: "channelCloseOk \<Rightarrow> wr" where [wire_defs]:
  "channelCloseOk_write msg =
     Inr []"

definition channelCloseOk_read :: "channelCloseOk rd" where [wire_defs]:
  "channelCloseOk_read =
     rd_return ()"

datatype channel_msg =
    ChannelOpen channelOpen
  | ChannelOpenOk channelOpenOk
  | ChannelFlow channelFlow
  | ChannelFlowOk channelFlowOk
  | ChannelClose channelClose
  | ChannelCloseOk channelCloseOk

fun channel_id :: "channel_msg \<Rightarrow> 16 word \<times> 16 word" where
  "channel_id (ChannelOpen msg) = channelOpen_id"
| "channel_id (ChannelOpenOk msg) = channelOpenOk_id"
| "channel_id (ChannelFlow msg) = channelFlow_id"
| "channel_id (ChannelFlowOk msg) = channelFlowOk_id"
| "channel_id (ChannelClose msg) = channelClose_id"
| "channel_id (ChannelCloseOk msg) = channelCloseOk_id"

fun channel_wait :: "channel_msg \<Rightarrow> bool" where
  "channel_wait (ChannelOpen msg) = channelOpen_wait msg"
| "channel_wait (ChannelOpenOk msg) = channelOpenOk_wait msg"
| "channel_wait (ChannelFlow msg) = channelFlow_wait msg"
| "channel_wait (ChannelFlowOk msg) = channelFlowOk_wait msg"
| "channel_wait (ChannelClose msg) = channelClose_wait msg"
| "channel_wait (ChannelCloseOk msg) = channelCloseOk_wait msg"

fun channel_write :: "channel_msg \<Rightarrow> wr" where
  "channel_write (ChannelOpen msg) = channelOpen_write msg"
| "channel_write (ChannelOpenOk msg) = channelOpenOk_write msg"
| "channel_write (ChannelFlow msg) = channelFlow_write msg"
| "channel_write (ChannelFlowOk msg) = channelFlowOk_write msg"
| "channel_write (ChannelClose msg) = channelClose_write msg"
| "channel_write (ChannelCloseOk msg) = channelCloseOk_write msg"

definition channel_parse :: "16 word \<Rightarrow> channel_msg rd" where
  "channel_parse methodId =
     (if methodId = 10 then rd_map ChannelOpen channelOpen_read
      else if methodId = 11 then rd_map ChannelOpenOk channelOpenOk_read
      else if methodId = 20 then rd_map ChannelFlow channelFlow_read
      else if methodId = 21 then rd_map ChannelFlowOk channelFlowOk_read
      else if methodId = 40 then rd_map ChannelClose channelClose_read
      else if methodId = 41 then rd_map ChannelCloseOk channelCloseOk_read
      else rd_fail (ErrUnknownMethod (unat methodId) 20))"

text \<open>The messages whose parts fit their length fields, and what the peer reads of them.\<close>

fun channel_ok :: "channel_msg \<Rightarrow> bool" where
  "channel_ok (ChannelOpen msg) = (length (channelOpen_reserved1 msg) < 256)"
| "channel_ok (ChannelOpenOk msg) = (length (channelOpenOk_reserved1 msg) < 2 ^ 31)"
| "channel_ok (ChannelFlow msg) = True"
| "channel_ok (ChannelFlowOk msg) = True"
| "channel_ok (ChannelClose msg) = (length (channelClose_ReplyText msg) < 256)"
| "channel_ok (ChannelCloseOk msg) = True"

fun channel_norm :: "channel_msg \<Rightarrow> channel_msg" where
  "channel_norm (ChannelOpen msg) = ChannelOpen msg"
| "channel_norm (ChannelOpenOk msg) = ChannelOpenOk msg"
| "channel_norm (ChannelFlow msg) = ChannelFlow msg"
| "channel_norm (ChannelFlowOk msg) = ChannelFlowOk msg"
| "channel_norm (ChannelClose msg) = ChannelClose msg"
| "channel_norm (ChannelCloseOk msg) = ChannelCloseOk msg"

lemma channel_written: "channel_ok m \<Longrightarrow> \<exists>bs. channel_write m = Inr bs"
  by (cases m) (auto simp: wire_defs dest: table_written)

lemma channel_readback:
  "channel_ok m \<Longrightarrow> channel_write m = Inr bs \<Longrightarrow>
   channel_parse (snd (channel_id m)) (bs @ rest) = (Inr (channel_norm m), rest)"
  by (cases m) (auto simp: channel_parse_def rd_map_def wire_defs rd_bind_def wr_seq_eq_Inr)

lemma channel_class: "fst (channel_id m) = 20"
  by (cases m) (simp_all add: wire_defs)

end
