(* ===== verification/MethodsTopology.thy ===== *)
theory MethodsTopology
  imports WireFields
begin

text \<open>
  The methods of the AMQP classes exchange and queue (spec091.go), which declare what a
  publishing goes through.  Each message of spec091.go is a record with its method
  identifier, whether a reply is awaited, its writer and its reader, in the order of the
  struct, id, wait, write and read of the source.
\<close>

section \<open>Class exchange\<close>

text \<open>
  Declaring, deleting and binding exchanges.
\<close>

record exchangeDeclare =
  exchangeDeclare_reserved1 :: "16 word"
  exchangeDeclare_Exchange :: gostring
  exchangeDeclare_Type :: gostring
  exchangeDeclare_Passive :: bool
  exchangeDeclare_Durable :: bool
  exchangeDeclare_AutoDelete :: bool
  exchangeDeclare_Internal :: bool
  exchangeDeclare_NoWait :: bool
  exchangeDeclare_Arguments :: table

definition exchangeDeclare_id :: "16 word \<times> 16 word" where [wire_defs]:
  "exchangeDeclare_id = (40, 10)"

definition exchangeDeclare_wait :: "exchangeDeclare \<Rightarrow> bool" where [wire_defs]:
  "exchangeDeclare_wait msg = (\<not> exchangeDeclare_NoWait msg)"

definition exchangeDeclare_write :: "exchangeDeclare \<Rightarrow> wr" where [wire_defs]:
  "exchangeDeclare_write msg =
     wr_seq (Inr (put_u16 (exchangeDeclare_reserved1 msg))) (
     wr_seq (Inr (write_shortstr (exchangeDeclare_Exchange msg))) (
     wr_seq (Inr (write_shortstr (exchangeDeclare_Type msg))) (
     wr_seq (Inr (put_u8 (flag_set 4 (exchangeDeclare_NoWait msg) (flag_set 3
       (exchangeDeclare_Internal msg) (flag_set 2 (exchangeDeclare_AutoDelete msg) (flag_set 1
       (exchangeDeclare_Durable msg) (flag_set 0 (exchangeDeclare_Passive msg) 0))))))) (
     write_table (exchangeDeclare_Arguments msg)))))"

definition exchangeDeclare_read :: "exchangeDeclare rd" where [wire_defs]:
  "exchangeDeclare_read =
     rd_bind read_u16 (\<lambda>reserved1.
     rd_bind read_shortstr (\<lambda>exchange.
     rd_bind read_shortstr (\<lambda>type.
     rd_bind read_u8 (\<lambda>bits.
     rd_bind read_table (\<lambda>arguments.
     rd_return \<lparr>exchangeDeclare_reserved1 = reserved1, exchangeDeclare_Exchange =
       exchange, exchangeDeclare_Type = type, exchangeDeclare_Passive = flag_test 0 bits,
       exchangeDeclare_Durable = flag_test 1 bits, exchangeDeclare_AutoDelete = flag_test 2
       bits, exchangeDeclare_Internal = flag_test 3 bits, exchangeDeclare_NoWait = flag_test 4
       bits, exchangeDeclare_Arguments = arguments\<rparr>)))))"

type_synonym exchangeDeclareOk = unit

definition exchangeDeclareOk_id :: "16 word \<times> 16 word" where [wire_defs]:
  "exchangeDeclareOk_id = (40, 11)"

definition exchangeDeclareOk_wait :: "exchangeDeclareOk \<Rightarrow> bool" where [wire_defs]:
  "exchangeDeclareOk_wait msg = True"

definition exchangeDeclareOk_write :: "exchangeDeclareOk \<Rightarrow> wr" where [wire_defs]:
  "exchangeDeclareOk_write msg =
     Inr []"

definition exchangeDeclareOk_read :: "exchangeDeclareOk rd" where [wire_defs]:
  "exchangeDeclareOk_read =
     rd_return ()"

record exchangeDelete =
  exchangeDelete_reserved1 :: "16 word"
  exchangeDelete_Exchange :: gostring
  exchangeDelete_IfUnused :: bool
  exchangeDelete_NoWait :: bool

definition exchangeDelete_id :: "16 word \<times> 16 word" where [wire_defs]:
  "exchangeDelete_id = (40, 20)"

definition exchangeDelete_wait :: "exchangeDelete \<Rightarrow> bool" where [wire_defs]:
  "exchangeDelete_wait msg = (\<not> exchangeDelete_NoWait msg)"

definition exchangeDelete_write :: "exchangeDelete \<Rightarrow> wr" where [wire_defs]:
  "exchangeDelete_write msg =
     wr_seq (Inr (put_u16 (exchangeDelete_reserved1 msg))) (
     wr_seq (Inr (write_shortstr (exchangeDelete_Exchange msg))) (
     Inr (put_u8 (flag_set 1 (exchangeDelete_NoWait msg) (flag_set 0 (exchangeDelete_IfUnused
       msg) 0)))))"

definition exchangeDelete_read :: "exchangeDelete rd" where [wire_defs]:
  "exchangeDelete_read =
     rd_bind read_u16 (\<lambda>reserved1.
     rd_bind read_shortstr (\<lambda>exchange.
     rd_bind read_u8 (\<lambda>bits.
     rd_return \<lparr>exchangeDelete_reserved1 = reserved1, exchangeDelete_Exchange = exchange,
       exchangeDelete_IfUnused = flag_test 0 bits, exchangeDelete_NoWait = flag_test 1
       bits\<rparr>)))"

type_synonym exchangeDeleteOk = unit

definition exchangeDeleteOk_id :: "16 word \<times> 16 word" where [wire_defs]:
  "exchangeDeleteOk_id = (40, 21)"

definition exchangeDeleteOk_wait :: "exchangeDeleteOk \<Rightarrow> bool" where [wire_defs]:
  "exchangeDeleteOk_wait msg = True"

definition exchangeDeleteOk_write :: "exchangeDeleteOk \<Rightarrow> wr" where [wire_defs]:
  "exchangeDeleteOk_write msg =
     Inr []"

definition exchangeDeleteOk_read :: "exchangeDeleteOk rd" where [wire_defs]:
  "exchangeDeleteOk_read =
     rd_return ()"

record exchangeBind =
  exchangeBind_reserved1 :: "16 word"
  exchangeBind_Destination :: gostring
  exchangeBind_Source :: gostring
  exchangeBind_RoutingKey :: gostring
  exchangeBind_NoWait :: bool
  exchangeBind_Arguments :: table

definition exchangeBind_id :: "16 word \<times> 16 word" where [wire_defs]:
  "exchangeBind_id = (40, 30)"

definition exchangeBind_wait :: "exchangeBind \<Rightarrow> bool" where [wire_defs]:
  "exchangeBind_wait msg = (\<not> exchangeBind_NoWait msg)"

definition exchangeBind_write :: "exchangeBind \<Rightarrow> wr" where [wire_defs]:
  "exchangeBind_write msg =
     wr_seq (Inr (put_u16 (exchangeBind_reserved1 msg))) (
     wr_seq (Inr (write_shortstr (exchangeBind_Destination msg))) (
     wr_seq (Inr (write_shortstr (exchangeBind_Source msg))) (
     wr_seq (Inr (write_shortstr (exchangeBind_RoutingKey msg))) (
     wr_seq (Inr (put_u8 (flag_set 0 (exchangeBind_NoWait msg) 0))) (
     write_table (exchangeBind_Arguments msg))))))"

definition exchangeBind_read :: "exchangeBind rd" where [wire_defs]:
  "exchangeBind_read =
     rd_bind read_u16 (\<lambda>reserved1.
     rd_bind read_shortstr (\<lambda>destination.
     rd_bind read_shortstr (\<lambda>source.
     rd_bind read_shortstr (\<lambda>routingKey.
     rd_bind read_u8 (\<lambda>bits.
     rd_bind read_table (\<lambda>arguments.
     rd_return \<lparr>exchangeBind_reserved1 = reserved1, exchangeBind_Destination =
       destination, exchangeBind_Source = source, exchangeBind_RoutingKey = routingKey,
       exchangeBind_NoWait = flag_test 0 bits, exchangeBind_Arguments = arguments\<rparr>))))))"

type_synonym exchangeBindOk = unit

definition exchangeBindOk_id :: "16 word \<times> 16 word" where [wire_defs]:
  "exchangeBindOk_id = (40, 31)"

definition exchangeBindOk_wait :: "exchangeBindOk \<Rightarrow> bool" where [wire_defs]:
  "exchangeBindOk_wait msg = True"

definition exchangeBindOk_write :: "exchangeBindOk \<Rightarrow> wr" where [wire_defs]:
  "exchangeBindOk_write msg =
     Inr []"

definition exchangeBindOk_read :: "exchangeBindOk rd" where [wire_defs]:
  "exchangeBindOk_read =
     rd_return ()"

record exchangeUnbind =
  exchangeUnbind_reserved1 :: "16 word"
  exchangeUnbind_Destination :: gostring
  exchangeUnbind_Source :: gostring
  exchangeUnbind_RoutingKey :: gostring
  exchangeUnbind_NoWait :: bool
  exchangeUnbind_Arguments :: table

definition exchangeUnbind_id :: "16 word \<times> 16 word" where [wire_defs]:
  "exchangeUnbind_id = (40, 40)"

definition exchangeUnbind_wait :: "exchangeUnbind \<Rightarrow> bool" where [wire_defs]:
  "exchangeUnbind_wait msg = (\<not> exchangeUnbind_NoWait msg)"

definition exchangeUnbind_write :: "exchangeUnbind \<Rightarrow> wr" where [wire_defs]:
  "exchangeUnbind_write msg =
     wr_seq (Inr (put_u16 (exchangeUnbind_reserved1 msg))) (
     wr_seq (Inr (write_shortstr (exchangeUnbind_Destination msg))) (
     wr_seq (Inr (write_shortstr (exchangeUnbind_Source msg))) (
     wr_seq (Inr (write_shortstr (exchangeUnbind_RoutingKey msg))) (
     wr_seq (Inr (put_u8 (flag_set 0 (exchangeUnbind_NoWait msg) 0))) (
     write_table (exchangeUnbind_Arguments msg))))))"

definition exchangeUnbind_read :: "exchangeUnbind rd" where [wire_defs]:
  "exchangeUnbind_read =
     rd_bind read_u16 (\<lambda>reserved1.
     rd_bind read_shortstr (\<lambda>destination.
     rd_bind read_shortstr (\<lambda>source.
     rd_bind read_shortstr (\<lambda>routingKey.
     rd_bind read_u8 (\<lambda>bits.
     rd_bind read_table (\<lambda>arguments.
     rd_return \<lparr>exchangeUnbind_reserved1 = reserved1, exchangeUnbind_Destination =
       destination, exchangeUnbind_Source = source, exchangeUnbind_RoutingKey = routingKey,
       exchangeUnbind_NoWait = flag_test 0 bits, exchangeUnbind_Arguments =
       arguments\<rparr>))))))"

type_synonym exchangeUnbindOk = unit

definition exchangeUnbindOk_id :: "16 word \<times> 16 word" where [wire_defs]:
  "exchangeUnbindOk_id = (40, 51)"

definition exchangeUnbindOk_wait :: "exchangeUnbindOk \<Rightarrow> bool" where [wire_defs]:
  "exchangeUnbindOk_wait msg = True"

definition exchangeUnbindOk_write :: "exchangeUnbindOk \<Rightarrow> wr" where [wire_defs]:
  "exchangeUnbindOk_write msg =
     Inr []"

definition exchangeUnbindOk_read :: "exchangeUnbindOk rd" where [wire_defs]:
  "exchangeUnbindOk_read =
     rd_return ()"

datatype exchange_msg =
    ExchangeDeclare exchangeDeclare
  | ExchangeDeclareOk exchangeDeclareOk
  | ExchangeDelete exchangeDelete
  | ExchangeDeleteOk exchangeDeleteOk
  | ExchangeBind exchangeBind
  | ExchangeBindOk exchangeBindOk
  | ExchangeUnbind exchangeUnbind
  | ExchangeUnbindOk exchangeUnbindOk

fun exchange_id :: "exchange_msg \<Rightarrow> 16 word \<times> 16 word" where
  "exchange_id (ExchangeDeclare msg) = exchangeDeclare_id"
| "exchange_id (ExchangeDeclareOk msg) = exchangeDeclareOk_id"
| "exchange_id (ExchangeDelete msg) = exchangeDelete_id"
| "exchange_id (ExchangeDeleteOk msg) = exchangeDeleteOk_id"
| "exchange_id (ExchangeBind msg) = exchangeBind_id"
| "exchange_id (ExchangeBindOk msg) = exchangeBindOk_id"
| "exchange_id (ExchangeUnbind msg) = exchangeUnbind_id"
| "exchange_id (ExchangeUnbindOk msg) = exchangeUnbindOk_id"

fun exchange_wait :: "exchange_msg \<Rightarrow> bool" where
  "exchange_wait (ExchangeDeclare msg) = exchangeDeclare_wait msg"
| "exchange_wait (ExchangeDeclareOk msg) = exchangeDeclareOk_wait msg"
| "exchange_wait (ExchangeDelete msg) = exchangeDelete_wait msg"
| "exchange_wait (ExchangeDeleteOk msg) = exchangeDeleteOk_wait msg"
| "exchange_wait (ExchangeBind msg) = exchangeBind_wait msg"
| "exchange_wait (ExchangeBindOk msg) = exchangeBindOk_wait msg"
| "exchange_wait (ExchangeUnbind msg) = exchangeUnbind_wait msg"
| "exchange_wait (ExchangeUnbindOk msg) = exchangeUnbindOk_wait msg"

fun exchange_write :: "exchange_msg \<Rightarrow> wr" where
  "exchange_write (ExchangeDeclare msg) = exchangeDeclare_write msg"
| "exchange_write (ExchangeDeclareOk msg) = exchangeDeclareOk_write msg"
| "exchange_write (ExchangeDelete msg) = exchangeDelete_write msg"
| "exchange_write (ExchangeDeleteOk msg) = exchangeDeleteOk_write msg"
| "exchange_write (ExchangeBind msg) = exchangeBind_write msg"
| "exchange_write (ExchangeBindOk msg) = exchangeBindOk_write msg"
| "exchange_write (ExchangeUnbind msg) = exchangeUnbind_write msg"
| "exchange_write (ExchangeUnbindOk msg) = exchangeUnbindOk_write msg"

definition exchange_parse :: "16 word \<Rightarrow> exchange_msg rd" where
  "exchange_parse methodId =
     (if methodId = 10 then rd_map ExchangeDeclare exchangeDeclare_read
      else if methodId = 11 then rd_map ExchangeDeclareOk exchangeDeclareOk_read
      else if methodId = 20 then rd_map ExchangeDelete exchangeDelete_read
      else if methodId = 21 then rd_map ExchangeDeleteOk exchangeDeleteOk_read
      else if methodId = 30 then rd_map ExchangeBind exchangeBind_read
      else if methodId = 31 then rd_map ExchangeBindOk exchangeBindOk_read
      else if methodId = 40 then rd_map ExchangeUnbind exchangeUnbind_read
      else if methodId = 51 then rd_map ExchangeUnbindOk exchangeUnbindOk_read
      else rd_fail (ErrUnknownMethod (unat methodId) 40))"

text \<open>The messages whose parts fit their length fields, and what the peer reads of them.\<close>

fun exchange_ok :: "exchange_msg \<Rightarrow> bool" where
  "exchange_ok (ExchangeDeclare msg) = (length (exchangeDeclare_Exchange msg) < 256 \<and>
       length (exchangeDeclare_Type msg) < 256 \<and> table_ok (exchangeDeclare_Arguments msg))"
| "exchange_ok (ExchangeDeclareOk msg) = True"
| "exchange_ok (ExchangeDelete msg) = (length (exchangeDelete_Exchange msg) < 256)"
| "exchange_ok (ExchangeDeleteOk msg) = True"
| "exchange_ok (ExchangeBind msg) = (length (exchangeBind_Destination msg) < 256 \<and> length
       (exchangeBind_Source msg) < 256 \<and> length (exchangeBind_RoutingKey msg) < 256 \<and>
       table_ok (exchangeBind_Arguments msg))"
| "exchange_ok (ExchangeBindOk msg) = True"
| "exchange_ok (ExchangeUnbind msg) = (length (exchangeUnbind_Destination msg) < 256 \<and>
       length (exchangeUnbind_Source msg) < 256 \<and> length (exchangeUnbind_RoutingKey msg) < 256
       \<and> table_ok (exchangeUnbind_Arguments msg))"
| "exchange_ok (ExchangeUnbindOk msg) = True"

fun exchange_norm :: "exchange_msg \<Rightarrow> exchange_msg" where
  "exchange_norm (ExchangeDeclare msg) = ExchangeDeclare (msg\<lparr>exchangeDeclare_Arguments
       := norm_entries (exchangeDeclare_Arguments msg)\<rparr>)"
| "exchange_norm (ExchangeDeclareOk msg) = ExchangeDeclareOk msg"
| "exchange_norm (ExchangeDelete msg) = ExchangeDelete msg"
| "exchange_norm (ExchangeDeleteOk msg) = ExchangeDeleteOk msg"
| "exchange_norm (ExchangeBind msg) = ExchangeBind (msg\<lparr>exchangeBind_Arguments :=
       norm_entries (exchangeBind_Arguments msg)\<rparr>)"
| "exchange_norm (ExchangeBindOk msg) = ExchangeBindOk msg"
| "exchange_norm (ExchangeUnbind msg) = ExchangeUnbind (msg\<lparr>exchangeUnbind_Arguments :=
       norm_entries (exchangeUnbind_Arguments msg)\<rparr>)"
| "exchange_norm (ExchangeUnbindOk msg) = ExchangeUnbindOk msg"

lemma exchange_written: "exchange_ok m \<Longrightarrow> \<exists>bs. exchange_write m = Inr bs"
  by (cases m) (auto simp: wire_defs dest: table_written)

lemma exchange_readback:
  "exchange_ok m \<Longrightarrow> exchange_write m = Inr bs \<Longrightarrow>
   exchange_parse (snd (exchange_id m)) (bs @ rest) = (Inr (exchange_norm m), rest)"
  by (cases m) (auto simp: exchange_parse_def rd_map_def wire_defs rd_bind_def wr_seq_eq_Inr)

lemma exchange_class: "fst (exchange_id m) = 40"
  by (cases m) (simp_all add: wire_defs)

section \<open>Class queue\<close>

text \<open>
  Declaring, binding, purging and deleting queues.
\<close>

record queueDeclare =
  queueDeclare_reserved1 :: "16 word"
  queueDeclare_Queue :: gostring
  queueDeclare_Passive :: bool
  queueDeclare_Durable :: bool
  queueDeclare_Exclusive :: bool
  queueDeclare_AutoDelete :: bool
  queueDeclare_NoWait :: bool
  queueDeclare_Arguments :: table

definition queueDeclare_id :: "16 word \<times> 16 word" where [wire_defs]:
  "queueDeclare_id = (50, 10)"

definition queueDeclare_wait :: "queueDeclare \<Rightarrow> bool" where [wire_defs]:
  "queueDeclare_wait msg = (\<not> queueDeclare_NoWait msg)"

definition queueDeclare_write :: "queueDeclare \<Rightarrow> wr" where [wire_defs]:
  "queueDeclare_write msg =
     wr_seq (Inr (put_u16 (queueDeclare_reserved1 msg))) (
     wr_seq (Inr (write_shortstr (queueDeclare_Queue msg))) (
     wr_seq (Inr (put_u8 (flag_set 4 (queueDeclare_NoWait msg) (flag_set 3
       (queueDeclare_AutoDelete msg) (flag_set 2 (queueDeclare_Exclusive msg) (flag_set 1
       (queueDeclare_Durable msg) (flag_set 0 (queueDeclare_Passive msg) 0))))))) (
     write_table (queueDeclare_Arguments msg))))"

definition queueDeclare_read :: "queueDeclare rd" where [wire_defs]:
  "queueDeclare_read =
     rd_bind read_u16 (\<lambda>reserved1.
     rd_bind read_shortstr (\<lambda>queue.
     rd_bind read_u8 (\<lambda>bits.
     rd_bind read_table (\<lambda>arguments.
     rd_return \<lparr>queueDeclare_reserved1 = reserved1, queueDeclare_Queue = queue,
       queueDeclare_Passive = flag_test 0 bits, queueDeclare_Durable = flag_test 1 bits,
       queueDeclare_Exclusive = flag_test 2 bits, queueDeclare_AutoDelete = flag_test 3 bits,
       queueDeclare_NoWait = flag_test 4 bits, queueDeclare_Arguments = arguments\<rparr>))))"

record queueDeclareOk =
  queueDeclareOk_Queue :: gostring
  queueDeclareOk_MessageCount :: "32 word"
  queueDeclareOk_ConsumerCount :: "32 word"

definition queueDeclareOk_id :: "16 word \<times> 16 word" where [wire_defs]:
  "queueDeclareOk_id = (50, 11)"

definition queueDeclareOk_wait :: "queueDeclareOk \<Rightarrow> bool" where [wire_defs]:
  "queueDeclareOk_wait msg = True"

definition queueDeclareOk_write :: "queueDeclareOk \<Rightarrow> wr" where [wire_defs]:
  "queueDeclareOk_write msg =
     wr_seq (Inr (write_shortstr (queueDeclareOk_Queue msg))) (
     wr_seq (Inr (put_u32 (queueDeclareOk_MessageCount msg))) (
     Inr (put_u32 (queueDeclareOk_ConsumerCount msg))))"

definition queueDeclareOk_read :: "queueDeclareOk rd" where [wire_defs]:
  "queueDeclareOk_read =
     rd_bind read_shortstr (\<lambda>queue.
     rd_bind read_u32 (\<lambda>messageCount.
     rd_bind read_u32 (\<lambda>consumerCount.
     rd_return \<lparr>queueDeclareOk_Queue = queue, queueDeclareOk_MessageCount = messageCount,
       queueDeclareOk_ConsumerCount = consumerCount\<rparr>)))"

record queueBind =
  queueBind_reserved1 :: "16 word"
  queueBind_Queue :: gostring
  queueBind_Exchange :: gostring
  queueBind_RoutingKey :: gostring
  queueBind_NoWait :: bool
  queueBind_Arguments :: table

definition queueBind_id :: "16 word \<times> 16 word" where [wire_defs]:
  "queueBind_id = (50, 20)"

definition queueBind_wait :: "queueBind \<Rightarrow> bool" where [wire_defs]:
  "queueBind_wait msg = (\<not> queueBind_NoWait msg)"

definition queueBind_write :: "queueBind \<Rightarrow> wr" where [wire_defs]:
  "queueBind_write msg =
     wr_seq (Inr (put_u16 (queueBind_reserved1 msg))) (
     wr_seq (Inr (write_shortstr (queueBind_Queue msg))) (
     wr_seq (Inr (write_shortstr (queueBind_Exchange msg))) (
     wr_seq (Inr (write_shortstr (queueBind_RoutingKey msg))) (
     wr_seq (Inr (put_u8 (flag_set 0 (queueBind_NoWait msg) 0))) (
     write_table (queueBind_Arguments msg))))))"

definition queueBind_read :: "queueBind rd" where [wire_defs]:
  "queueBind_read =
     rd_bind read_u16 (\<lambda>reserved1.
     rd_bind read_shortstr (\<lambda>queue.
     rd_bind read_shortstr (\<lambda>exchange.
     rd_bind read_shortstr (\<lambda>routingKey.
     rd_bind read_u8 (\<lambda>bits.
     rd_bind read_table (\<lambda>arguments.
     rd_return \<lparr>queueBind_reserved1 = reserved1, queueBind_Queue = queue,
       queueBind_Exchange = exchange, queueBind_RoutingKey = routingKey, queueBind_NoWait =
       flag_test 0 bits, queueBind_Arguments = arguments\<rparr>))))))"

type_synonym queueBindOk = unit

definition queueBindOk_id :: "16 word \<times> 16 word" where [wire_defs]:
  "queueBindOk_id = (50, 21)"

definition queueBindOk_wait :: "queueBindOk \<Rightarrow> bool" where [wire_defs]:
  "queueBindOk_wait msg = True"

definition queueBindOk_write :: "queueBindOk \<Rightarrow> wr" where [wire_defs]:
  "queueBindOk_write msg =
     Inr []"

definition queueBindOk_read :: "queueBindOk rd" where [wire_defs]:
  "queueBindOk_read =
     rd_return ()"

record queueUnbind =
  queueUnbind_reserved1 :: "16 word"
  queueUnbind_Queue :: gostring
  queueUnbind_Exchange :: gostring
  queueUnbind_RoutingKey :: gostring
  queueUnbind_Arguments :: table

definition queueUnbind_id :: "16 word \<times> 16 word" where [wire_defs]:
  "queueUnbind_id = (50, 50)"

definition queueUnbind_wait :: "queueUnbind \<Rightarrow> bool" where [wire_defs]:
  "queueUnbind_wait msg = True"

definition queueUnbind_write :: "queueUnbind \<Rightarrow> wr" where [wire_defs]:
  "queueUnbind_write msg =
     wr_seq (Inr (put_u16 (queueUnbind_reserved1 msg))) (
     wr_seq (Inr (write_shortstr (queueUnbind_Queue msg))) (
     wr_seq (Inr (write_shortstr (queueUnbind_Exchange msg))) (
     wr_seq (Inr (write_shortstr (queueUnbind_RoutingKey msg))) (
     write_table (queueUnbind_Arguments msg)))))"

definition queueUnbind_read :: "queueUnbind rd" where [wire_defs]:
  "queueUnbind_read =
     rd_bind read_u16 (\<lambda>reserved1.
     rd_bind read_shortstr (\<lambda>queue.
     rd_bind read_shortstr (\<lambda>exchange.
     rd_bind read_shortstr (\<lambda>routingKey.
     rd_bind read_table (\<lambda>arguments.
     rd_return \<lparr>queueUnbind_reserved1 = reserved1, queueUnbind_Queue = queue,
       queueUnbind_Exchange = exchange, queueUnbind_RoutingKey = routingKey,
       queueUnbind_Arguments = arguments\<rparr>)))))"

type_synonym queueUnbindOk = unit

definition queueUnbindOk_id :: "16 word \<times> 16 word" where [wire_defs]:
  "queueUnbindOk_id = (50, 51)"

definition queueUnbindOk_wait :: "queueUnbindOk \<Rightarrow> bool" where [wire_defs]:
  "queueUnbindOk_wait msg = True"

definition queueUnbindOk_write :: "queueUnbindOk \<Rightarrow> wr" where [wire_defs]:
  "queueUnbindOk_write msg =
     Inr []"

definition queueUnbindOk_read :: "queueUnbindOk rd" where [wire_defs]:
  "queueUnbindOk_read =
     rd_return ()"

record queuePurge =
  queuePurge_reserved1 :: "16 word"
  queuePurge_Queue :: gostring
  queuePurge_NoWait :: bool

definition queuePurge_id :: "16 word \<times> 16 word" where [wire_defs]:
  "queuePurge_id = (50, 30)"

definition queuePurge_wait :: "queuePurge \<Rightarrow> bool" where [wire_defs]:
  "queuePurge_wait msg = (\<not> queuePurge_NoWait msg)"

definition queuePurge_write :: "queuePurge \<Rightarrow> wr" where [wire_defs]:
  "queuePurge_write msg =
     wr_seq (Inr (put_u16 (queuePurge_reserved1 msg))) (
     wr_seq (Inr (write_shortstr (queuePurge_Queue msg))) (
     Inr (put_u8 (flag_set 0 (queuePurge_NoWait msg) 0))))"

definition queuePurge_read :: "queuePurge rd" where [wire_defs]:
  "queuePurge_read =
     rd_bind read_u16 (\<lambda>reserved1.
     rd_bind read_shortstr (\<lambda>queue.
     rd_bind read_u8 (\<lambda>bits.
     rd_return \<lparr>queuePurge_reserved1 = reserved1, queuePurge_Queue = queue,
       queuePurge_NoWait = flag_test 0 bits\<rparr>)))"

record queuePurgeOk =
  queuePurgeOk_MessageCount :: "32 word"

definition queuePurgeOk_id :: "16 word \<times> 16 word" where [wire_defs]:
  "queuePurgeOk_id = (50, 31)"

definition queuePurgeOk_wait :: "queuePurgeOk \<Rightarrow> bool" where [wire_defs]:
  "queuePurgeOk_wait msg = True"

definition queuePurgeOk_write :: "queuePurgeOk \<Rightarrow> wr" where [wire_defs]:
  "queuePurgeOk_write msg =
     Inr (put_u32 (queuePurgeOk_MessageCount msg))"

definition queuePurgeOk_read :: "queuePurgeOk rd" where [wire_defs]:
  "queuePurgeOk_read =
     rd_bind read_u32 (\<lambda>messageCount.
     rd_return \<lparr>queuePurgeOk_MessageCount = messageCount\<rparr>)"

record queueDelete =
  queueDelete_reserved1 :: "16 word"
  queueDelete_Queue :: gostring
  queueDelete_IfUnused :: bool
  queueDelete_IfEmpty :: bool
  queueDelete_NoWait :: bool

definition queueDelete_id :: "16 word \<times> 16 word" where [wire_defs]:
  "queueDelete_id = (50, 40)"

definition queueDelete_wait :: "queueDelete \<Rightarrow> bool" where [wire_defs]:
  "queueDelete_wait msg = (\<not> queueDelete_NoWait msg)"

definition queueDelete_write :: "queueDelete \<Rightarrow> wr" where [wire_defs]:
  "queueDelete_write msg =
     wr_seq (Inr (put_u16 (queueDelete_reserved1 msg))) (
     wr_seq (Inr (write_shortstr (queueDelete_Queue msg))) (
     Inr (put_u8 (flag_set 2 (queueDelete_NoWait msg) (flag_set 1 (queueDelete_IfEmpty msg)
       (flag_set 0 (queueDelete_IfUnused msg) 0))))))"

definition queueDelete_read :: "queueDelete rd" where [wire_defs]:
  "queueDelete_read =
     rd_bind read_u16 (\<lambda>reserved1.
     rd_bind read_shortstr (\<lambda>queue.
     rd_bind read_u8 (\<lambda>bits.
     rd_return \<lparr>queueDelete_reserved1 = reserved1, queueDelete_Queue = queue,
       queueDelete_IfUnused = flag_test 0 bits, queueDelete_IfEmpty = flag_test 1 bits,
       queueDelete_NoWait = flag_test 2 bits\<rparr>)))"

record queueDeleteOk =
  queueDeleteOk_MessageCount :: "32 word"

definition queueDeleteOk_id :: "16 word \<times> 16 word" where [wire_defs]:
  "queueDeleteOk_id = (50, 41)"

definition queueDeleteOk_wait :: "queueDeleteOk \<Rightarrow> bool" where [wire_defs]:
  "queueDeleteOk_wait msg = True"

definition queueDeleteOk_write :: "queueDeleteOk \<Rightarrow> wr" where [wire_defs]:
  "queueDeleteOk_write msg =
     Inr (put_u32 (queueDeleteOk_MessageCount msg))"

definition queueDeleteOk_read :: "queueDeleteOk rd" where [wire_defs]:
  "queueDeleteOk_read =
     rd_bind read_u32 (\<lambda>messageCount.
     rd_return \<lparr>queueDeleteOk_MessageCount = messageCount\<rparr>)"

datatype queue_msg =
    QueueDeclare queueDeclare
  | QueueDeclareOk queueDeclareOk
  | QueueBind queueBind
  | QueueBindOk queueBindOk
  | QueueUnbind queueUnbind
  | QueueUnbindOk queueUnbindOk
  | QueuePurge queuePurge
  | QueuePurgeOk queuePurgeOk
  | QueueDelete queueDelete
  | QueueDeleteOk queueDeleteOk

fun queue_id :: "queue_msg \<Rightarrow> 16 word \<times> 16 word" where
  "queue_id (QueueDeclare msg) = queueDeclare_id"
| "queue_id (QueueDeclareOk msg) = queueDeclareOk_id"
| "queue_id (QueueBind msg) = queueBind_id"
| "queue_id (QueueBindOk msg) = queueBindOk_id"
| "queue_id (QueueUnbind msg) = queueUnbind_id"
| "queue_id (QueueUnbindOk msg) = queueUnbindOk_id"
| "queue_id (QueuePurge msg) = queuePurge_id"
| "queue_id (QueuePurgeOk msg) = queuePurgeOk_id"
| "queue_id (QueueDelete msg) = queueDelete_id"
| "queue_id (QueueDeleteOk msg) = queueDeleteOk_id"

fun queue_wait :: "queue_msg \<Rightarrow> bool" where
  "queue_wait (QueueDeclare msg) = queueDeclare_wait msg"
| "queue_wait (QueueDeclareOk msg) = queueDeclareOk_wait msg"
| "queue_wait (QueueBind msg) = queueBind_wait msg"
| "queue_wait (QueueBindOk msg) = queueBindOk_wait msg"
| "queue_wait (QueueUnbind msg) = queueUnbind_wait msg"
| "queue_wait (QueueUnbindOk msg) = queueUnbindOk_wait msg"
| "queue_wait (QueuePurge msg) = queuePurge_wait msg"
| "queue_wait (QueuePurgeOk msg) = queuePurgeOk_wait msg"
| "queue_wait (QueueDelete msg) = queueDelete_wait msg"
| "queue_wait (QueueDeleteOk msg) = queueDeleteOk_wait msg"

fun queue_write :: "queue_msg \<Rightarrow> wr" where
  "queue_write (QueueDeclare msg) = queueDeclare_write msg"
| "queue_write (QueueDeclareOk msg) = queueDeclareOk_write msg"
| "queue_write (QueueBind msg) = queueBind_write msg"
| "queue_write (QueueBindOk msg) = queueBindOk_write msg"
| "queue_write (QueueUnbind msg) = queueUnbind_write msg"
| "queue_write (QueueUnbindOk msg) = queueUnbindOk_write msg"
| "queue_write (QueuePurge msg) = queuePurge_write msg"
| "queue_write (QueuePurgeOk msg) = queuePurgeOk_write msg"
| "queue_write (QueueDelete msg) = queueDelete_write msg"
| "queue_write (QueueDeleteOk msg) = queueDeleteOk_write msg"

definition queue_parse :: "16 word \<Rightarrow> queue_msg rd" where
  "queue_parse methodId =
     (if methodId = 10 then rd_map QueueDeclare queueDeclare_read
      else if methodId = 11 then rd_map QueueDeclareOk queueDeclareOk_read
      else if methodId = 20 then rd_map QueueBind queueBind_read
      else if methodId = 21 then rd_map QueueBindOk queueBindOk_read
      else if methodId = 50 then rd_map QueueUnbind queueUnbind_read
      else if methodId = 51 then rd_map QueueUnbindOk queueUnbindOk_read
      else if methodId = 30 then rd_map QueuePurge queuePurge_read
      else if methodId = 31 then rd_map QueuePurgeOk queuePurgeOk_read
      else if methodId = 40 then rd_map QueueDelete queueDelete_read
      else if methodId = 41 then rd_map QueueDeleteOk queueDeleteOk_read
      else rd_fail (ErrUnknownMethod (unat methodId) 50))"

text \<open>The messages whose parts fit their length fields, and what the peer reads of them.\<close>

fun queue_ok :: "queue_msg \<Rightarrow> bool" where
  "queue_ok (QueueDeclare msg) = (length (queueDeclare_Queue msg) < 256 \<and> table_ok
       (queueDeclare_Arguments msg))"
| "queue_ok (QueueDeclareOk msg) = (length (queueDeclareOk_Queue msg) < 256)"
| "queue_ok (QueueBind msg) = (length (queueBind_Queue msg) < 256 \<and> length
       (queueBind_Exchange msg) < 256 \<and> length (queueBind_RoutingKey msg) < 256 \<and> table_ok
       (queueBind_Arguments msg))"
| "queue_ok (QueueBindOk msg) = True"
| "queue_ok (QueueUnbind msg) = (length (queueUnbind_Queue msg) < 256 \<and> length
       (queueUnbind_Exchange msg) < 256 \<and> length (queueUnbind_RoutingKey msg) < 256 \<and>
       table_ok (queueUnbind_Arguments msg))"
| "queue_ok (QueueUnbindOk msg) = True"
| "queue_ok (QueuePurge msg) = (length (queuePurge_Queue msg) < 256)"
| "queue_ok (QueuePurgeOk msg) = True"
| "queue_ok (QueueDelete msg) = (length (queueDelete_Queue msg) < 256)"
| "queue_ok (QueueDeleteOk msg) = True"

fun queue_norm :: "queue_msg \<Rightarrow> queue_msg" where
  "queue_norm (QueueDeclare msg) = QueueDeclare (msg\<lparr>queueDeclare_Arguments :=
       norm_entries (queueDeclare_Arguments msg)\<rparr>)"
| "queue_norm (QueueDeclareOk msg) = QueueDeclareOk msg"
| "queue_norm (QueueBind msg) = QueueBind (msg\<lparr>queueBind_Arguments := norm_entries
       (queueBind_Arguments msg)\<rparr>)"
| "queue_norm (QueueBindOk msg) = QueueBindOk msg"
| "queue_norm (QueueUnbind msg) = QueueUnbind (msg\<lparr>queueUnbind_Arguments := norm_entries
       (queueUnbind_Arguments msg)\<rparr>)"
| "queue_norm (QueueUnbindOk msg) = QueueUnbindOk msg"
| "queue_norm (QueuePurge msg) = QueuePurge msg"
| "queue_norm (QueuePurgeOk msg) = QueuePurgeOk msg"
| "queue_norm (QueueDelete msg) = QueueDelete msg"
| "queue_norm (QueueDeleteOk msg) = QueueDeleteOk msg"

lemma queue_written: "queue_ok m \<Longrightarrow> \<exists>bs. queue_write m = Inr bs"
  by (cases m) (auto simp: wire_defs dest: table_written)

lemma queue_readback:
  "queue_ok m \<Longrightarrow> queue_write m = Inr bs \<Longrightarrow>
   queue_parse (snd (queue_id m)) (bs @ rest) = (Inr (queue_norm m), rest)"
  by (cases m) (auto simp: queue_parse_def rd_map_def wire_defs rd_bind_def wr_seq_eq_Inr)

lemma queue_class: "fst (queue_id m) = 50"
  by (cases m) (simp_all add: wire_defs)

end
