(* ===== verification/MethodsBasic.thy ===== *)
theory MethodsBasic
  imports WireFields
begin

text \<open>
  The methods of the AMQP class basic (spec091.go): publishing, consuming, acknowledging,
  with the content properties four of them carry.  Each message of spec091.go is a record
  with its method identifier, whether a reply is awaited, its writer and its reader, in the
  order of the struct, id, wait, write and read of the source.
\<close>

section \<open>Content properties\<close>

text \<open>
  The \<open>properties\<close> of a content header.
\<close>

record properties =
  prop_ContentType :: gostring
  prop_ContentEncoding :: gostring
  prop_Headers :: table
  prop_DeliveryMode :: "8 word"
  prop_Priority :: "8 word"
  prop_CorrelationId :: gostring
  prop_ReplyTo :: gostring
  prop_Expiration :: gostring
  prop_MessageId :: gostring
  prop_Timestamp :: gotime
  prop_Type :: gostring
  prop_UserId :: gostring
  prop_AppId :: gostring
  prop_reserved1 :: gostring

definition zero_properties :: properties where
  "zero_properties = \<lparr>prop_ContentType = '''', prop_ContentEncoding = '''', prop_Headers = [],
     prop_DeliveryMode = 0, prop_Priority = 0, prop_CorrelationId = '''', prop_ReplyTo = '''',
     prop_Expiration = '''', prop_MessageId = '''', prop_Timestamp = zero_time, prop_Type = '''',
     prop_UserId = '''', prop_AppId = '''', prop_reserved1 = ''''\<rparr>"


section \<open>Class basic\<close>

text \<open>
  Messages with content keep their properties and body beside the method: the method frame
  does not carry them, so reading leaves them at their zero values.
\<close>

record basicQos =
  basicQos_PrefetchSize :: "32 word"
  basicQos_PrefetchCount :: "16 word"
  basicQos_Global :: bool

definition basicQos_id :: "16 word \<times> 16 word" where [wire_defs]:
  "basicQos_id = (60, 10)"

definition basicQos_wait :: "basicQos \<Rightarrow> bool" where [wire_defs]:
  "basicQos_wait msg = True"

definition basicQos_write :: "basicQos \<Rightarrow> wr" where [wire_defs]:
  "basicQos_write msg =
     wr_seq (Inr (put_u32 (basicQos_PrefetchSize msg))) (
     wr_seq (Inr (put_u16 (basicQos_PrefetchCount msg))) (
     Inr (put_u8 (flag_set 0 (basicQos_Global msg) 0))))"

definition basicQos_read :: "basicQos rd" where [wire_defs]:
  "basicQos_read =
     rd_bind read_u32 (\<lambda>prefetchSize.
     rd_bind read_u16 (\<lambda>prefetchCount.
     rd_bind read_u8 (\<lambda>bits.
     rd_return \<lparr>basicQos_PrefetchSize = prefetchSize, basicQos_PrefetchCount =
       prefetchCount, basicQos_Global = flag_test 0 bits\<rparr>)))"

type_synonym basicQosOk = unit

definition basicQosOk_id :: "16 word \<times> 16 word" where [wire_defs]:
  "basicQosOk_id = (60, 11)"

definition basicQosOk_wait :: "basicQosOk \<Rightarrow> bool" where [wire_defs]:
  "basicQosOk_wait msg = True"

definition basicQosOk_write :: "basicQosOk \<Rightarrow> wr" where [wire_defs]:
  "basicQosOk_write msg =
     Inr []"

definition basicQosOk_read :: "basicQosOk rd" where [wire_defs]:
  "basicQosOk_read =
     rd_return ()"

record basicConsume =
  basicConsume_reserved1 :: "16 word"
  basicConsume_Queue :: gostring
  basicConsume_ConsumerTag :: gostring
  basicConsume_NoLocal :: bool
  basicConsume_NoAck :: bool
  basicConsume_Exclusive :: bool
  basicConsume_NoWait :: bool
  basicConsume_Arguments :: table

definition basicConsume_id :: "16 word \<times> 16 word" where [wire_defs]:
  "basicConsume_id = (60, 20)"

definition basicConsume_wait :: "basicConsume \<Rightarrow> bool" where [wire_defs]:
  "basicConsume_wait msg = (\<not> basicConsume_NoWait msg)"

definition basicConsume_write :: "basicConsume \<Rightarrow> wr" where [wire_defs]:
  "basicConsume_write msg =
     wr_seq (Inr (put_u16 (basicConsume_reserved1 msg))) (
     wr_seq (Inr (write_shortstr (basicConsume_Queue msg))) (
     wr_seq (Inr (write_shortstr (basicConsume_ConsumerTag msg))) (
     wr_seq (Inr (put_u8 (flag_set 3 (basicConsume_NoWait msg) (flag_set 2
       (basicConsume_Exclusive msg) (flag_set 1 (basicConsume_NoAck msg) (flag_set 0
       (basicConsume_NoLocal msg) 0)))))) (
     write_table (basicConsume_Arguments msg)))))"

definition basicConsume_read :: "basicConsume rd" where [wire_defs]:
  "basicConsume_read =
     rd_bind read_u16 (\<lambda>reserved1.
     rd_bind read_shortstr (\<lambda>queue.
     rd_bind read_shortstr (\<lambda>consumerTag.
     rd_bind read_u8 (\<lambda>bits.
     rd_bind read_table (\<lambda>arguments.
     rd_return \<lparr>basicConsume_reserved1 = reserved1, basicConsume_Queue = queue,
       basicConsume_ConsumerTag = consumerTag, basicConsume_NoLocal = flag_test 0 bits,
       basicConsume_NoAck = flag_test 1 bits, basicConsume_Exclusive = flag_test 2 bits,
       basicConsume_NoWait = flag_test 3 bits, basicConsume_Arguments = arguments\<rparr>)))))"

record basicConsumeOk =
  basicConsumeOk_ConsumerTag :: gostring

definition basicConsumeOk_id :: "16 word \<times> 16 word" where [wire_defs]:
  "basicConsumeOk_id = (60, 21)"

definition basicConsumeOk_wait :: "basicConsumeOk \<Rightarrow> bool" where [wire_defs]:
  "basicConsumeOk_wait msg = True"

definition basicConsumeOk_write :: "basicConsumeOk \<Rightarrow> wr" where [wire_defs]:
  "basicConsumeOk_write msg =
     Inr (write_shortstr (basicConsumeOk_ConsumerTag msg))"

definition basicConsumeOk_read :: "basicConsumeOk rd" where [wire_defs]:
  "basicConsumeOk_read =
     rd_bind read_shortstr (\<lambda>consumerTag.
     rd_return \<lparr>basicConsumeOk_ConsumerTag = consumerTag\<rparr>)"

record basicCancel =
  basicCancel_ConsumerTag :: gostring
  basicCancel_NoWait :: bool

definition basicCancel_id :: "16 word \<times> 16 word" where [wire_defs]:
  "basicCancel_id = (60, 30)"

definition basicCancel_wait :: "basicCancel \<Rightarrow> bool" where [wire_defs]:
  "basicCancel_wait msg = (\<not> basicCancel_NoWait msg)"

definition basicCancel_write :: "basicCancel \<Rightarrow> wr" where [wire_defs]:
  "basicCancel_write msg =
     wr_seq (Inr (write_shortstr (basicCancel_ConsumerTag msg))) (
     Inr (put_u8 (flag_set 0 (basicCancel_NoWait msg) 0)))"

definition basicCancel_read :: "basicCancel rd" where [wire_defs]:
  "basicCancel_read =
     rd_bind read_shortstr (\<lambda>consumerTag.
     rd_bind read_u8 (\<lambda>bits.
     rd_return \<lparr>basicCancel_ConsumerTag = consumerTag, basicCancel_NoWait = flag_test 0
       bits\<rparr>))"

record basicCancelOk =
  basicCancelOk_ConsumerTag :: gostring

definition basicCancelOk_id :: "16 word \<times> 16 word" where [wire_defs]:
  "basicCancelOk_id = (60, 31)"

definition basicCancelOk_wait :: "basicCancelOk \<Rightarrow> bool" where [wire_defs]:
  "basicCancelOk_wait msg = True"

definition basicCancelOk_write :: "basicCancelOk \<Rightarrow> wr" where [wire_defs]:
  "basicCancelOk_write msg =
     Inr (write_shortstr (basicCancelOk_ConsumerTag msg))"

definition basicCancelOk_read :: "basicCancelOk rd" where [wire_defs]:
  "basicCancelOk_read =
     rd_bind read_shortstr (\<lambda>consumerTag.
     rd_return \<lparr>basicCancelOk_ConsumerTag = consumerTag\<rparr>)"

record basicPublish =
  basicPublish_reserved1 :: "16 word"
  basicPublish_Exchange :: gostring
  basicPublish_RoutingKey :: gostring
  basicPublish_Mandatory :: bool
  basicPublish_Immediate :: bool
  basicPublish_Properties :: properties
  basicPublish_Body :: "byte list"

definition basicPublish_id :: "16 word \<times> 16 word" where [wire_defs]:
  "basicPublish_id = (60, 40)"

definition basicPublish_wait :: "basicPublish \<Rightarrow> bool" where [wire_defs]:
  "basicPublish_wait msg = False"

definition basicPublish_write :: "basicPublish \<Rightarrow> wr" where [wire_defs]:
  "basicPublish_write msg =
     wr_seq (Inr (put_u16 (basicPublish_reserved1 msg))) (
     wr_seq (Inr (write_shortstr (basicPublish_Exchange msg))) (
     wr_seq (Inr (write_shortstr (basicPublish_RoutingKey msg))) (
     Inr (put_u8 (flag_set 1 (basicPublish_Immediate msg) (flag_set 0 (basicPublish_Mandatory
       msg) 0))))))"

definition basicPublish_read :: "basicPublish rd" where [wire_defs]:
  "basicPublish_read =
     rd_bind read_u16 (\<lambda>reserved1.
     rd_bind read_shortstr (\<lambda>exchange.
     rd_bind read_shortstr (\<lambda>routingKey.
     rd_bind read_u8 (\<lambda>bits.
     rd_return \<lparr>basicPublish_reserved1 = reserved1, basicPublish_Exchange = exchange,
       basicPublish_RoutingKey = routingKey, basicPublish_Mandatory = flag_test 0 bits,
       basicPublish_Immediate = flag_test 1 bits, basicPublish_Properties = zero_properties,
       basicPublish_Body = []\<rparr>))))"

record basicReturn =
  basicReturn_ReplyCode :: "16 word"
  basicReturn_ReplyText :: gostring
  basicReturn_Exchange :: gostring
  basicReturn_RoutingKey :: gostring
  basicReturn_Properties :: properties
  basicReturn_Body :: "byte list"

definition basicReturn_id :: "16 word \<times> 16 word" where [wire_defs]:
  "basicReturn_id = (60, 50)"

definition basicReturn_wait :: "basicReturn \<Rightarrow> bool" where [wire_defs]:
  "basicReturn_wait msg = False"

definition basicReturn_write :: "basicReturn \<Rightarrow> wr" where [wire_defs]:
  "basicReturn_write msg =
     wr_seq (Inr (put_u16 (basicReturn_ReplyCode msg))) (
     wr_seq (Inr (write_shortstr (basicReturn_ReplyText msg))) (
     wr_seq (Inr (write_shortstr (basicReturn_Exchange msg))) (
     Inr (write_shortstr (basicReturn_RoutingKey msg)))))"

definition basicReturn_read :: "basicReturn rd" where [wire_defs]:
  "basicReturn_read =
     rd_bind read_u16 (\<lambda>replyCode.
     rd_bind read_shortstr (\<lambda>replyText.
     rd_bind read_shortstr (\<lambda>exchange.
     rd_bind read_shortstr (\<lambda>routingKey.
     rd_return \<lparr>basicReturn_ReplyCode = replyCode, basicReturn_ReplyText = replyText,
       basicReturn_Exchange = exchange, basicReturn_RoutingKey = routingKey,
       basicReturn_Properties = zero_properties, basicReturn_Body = []\<rparr>))))"

record basicDeliver =
  basicDeliver_ConsumerTag :: gostring
  basicDeliver_DeliveryTag :: "64 word"
  basicDeliver_Redelivered :: bool
  basicDeliver_Exchange :: gostring
  basicDeliver_RoutingKey :: gostring
  basicDeliver_Properties :: properties
  basicDeliver_Body :: "byte list"

definition basicDeliver_id :: "16 word \<times> 16 word" where [wire_defs]:
  "basicDeliver_id = (60, 60)"

definition basicDeliver_wait :: "basicDeliver \<Rightarrow> bool" where [wire_defs]:
  "basicDeliver_wait msg = False"

definition basicDeliver_write :: "basicDeliver \<Rightarrow> wr" where [wire_defs]:
  "basicDeliver_write msg =
     wr_seq (Inr (write_shortstr (basicDeliver_ConsumerTag msg))) (
     wr_seq (Inr (put_u64 (basicDeliver_DeliveryTag msg))) (
     wr_seq (Inr (put_u8 (flag_set 0 (basicDeliver_Redelivered msg) 0))) (
     wr_seq (Inr (write_shortstr (basicDeliver_Exchange msg))) (
     Inr (write_shortstr (basicDeliver_RoutingKey msg))))))"

definition basicDeliver_read :: "basicDeliver rd" where [wire_defs]:
  "basicDeliver_read =
     rd_bind read_shortstr (\<lambda>consumerTag.
     rd_bind read_u64 (\<lambda>deliveryTag.
     rd_bind read_u8 (\<lambda>bits.
     rd_bind read_shortstr (\<lambda>exchange.
     rd_bind read_shortstr (\<lambda>routingKey.
     rd_return \<lparr>basicDeliver_ConsumerTag = consumerTag, basicDeliver_DeliveryTag =
       deliveryTag, basicDeliver_Redelivered = flag_test 0 bits, basicDeliver_Exchange =
       exchange, basicDeliver_RoutingKey = routingKey, basicDeliver_Properties =
       zero_properties, basicDeliver_Body = []\<rparr>)))))"

record basicGet =
  basicGet_reserved1 :: "16 word"
  basicGet_Queue :: gostring
  basicGet_NoAck :: bool

definition basicGet_id :: "16 word \<times> 16 word" where [wire_defs]:
  "basicGet_id = (60, 70)"

definition basicGet_wait :: "basicGet \<Rightarrow> bool" where [wire_defs]:
  "basicGet_wait msg = True"

definition basicGet_write :: "basicGet \<Rightarrow> wr" where [wire_defs]:
  "basicGet_write msg =
     wr_seq (Inr (put_u16 (basicGet_reserved1 msg))) (
     wr_seq (Inr (write_shortstr (basicGet_Queue msg))) (
     Inr (put_u8 (flag_set 0 (basicGet_NoAck msg) 0))))"

definition basicGet_read :: "basicGet rd" where [wire_defs]:
  "basicGet_read =
     rd_bind read_u16 (\<lambda>reserved1.
     rd_bind read_shortstr (\<lambda>queue.
     rd_bind read_u8 (\<lambda>bits.
     rd_return \<lparr>basicGet_reserved1 = reserved1, basicGet_Queue = queue, basicGet_NoAck =
       flag_test 0 bits\<rparr>)))"

record basicGetOk =
  basicGetOk_DeliveryTag :: "64 word"
  basicGetOk_Redelivered :: bool
  basicGetOk_Exchange :: gostring
  basicGetOk_RoutingKey :: gostring
  basicGetOk_MessageCount :: "32 word"
  basicGetOk_Properties :: properties
  basicGetOk_Body :: "byte list"

definition basicGetOk_id :: "16 word \<times> 16 word" where [wire_defs]:
  "basicGetOk_id = (60, 71)"

definition basicGetOk_wait :: "basicGetOk \<Rightarrow> bool" where [wire_defs]:
  "basicGetOk_wait msg = True"

definition basicGetOk_write :: "basicGetOk \<Rightarrow> wr" where [wire_defs]:
  "basicGetOk_write msg =
     wr_seq (Inr (put_u64 (basicGetOk_DeliveryTag msg))) (
     wr_seq (Inr (put_u8 (flag_set 0 (basicGetOk_Redelivered msg) 0))) (
     wr_seq (Inr (write_shortstr (basicGetOk_Exchange msg))) (
     wr_seq (Inr (write_shortstr (basicGetOk_RoutingKey msg))) (
     Inr (put_u32 (basicGetOk_MessageCount msg))))))"

definition basicGetOk_read :: "basicGetOk rd" where [wire_defs]:
  "basicGetOk_read =
     rd_bind read_u64 (\<lambda>deliveryTag.
     rd_bind read_u8 (\<lambda>bits.
     rd_bind read_shortstr (\<lambda>exchange.
     rd_bind read_shortstr (\<lambda>routingKey.
     rd_bind read_u32 (\<lambda>messageCount.
     rd_return \<lparr>basicGetOk_DeliveryTag = deliveryTag, basicGetOk_Redelivered = flag_test
       0 bits, basicGetOk_Exchange = exchange, basicGetOk_RoutingKey = routingKey,
       basicGetOk_MessageCount = messageCount, basicGetOk_Properties = zero_properties,
       basicGetOk_Body = []\<rparr>)))))"

record basicGetEmpty =
  basicGetEmpty_reserved1 :: gostring

definition basicGetEmpty_id :: "16 word \<times> 16 word" where [wire_defs]:
  "basicGetEmpty_id = (60, 72)"

definition basicGetEmpty_wait :: "basicGetEmpty \<Rightarrow> bool" where [wire_defs]:
  "basicGetEmpty_wait msg = True"

definition basicGetEmpty_write :: "basicGetEmpty \<Rightarrow> wr" where [wire_defs]:
  "basicGetEmpty_write msg =
     Inr (write_shortstr (basicGetEmpty_reserved1 msg))"

definition basicGetEmpty_read :: "basicGetEmpty rd" where [wire_defs]:
  "basicGetEmpty_read =
     rd_bind read_shortstr (\<lambda>reserved1.
     rd_return \<lparr>basicGetEmpty_reserved1 = reserved1\<rparr>)"

record basicAck =
  basicAck_DeliveryTag :: "64 word"
  basicAck_Multiple :: bool

definition basicAck_id :: "16 word \<times> 16 word" where [wire_defs]:
  "basicAck_id = (60, 80)"

definition basicAck_wait :: "basicAck \<Rightarrow> bool" where [wire_defs]:
  "basicAck_wait msg = False"

definition basicAck_write :: "basicAck \<Rightarrow> wr" where [wire_defs]:
  "basicAck_write msg =
     wr_seq (Inr (put_u64 (basicAck_DeliveryTag msg))) (
     Inr (put_u8 (flag_set 0 (basicAck_Multiple msg) 0)))"

definition basicAck_read :: "basicAck rd" where [wire_defs]:
  "basicAck_read =
     rd_bind read_u64 (\<lambda>deliveryTag.
     rd_bind read_u8 (\<lambda>bits.
     rd_return \<lparr>basicAck_DeliveryTag = deliveryTag, basicAck_Multiple = flag_test 0
       bits\<rparr>))"

record basicReject =
  basicReject_DeliveryTag :: "64 word"
  basicReject_Requeue :: bool

definition basicReject_id :: "16 word \<times> 16 word" where [wire_defs]:
  "basicReject_id = (60, 90)"

definition basicReject_wait :: "basicReject \<Rightarrow> bool" where [wire_defs]:
  "basicReject_wait msg = False"

definition basicReject_write :: "basicReject \<Rightarrow> wr" where [wire_defs]:
  "basicReject_write msg =
     wr_seq (Inr (put_u64 (basicReject_DeliveryTag msg))) (
     Inr (put_u8 (flag_set 0 (basicReject_Requeue msg) 0)))"

definition basicReject_read :: "basicReject rd" where [wire_defs]:
  "basicReject_read =
     rd_bind read_u64 (\<lambda>deliveryTag.
     rd_bind read_u8 (\<lambda>bits.
     rd_return \<lparr>basicReject_DeliveryTag = deliveryTag, basicReject_Requeue = flag_test 0
       bits\<rparr>))"

record basicRecoverAsync =
  basicRecoverAsync_Requeue :: bool

definition basicRecoverAsync_id :: "16 word \<times> 16 word" where [wire_defs]:
  "basicRecoverAsync_id = (60, 100)"

definition basicRecoverAsync_wait :: "basicRecoverAsync \<Rightarrow> bool" where [wire_defs]:
  "basicRecoverAsync_wait msg = False"

definition basicRecoverAsync_write :: "basicRecoverAsync \<Rightarrow> wr" where [wire_defs]:
  "basicRecoverAsync_write msg =
     Inr (put_u8 (flag_set 0 (basicRecoverAsync_Requeue msg) 0))"

definition basicRecoverAsync_read :: "basicRecoverAsync rd" where [wire_defs]:
  "basicRecoverAsync_read =
     rd_bind read_u8 (\<lambda>bits.
     rd_return \<lparr>basicRecoverAsync_Requeue = flag_test 0 bits\<rparr>)"

record basicRecover =
  basicRecover_Requeue :: bool

definition basicRecover_id :: "16 word \<times> 16 word" where [wire_defs]:
  "basicRecover_id = (60, 110)"

definition basicRecover_wait :: "basicRecover \<Rightarrow> bool" where [wire_defs]:
  "basicRecover_wait msg = True"

definition basicRecover_write :: "basicRecover \<Rightarrow> wr" where [wire_defs]:
  "basicRecover_write msg =
     Inr (put_u8 (flag_set 0 (basicRecover_Requeue msg) 0))"

definition basicRecover_read :: "basicRecover rd" where [wire_defs]:
  "basicRecover_read =
     rd_bind read_u8 (\<lambda>bits.
     rd_return \<lparr>basicRecover_Requeue = flag_test 0 bits\<rparr>)"

type_synonym basicRecoverOk = unit

definition basicRecoverOk_id :: "16 word \<times> 16 word" where [wire_defs]:
  "basicRecoverOk_id = (60, 111)"

definition basicRecoverOk_wait :: "basicRecoverOk \<Rightarrow> bool" where [wire_defs]:
  "basicRecoverOk_wait msg = True"

definition basicRecoverOk_write :: "basicRecoverOk \<Rightarrow> wr" where [wire_defs]:
  "basicRecoverOk_write msg =
     Inr []"

definition basicRecoverOk_read :: "basicRecoverOk rd" where [wire_defs]:
  "basicRecoverOk_read =
     rd_return ()"

record basicNack =
  basicNack_DeliveryTag :: "64 word"
  basicNack_Multiple :: bool
  basicNack_Requeue :: bool

definition basicNack_id :: "16 word \<times> 16 word" where [wire_defs]:
  "basicNack_id = (60, 120)"

definition basicNack_wait :: "basicNack \<Rightarrow> bool" where [wire_defs]:
  "basicNack_wait msg = False"

definition basicNack_write :: "basicNack \<Rightarrow> wr" where [wire_defs]:
  "basicNack_write msg =
     wr_seq (Inr (put_u64 (basicNack_DeliveryTag msg))) (
     Inr (put_u8 (flag_set 1 (basicNack_Requeue msg) (flag_set 0 (basicNack_Multiple msg) 0))))"

definition basicNack_read :: "basicNack rd" where [wire_defs]:
  "basicNack_read =
     rd_bind read_u64 (\<lambda>deliveryTag.
     rd_bind read_u8 (\<lambda>bits.
     rd_return \<lparr>basicNack_DeliveryTag = deliveryTag, basicNack_Multiple = flag_test 0
       bits, basicNack_Requeue = flag_test 1 bits\<rparr>))"

datatype basic_msg =
    BasicQos basicQos
  | BasicQosOk basicQosOk
  | BasicConsume basicConsume
  | BasicConsumeOk basicConsumeOk
  | BasicCancel basicCancel
  | BasicCancelOk basicCancelOk
  | BasicPublish basicPublish
  | BasicReturn basicReturn
  | BasicDeliver basicDeliver
  | BasicGet basicGet
  | BasicGetOk basicGetOk
  | BasicGetEmpty basicGetEmpty
  | BasicAck basicAck
  | BasicReject basicReject
  | BasicRecoverAsync basicRecoverAsync
  | BasicRecover basicRecover
  | BasicRecoverOk basicRecoverOk
  | BasicNack basicNack

fun basic_id :: "basic_msg \<Rightarrow> 16 word \<times> 16 word" where
  "basic_id (BasicQos msg) = basicQos_id"
| "basic_id (BasicQosOk msg) = basicQosOk_id"
| "basic_id (BasicConsume msg) = basicConsume_id"
| "basic_id (BasicConsumeOk msg) = basicConsumeOk_id"
| "basic_id (BasicCancel msg) = basicCancel_id"
| "basic_id (BasicCancelOk msg) = basicCancelOk_id"
| "basic_id (BasicPublish msg) = basicPublish_id"
| "basic_id (BasicReturn msg) = basicReturn_id"
| "basic_id (BasicDeliver msg) = basicDeliver_id"
| "basic_id (BasicGet msg) = basicGet_id"
| "basic_id (BasicGetOk msg) = basicGetOk_id"
| "basic_id (BasicGetEmpty msg) = basicGetEmpty_id"
| "basic_id (BasicAck msg) = basicAck_id"
| "basic_id (BasicReject msg) = basicReject_id"
| "basic_id (BasicRecoverAsync msg) = basicRecoverAsync_id"
| "basic_id (BasicRecover msg) = basicRecover_id"
| "basic_id (BasicRecoverOk msg) = basicRecoverOk_id"
| "basic_id (BasicNack msg) = basicNack_id"

fun basic_wait :: "basic_msg \<Rightarrow> bool" where
  "basic_wait (BasicQos msg) = basicQos_wait msg"
| "basic_wait (BasicQosOk msg) = basicQosOk_wait msg"
| "basic_wait (BasicConsume msg) = basicConsume_wait msg"
| "basic_wait (BasicConsumeOk msg) = basicConsumeOk_wait msg"
| "basic_wait (BasicCancel msg) = basicCancel_wait msg"
| "basic_wait (BasicCancelOk msg) = basicCancelOk_wait msg"
| "basic_wait (BasicPublish msg) = basicPublish_wait msg"
| "basic_wait (BasicReturn msg) = basicReturn_wait msg"
| "basic_wait (BasicDeliver msg) = basicDeliver_wait msg"
| "basic_wait (BasicGet msg) = basicGet_wait msg"
| "basic_wait (BasicGetOk msg) = basicGetOk_wait msg"
| "basic_wait (BasicGetEmpty msg) = basicGetEmpty_wait msg"
| "basic_wait (BasicAck msg) = basicAck_wait msg"
| "basic_wait (BasicReject msg) = basicReject_wait msg"
| "basic_wait (BasicRecoverAsync msg) = basicRecoverAsync_wait msg"
| "basic_wait (BasicRecover msg) = basicRecover_wait msg"
| "basic_wait (BasicRecoverOk msg) = basicRecoverOk_wait msg"
| "basic_wait (BasicNack msg) = basicNack_wait msg"

fun basic_write :: "basic_msg \<Rightarrow> wr" where
  "basic_write (BasicQos msg) = basicQos_write msg"
| "basic_write (BasicQosOk msg) = basicQosOk_write msg"
| "basic_write (BasicConsume msg) = basicConsume_write msg"
| "basic_write (BasicConsumeOk msg) = basicConsumeOk_write msg"
| "basic_write (BasicCancel msg) = basicCancel_write msg"
| "basic_write (BasicCancelOk msg) = basicCancelOk_write msg"
| "basic_write (BasicPublish msg) = basicPublish_write msg"
| "basic_write (BasicReturn msg) = basicReturn_write msg"
| "basic_write (BasicDeliver msg) = basicDeliver_write msg"
| "basic_write (BasicGet msg) = basicGet_write msg"
| "basic_write (BasicGetOk msg) = basicGetOk_write msg"
| "basic_write (BasicGetEmpty msg) = basicGetEmpty_write msg"
| "basic_write (BasicAck msg) = basicAck_write msg"
| "basic_write (BasicReject msg) = basicReject_write msg"
| "basic_write (BasicRecoverAsync msg) = basicRecoverAsync_write msg"
| "basic_write (BasicRecover msg) = basicRecover_write msg"
| "basic_write (BasicRecoverOk msg) = basicRecoverOk_write msg"
| "basic_write (BasicNack msg) = basicNack_write msg"

definition basic_parse :: "16 word \<Rightarrow> basic_msg rd" where
  "basic_parse methodId =
     (if methodId = 10 then rd_map BasicQos basicQos_read
      else if methodId = 11 then rd_map BasicQosOk basicQosOk_read
      else if methodId = 20 then rd_map BasicConsume basicConsume_read
      else if methodId = 21 then rd_map BasicConsumeOk basicConsumeOk_read
      else if methodId = 30 then rd_map BasicCancel basicCancel_read
      else if methodId = 31 then rd_map BasicCancelOk basicCancelOk_read
      else if methodId = 40 then rd_map BasicPublish basicPublish_read
      else if methodId = 50 then rd_map BasicReturn basicReturn_read
      else if methodId = 60 then rd_map BasicDeliver basicDeliver_read
      else if methodId = 70 then rd_map BasicGet basicGet_read
      else if methodId = 71 then rd_map BasicGetOk basicGetOk_read
      else if methodId = 72 then rd_map BasicGetEmpty basicGetEmpty_read
      else if methodId = 80 then rd_map BasicAck basicAck_read
      else if methodId = 90 then rd_map BasicReject basicReject_read
      else if methodId = 100 then rd_map BasicRecoverAsync basicRecoverAsync_read
      else if methodId = 110 then rd_map BasicRecover basicRecover_read
      else if methodId = 111 then rd_map BasicRecoverOk basicRecoverOk_read
      else if methodId = 120 then rd_map BasicNack basicNack_read
      else rd_fail (ErrUnknownMethod (unat methodId) 60))"

text \<open>The messages whose parts fit their length fields, and what the peer reads of them.\<close>

fun basic_ok :: "basic_msg \<Rightarrow> bool" where
  "basic_ok (BasicQos msg) = True"
| "basic_ok (BasicQosOk msg) = True"
| "basic_ok (BasicConsume msg) = (length (basicConsume_Queue msg) < 256 \<and> length
       (basicConsume_ConsumerTag msg) < 256 \<and> table_ok (basicConsume_Arguments msg))"
| "basic_ok (BasicConsumeOk msg) = (length (basicConsumeOk_ConsumerTag msg) < 256)"
| "basic_ok (BasicCancel msg) = (length (basicCancel_ConsumerTag msg) < 256)"
| "basic_ok (BasicCancelOk msg) = (length (basicCancelOk_ConsumerTag msg) < 256)"
| "basic_ok (BasicPublish msg) = (length (basicPublish_Exchange msg) < 256 \<and> length
       (basicPublish_RoutingKey msg) < 256)"
| "basic_ok (BasicReturn msg) = (length (basicReturn_ReplyText msg) < 256 \<and> length
       (basicReturn_Exchange msg) < 256 \<and> length (basicReturn_RoutingKey msg) < 256)"
| "basic_ok (BasicDeliver msg) = (length (basicDeliver_ConsumerTag msg) < 256 \<and> length
       (basicDeliver_Exchange msg) < 256 \<and> length (basicDeliver_RoutingKey msg) < 256)"
| "basic_ok (BasicGet msg) = (length (basicGet_Queue msg) < 256)"
| "basic_ok (BasicGetOk msg) = (length (basicGetOk_Exchange msg) < 256 \<and> length
       (basicGetOk_RoutingKey msg) < 256)"
| "basic_ok (BasicGetEmpty msg) = (length (basicGetEmpty_reserved1 msg) < 256)"
| "basic_ok (BasicAck msg) = True"
| "basic_ok (BasicReject msg) = True"
| "basic_ok (BasicRecoverAsync msg) = True"
| "basic_ok (BasicRecover msg) = True"
| "basic_ok (BasicRecoverOk msg) = True"
| "basic_ok (BasicNack msg) = True"

fun basic_norm :: "basic_msg \<Rightarrow> basic_msg" where
  "basic_norm (BasicQos msg) = BasicQos msg"
| "basic_norm (BasicQosOk msg) = BasicQosOk msg"
| "basic_norm (BasicConsume msg) = BasicConsume (msg\<lparr>basicConsume_Arguments :=
       norm_entries (basicConsume_Arguments msg)\<rparr>)"
| "basic_norm (BasicConsumeOk msg) = BasicConsumeOk msg"
| "basic_norm (BasicCancel msg) = BasicCancel msg"
| "basic_norm (BasicCancelOk msg) = BasicCancelOk msg"
| "basic_norm (BasicPublish msg) = BasicPublish (msg\<lparr>basicPublish_Properties :=
       zero_properties, basicPublish_Body := []\<rparr>)"
| "basic_norm (BasicReturn msg) = BasicReturn (msg\<lparr>basicReturn_Properties :=
       zero_properties, basicReturn_Body := []\<rparr>)"
| "basic_norm (BasicDeliver msg) = BasicDeliver (msg\<lparr>basicDeliver_Properties :=
       zero_properties, basicDeliver_Body := []\<rparr>)"
| "basic_norm (BasicGet msg) = BasicGet msg"
| "basic_norm (BasicGetOk msg) = BasicGetOk (msg\<lparr>basicGetOk_Properties :=
       zero_properties, basicGetOk_Body := []\<rparr>)"
| "basic_norm (BasicGetEmpty msg) = BasicGetEmpty msg"
| "basic_norm (BasicAck msg) = BasicAck msg"
| "basic_norm (BasicReject msg) = BasicReject msg"
| "basic_norm (BasicRecoverAsync msg) = BasicRecoverAsync msg"
| "basic_norm (BasicRecover msg) = BasicRecover msg"
| "basic_norm (BasicRecoverOk msg) = BasicRecoverOk msg"
| "basic_norm (BasicNack msg) = BasicNack msg"

lemma basic_written: "basic_ok m \<Longrightarrow> \<exists>bs. basic_write m = Inr bs"
  by (cases m) (auto simp: wire_defs dest: table_written)

lemma basic_readback:
  "basic_ok m \<Longrightarrow> basic_write m = Inr bs \<Longrightarrow>
   basic_parse (snd (basic_id m)) (bs @ rest) = (Inr (basic_norm m), rest)"
  by (cases m) (auto simp: basic_parse_def rd_map_def wire_defs rd_bind_def wr_seq_eq_Inr)

lemma basic_class: "fst (basic_id m) = 60"
  by (cases m) (simp_all add: wire_defs)

section \<open>Messages with content\<close>

text \<open>The interface \<open>messageWithContent\<close>: \<open>getContent\<close> and \<open>setContent\<close>.\<close>

fun get_content :: "basic_msg \<Rightarrow> (properties \<times> byte list) option" where
  "get_content (BasicPublish msg) = Some (basicPublish_Properties msg, basicPublish_Body msg)"
| "get_content (BasicReturn msg) = Some (basicReturn_Properties msg, basicReturn_Body msg)"
| "get_content (BasicDeliver msg) = Some (basicDeliver_Properties msg, basicDeliver_Body msg)"
| "get_content (BasicGetOk msg) = Some (basicGetOk_Properties msg, basicGetOk_Body msg)"
| "get_content _ = None"

fun set_content :: "properties \<Rightarrow> byte list \<Rightarrow> basic_msg \<Rightarrow> basic_msg" where
  "set_content p b (BasicPublish msg) =
     BasicPublish (msg\<lparr>basicPublish_Properties := p, basicPublish_Body := b\<rparr>)"
| "set_content p b (BasicReturn msg) =
     BasicReturn (msg\<lparr>basicReturn_Properties := p, basicReturn_Body := b\<rparr>)"
| "set_content p b (BasicDeliver msg) =
     BasicDeliver (msg\<lparr>basicDeliver_Properties := p, basicDeliver_Body := b\<rparr>)"
| "set_content p b (BasicGetOk msg) =
     BasicGetOk (msg\<lparr>basicGetOk_Properties := p, basicGetOk_Body := b\<rparr>)"
| "set_content p b m = m"

lemma get_set_content: "get_content m \<noteq> None \<Longrightarrow> get_content (set_content p b m) = Some (p, b)"
  by (cases m) auto

lemma set_content_norm:
  "get_content m = Some (p, b) \<Longrightarrow> set_content p b (basic_norm m) = m"
  by (cases m) auto


end
