(* ===== verification/Methods.thy ===== *)
theory Methods
  imports MethodsConnection MethodsTopology MethodsBasic
begin

text \<open>
  The methods of the classes tx and confirm, the union of all messages, and the dispatch on
  the class and method identifiers (parseMethodFrame of spec091.go).
\<close>

section \<open>Class tx\<close>

text \<open>
  Transactions.
\<close>

type_synonym txSelect = unit

definition txSelect_id :: "16 word \<times> 16 word" where [wire_defs]:
  "txSelect_id = (90, 10)"

definition txSelect_wait :: "txSelect \<Rightarrow> bool" where [wire_defs]:
  "txSelect_wait msg = True"

definition txSelect_write :: "txSelect \<Rightarrow> wr" where [wire_defs]:
  "txSelect_write msg =
     Inr []"

definition txSelect_read :: "txSelect rd" where [wire_defs]:
  "txSelect_read =
     rd_return ()"

type_synonym txSelectOk = unit

definition txSelectOk_id :: "16 word \<times> 16 word" where [wire_defs]:
  "txSelectOk_id = (90, 11)"

definition txSelectOk_wait :: "txSelectOk \<Rightarrow> bool" where [wire_defs]:
  "txSelectOk_wait msg = True"

definition txSelectOk_write :: "txSelectOk \<Rightarrow> wr" where [wire_defs]:
  "txSelectOk_write msg =
     Inr []"

definition txSelectOk_read :: "txSelectOk rd" where [wire_defs]:
  "txSelectOk_read =
     rd_return ()"

type_synonym txCommit = unit

definition txCommit_id :: "16 word \<times> 16 word" where [wire_defs]:
  "txCommit_id = (90, 20)"

definition txCommit_wait :: "txCommit \<Rightarrow> bool" where [wire_defs]:
  "txCommit_wait msg = True"

definition txCommit_write :: "txCommit \<Rightarrow> wr" where [wire_defs]:
  "txCommit_write msg =
     Inr []"

definition txCommit_read :: "txCommit rd" where [wire_defs]:
  "txCommit_read =
     rd_return ()"

type_synonym txCommitOk = unit

definition txCommitOk_id :: "16 word \<times> 16 word" where [wire_defs]:
  "txCommitOk_id = (90, 21)"

definition txCommitOk_wait :: "txCommitOk \<Rightarrow> bool" where [wire_defs]:
  "txCommitOk_wait msg = True"

definition txCommitOk_write :: "txCommitOk \<Rightarrow> wr" where [wire_defs]:
  "txCommitOk_write msg =
     Inr []"

definition txCommitOk_read :: "txCommitOk rd" where [wire_defs]:
  "txCommitOk_read =
     rd_return ()"

type_synonym txRollback = unit

definition txRollback_id :: "16 word \<times> 16 word" where [wire_defs]:
  "txRollback_id = (90, 30)"

definition txRollback_wait :: "txRollback \<Rightarrow> bool" where [wire_defs]:
  "txRollback_wait msg = True"

definition txRollback_write :: "txRollback \<Rightarrow> wr" where [wire_defs]:
  "txRollback_write msg =
     Inr []"

definition txRollback_read :: "txRollback rd" where [wire_defs]:
  "txRollback_read =
     rd_return ()"

type_synonym txRollbackOk = unit

definition txRollbackOk_id :: "16 word \<times> 16 word" where [wire_defs]:
  "txRollbackOk_id = (90, 31)"

definition txRollbackOk_wait :: "txRollbackOk \<Rightarrow> bool" where [wire_defs]:
  "txRollbackOk_wait msg = True"

definition txRollbackOk_write :: "txRollbackOk \<Rightarrow> wr" where [wire_defs]:
  "txRollbackOk_write msg =
     Inr []"

definition txRollbackOk_read :: "txRollbackOk rd" where [wire_defs]:
  "txRollbackOk_read =
     rd_return ()"

datatype tx_msg =
    TxSelect txSelect
  | TxSelectOk txSelectOk
  | TxCommit txCommit
  | TxCommitOk txCommitOk
  | TxRollback txRollback
  | TxRollbackOk txRollbackOk

fun tx_id :: "tx_msg \<Rightarrow> 16 word \<times> 16 word" where
  "tx_id (TxSelect msg) = txSelect_id"
| "tx_id (TxSelectOk msg) = txSelectOk_id"
| "tx_id (TxCommit msg) = txCommit_id"
| "tx_id (TxCommitOk msg) = txCommitOk_id"
| "tx_id (TxRollback msg) = txRollback_id"
| "tx_id (TxRollbackOk msg) = txRollbackOk_id"

fun tx_wait :: "tx_msg \<Rightarrow> bool" where
  "tx_wait (TxSelect msg) = txSelect_wait msg"
| "tx_wait (TxSelectOk msg) = txSelectOk_wait msg"
| "tx_wait (TxCommit msg) = txCommit_wait msg"
| "tx_wait (TxCommitOk msg) = txCommitOk_wait msg"
| "tx_wait (TxRollback msg) = txRollback_wait msg"
| "tx_wait (TxRollbackOk msg) = txRollbackOk_wait msg"

fun tx_write :: "tx_msg \<Rightarrow> wr" where
  "tx_write (TxSelect msg) = txSelect_write msg"
| "tx_write (TxSelectOk msg) = txSelectOk_write msg"
| "tx_write (TxCommit msg) = txCommit_write msg"
| "tx_write (TxCommitOk msg) = txCommitOk_write msg"
| "tx_write (TxRollback msg) = txRollback_write msg"
| "tx_write (TxRollbackOk msg) = txRollbackOk_write msg"

definition tx_parse :: "16 word \<Rightarrow> tx_msg rd" where
  "tx_parse methodId =
     (if methodId = 10 then rd_map TxSelect txSelect_read
      else if methodId = 11 then rd_map TxSelectOk txSelectOk_read
      else if methodId = 20 then rd_map TxCommit txCommit_read
      else if methodId = 21 then rd_map TxCommitOk txCommitOk_read
      else if methodId = 30 then rd_map TxRollback txRollback_read
      else if methodId = 31 then rd_map TxRollbackOk txRollbackOk_read
      else rd_fail (ErrUnknownMethod (unat methodId) 90))"

text \<open>The messages whose parts fit their length fields, and what the peer reads of them.\<close>

fun tx_ok :: "tx_msg \<Rightarrow> bool" where
  "tx_ok (TxSelect msg) = True"
| "tx_ok (TxSelectOk msg) = True"
| "tx_ok (TxCommit msg) = True"
| "tx_ok (TxCommitOk msg) = True"
| "tx_ok (TxRollback msg) = True"
| "tx_ok (TxRollbackOk msg) = True"

fun tx_norm :: "tx_msg \<Rightarrow> tx_msg" where
  "tx_norm (TxSelect msg) = TxSelect msg"
| "tx_norm (TxSelectOk msg) = TxSelectOk msg"
| "tx_norm (TxCommit msg) = TxCommit msg"
| "tx_norm (TxCommitOk msg) = TxCommitOk msg"
| "tx_norm (TxRollback msg) = TxRollback msg"
| "tx_norm (TxRollbackOk msg) = TxRollbackOk msg"

lemma tx_written: "tx_ok m \<Longrightarrow> \<exists>bs. tx_write m = Inr bs"
  by (cases m) (auto simp: wire_defs dest: table_written)

lemma tx_readback:
  "tx_ok m \<Longrightarrow> tx_write m = Inr bs \<Longrightarrow>
   tx_parse (snd (tx_id m)) (bs @ rest) = (Inr (tx_norm m), rest)"
  by (cases m) (auto simp: tx_parse_def rd_map_def wire_defs rd_bind_def wr_seq_eq_Inr)

lemma tx_class: "fst (tx_id m) = 90"
  by (cases m) (simp_all add: wire_defs)

section \<open>Class confirm\<close>

text \<open>
  Publisher confirms.
\<close>

record confirmSelect =
  confirmSelect_Nowait :: bool

definition confirmSelect_id :: "16 word \<times> 16 word" where [wire_defs]:
  "confirmSelect_id = (85, 10)"

definition confirmSelect_wait :: "confirmSelect \<Rightarrow> bool" where [wire_defs]:
  "confirmSelect_wait msg = True"

definition confirmSelect_write :: "confirmSelect \<Rightarrow> wr" where [wire_defs]:
  "confirmSelect_write msg =
     Inr (put_u8 (flag_set 0 (confirmSelect_Nowait msg) 0))"

definition confirmSelect_read :: "confirmSelect rd" where [wire_defs]:
  "confirmSelect_read =
     rd_bind read_u8 (\<lambda>bits.
     rd_return \<lparr>confirmSelect_Nowait = flag_test 0 bits\<rparr>)"

type_synonym confirmSelectOk = unit

definition confirmSelectOk_id :: "16 word \<times> 16 word" where [wire_defs]:
  "confirmSelectOk_id = (85, 11)"

definition confirmSelectOk_wait :: "confirmSelectOk \<Rightarrow> bool" where [wire_defs]:
  "confirmSelectOk_wait msg = True"

definition confirmSelectOk_write :: "confirmSelectOk \<Rightarrow> wr" where [wire_defs]:
  "confirmSelectOk_write msg =
     Inr []"

definition confirmSelectOk_read :: "confirmSelectOk rd" where [wire_defs]:
  "confirmSelectOk_read =
     rd_return ()"

datatype confirm_msg =
    ConfirmSelect confirmSelect
  | ConfirmSelectOk confirmSelectOk

fun confirm_id :: "confirm_msg \<Rightarrow> 16 word \<times> 16 word" where
  "confirm_id (ConfirmSelect msg) = confirmSelect_id"
| "confirm_id (ConfirmSelectOk msg) = confirmSelectOk_id"

fun confirm_wait :: "confirm_msg \<Rightarrow> bool" where
  "confirm_wait (ConfirmSelect msg) = confirmSelect_wait msg"
| "confirm_wait (ConfirmSelectOk msg) = confirmSelectOk_wait msg"

fun confirm_write :: "confirm_msg \<Rightarrow> wr" where
  "confirm_write (ConfirmSelect msg) = confirmSelect_write msg"
| "confirm_write (ConfirmSelectOk msg) = confirmSelectOk_write msg"

definition confirm_parse :: "16 word \<Rightarrow> confirm_msg rd" where
  "confirm_parse methodId =
     (if methodId = 10 then rd_map ConfirmSelect confirmSelect_read
      else if methodId = 11 then rd_map ConfirmSelectOk confirmSelectOk_read
      else rd_fail (ErrUnknownMethod (unat methodId) 85))"

text \<open>The messages whose parts fit their length fields, and what the peer reads of them.\<close>

fun confirm_ok :: "confirm_msg \<Rightarrow> bool" where
  "confirm_ok (ConfirmSelect msg) = True"
| "confirm_ok (ConfirmSelectOk msg) = True"

fun confirm_norm :: "confirm_msg \<Rightarrow> confirm_msg" where
  "confirm_norm (ConfirmSelect msg) = ConfirmSelect msg"
| "confirm_norm (ConfirmSelectOk msg) = ConfirmSelectOk msg"

lemma confirm_written: "confirm_ok m \<Longrightarrow> \<exists>bs. confirm_write m = Inr bs"
  by (cases m) (auto simp: wire_defs dest: table_written)

lemma confirm_readback:
  "confirm_ok m \<Longrightarrow> confirm_write m = Inr bs \<Longrightarrow>
   confirm_parse (snd (confirm_id m)) (bs @ rest) = (Inr (confirm_norm m), rest)"
  by (cases m) (auto simp: confirm_parse_def rd_map_def wire_defs rd_bind_def wr_seq_eq_Inr)

lemma confirm_class: "fst (confirm_id m) = 85"
  by (cases m) (simp_all add: wire_defs)

section \<open>All messages\<close>

datatype message =
    MConnection connection_msg
  | MChannel channel_msg
  | MExchange exchange_msg
  | MQueue queue_msg
  | MBasic basic_msg
  | MTx tx_msg
  | MConfirm confirm_msg

fun message_id :: "message \<Rightarrow> 16 word \<times> 16 word" where
  "message_id (MConnection m) = connection_id m"
| "message_id (MChannel m) = channel_id m"
| "message_id (MExchange m) = exchange_id m"
| "message_id (MQueue m) = queue_id m"
| "message_id (MBasic m) = basic_id m"
| "message_id (MTx m) = tx_id m"
| "message_id (MConfirm m) = confirm_id m"

fun message_wait :: "message \<Rightarrow> bool" where
  "message_wait (MConnection m) = connection_wait m"
| "message_wait (MChannel m) = channel_wait m"
| "message_wait (MExchange m) = exchange_wait m"
| "message_wait (MQueue m) = queue_wait m"
| "message_wait (MBasic m) = basic_wait m"
| "message_wait (MTx m) = tx_wait m"
| "message_wait (MConfirm m) = confirm_wait m"

fun message_write :: "message \<Rightarrow> wr" where
  "message_write (MConnection m) = connection_write m"
| "message_write (MChannel m) = channel_write m"
| "message_write (MExchange m) = exchange_write m"
| "message_write (MQueue m) = queue_write m"
| "message_write (MBasic m) = basic_write m"
| "message_write (MTx m) = tx_write m"
| "message_write (MConfirm m) = confirm_write m"

definition message_parse :: "16 word \<Rightarrow> 16 word \<Rightarrow> message rd" where
  "message_parse classId methodId =
     (if classId = 10 then rd_map MConnection (connection_parse methodId)
      else if classId = 20 then rd_map MChannel (channel_parse methodId)
      else if classId = 40 then rd_map MExchange (exchange_parse methodId)
      else if classId = 50 then rd_map MQueue (queue_parse methodId)
      else if classId = 60 then rd_map MBasic (basic_parse methodId)
      else if classId = 90 then rd_map MTx (tx_parse methodId)
      else if classId = 85 then rd_map MConfirm (confirm_parse methodId)
      else rd_fail (ErrUnknownClass (unat classId)))"

fun message_ok :: "message \<Rightarrow> bool" where
  "message_ok (MConnection m) = connection_ok m"
| "message_ok (MChannel m) = channel_ok m"
| "message_ok (MExchange m) = exchange_ok m"
| "message_ok (MQueue m) = queue_ok m"
| "message_ok (MBasic m) = basic_ok m"
| "message_ok (MTx m) = tx_ok m"
| "message_ok (MConfirm m) = confirm_ok m"

fun message_norm :: "message \<Rightarrow> message" where
  "message_norm (MConnection m) = MConnection (connection_norm m)"
| "message_norm (MChannel m) = MChannel (channel_norm m)"
| "message_norm (MExchange m) = MExchange (exchange_norm m)"
| "message_norm (MQueue m) = MQueue (queue_norm m)"
| "message_norm (MBasic m) = MBasic (basic_norm m)"
| "message_norm (MTx m) = MTx (tx_norm m)"
| "message_norm (MConfirm m) = MConfirm (confirm_norm m)"

lemmas class_written = connection_written channel_written exchange_written queue_written
  basic_written tx_written confirm_written

lemmas class_readback = connection_readback channel_readback exchange_readback queue_readback
  basic_readback tx_readback confirm_readback

lemmas class_ids = connection_class channel_class exchange_class queue_class basic_class
  tx_class confirm_class

lemma message_written: "message_ok m \<Longrightarrow> \<exists>bs. message_write m = Inr bs"
  by (cases m) (simp_all add: class_written)

lemma message_readback:
  "message_ok m \<Longrightarrow> message_write m = Inr bs \<Longrightarrow>
   message_parse (fst (message_id m)) (snd (message_id m)) (bs @ rest) = (Inr (message_norm m), rest)"
  by (cases m) (simp_all add: message_parse_def class_ids rd_map_def rd_bind_def class_readback)


end
