(* ===== verification/FrameCodec.thy ===== *)
theory FrameCodec
  imports Methods
begin

text \<open>
  Frames: the four frame types of \<open>types.go\<close>, their writers (\<open>write.go\<close>) and \<open>ReadFrame\<close>
  with its parsers (\<open>read.go\<close>, \<open>parseMethodFrame\<close> of \<open>spec091.go\<close>). The reader applied to
  written frames gives them back one after the other, which is what the connection's
  multiplexing rests on.
\<close>

section \<open>Frame types\<close>

record method_frame =
  mf_ChannelId :: "16 word"
  mf_ClassId :: "16 word"
  mf_MethodId :: "16 word"
  mf_Method :: "message option"

record heartbeat_frame =
  hb_ChannelId :: "16 word"

record header_frame =
  hf_ChannelId :: "16 word"
  hf_ClassId :: "16 word"
  hf_weight :: "16 word"
  hf_Size :: "64 word"
  hf_Properties :: properties

record body_frame =
  bf_ChannelId :: "16 word"
  bf_Body :: "byte list"

datatype frame =
    MethodFrame method_frame
  | HeaderFrame header_frame
  | BodyFrame body_frame
  | HeartbeatFrame heartbeat_frame

fun frame_channel :: "frame \<Rightarrow> 16 word" where
  "frame_channel (MethodFrame f) = mf_ChannelId f"
| "frame_channel (HeaderFrame f) = hf_ChannelId f"
| "frame_channel (BodyFrame f) = bf_ChannelId f"
| "frame_channel (HeartbeatFrame f) = hb_ChannelId f"

definition frameMethod :: byte where [wire_defs]: "frameMethod = 1"
definition frameHeader :: byte where [wire_defs]: "frameHeader = 2"
definition frameBody :: byte where [wire_defs]: "frameBody = 3"
definition frameHeartbeat :: byte where [wire_defs]: "frameHeartbeat = 8"
definition frameEnd :: byte where [wire_defs]: "frameEnd = 206"
definition frameMinSize :: nat where "frameMinSize = 4096"

section \<open>Property flags\<close>

definition flagContentType :: "16 word" where "flagContentType = 0x8000"
definition flagContentEncoding :: "16 word" where "flagContentEncoding = 0x4000"
definition flagHeaders :: "16 word" where "flagHeaders = 0x2000"
definition flagDeliveryMode :: "16 word" where "flagDeliveryMode = 0x1000"
definition flagPriority :: "16 word" where "flagPriority = 0x0800"
definition flagCorrelationId :: "16 word" where "flagCorrelationId = 0x0400"
definition flagReplyTo :: "16 word" where "flagReplyTo = 0x0200"
definition flagExpiration :: "16 word" where "flagExpiration = 0x0100"
definition flagMessageId :: "16 word" where "flagMessageId = 0x0080"
definition flagTimestamp :: "16 word" where "flagTimestamp = 0x0040"
definition flagType :: "16 word" where "flagType = 0x0020"
definition flagUserId :: "16 word" where "flagUserId = 0x0010"
definition flagAppId :: "16 word" where "flagAppId = 0x0008"
definition flagReserved1 :: "16 word" where "flagReserved1 = 0x0004"

definition has_property :: "16 word \<Rightarrow> 16 word \<Rightarrow> bool" where
  "has_property m prop \<longleftrightarrow> m AND prop > 0"

text \<open>\<open>if b { mask = mask | flag }\<close>\<close>

definition mask_or :: "bool \<Rightarrow> 16 word \<Rightarrow> 16 word \<Rightarrow> 16 word" where
  "mask_or b flag m = (if b then m OR flag else m)"

definition is_zero_time :: "gotime \<Rightarrow> bool" where
  "is_zero_time t \<longleftrightarrow> t = zero_time"

definition header_mask :: "properties \<Rightarrow> 16 word" where
  "header_mask p =
     mask_or (length (prop_AppId p) > 0) flagAppId (
     mask_or (length (prop_UserId p) > 0) flagUserId (
     mask_or (length (prop_Type p) > 0) flagType (
     mask_or (\<not> is_zero_time (prop_Timestamp p)) flagTimestamp (
     mask_or (length (prop_MessageId p) > 0) flagMessageId (
     mask_or (length (prop_Expiration p) > 0) flagExpiration (
     mask_or (length (prop_ReplyTo p) > 0) flagReplyTo (
     mask_or (length (prop_CorrelationId p) > 0) flagCorrelationId (
     mask_or (prop_Priority p > 0) flagPriority (
     mask_or (prop_DeliveryMode p > 0) flagDeliveryMode (
     mask_or (length (prop_Headers p) > 0) flagHeaders (
     mask_or (length (prop_ContentEncoding p) > 0) flagContentEncoding (
     mask_or (length (prop_ContentType p) > 0) flagContentType 0))))))))))))"

section \<open>Writing frames\<close>

definition write_frame :: "byte \<Rightarrow> 16 word \<Rightarrow> byte list \<Rightarrow> byte list" where
  "write_frame typ channel payload =
     (let size = word_of_nat (length payload) :: 64 word in
      [typ,
       ucast (drop_bit 8 (channel AND 0xff00)),
       ucast (channel AND 0x00ff),
       ucast (drop_bit 24 (size AND 0xff000000)),
       ucast (drop_bit 16 (size AND 0x00ff0000)),
       ucast (drop_bit 8 (size AND 0x0000ff00)),
       ucast (size AND 0x000000ff)] @ payload @ [frameEnd])"

definition wr_frame :: "byte \<Rightarrow> 16 word \<Rightarrow> wr \<Rightarrow> wr" where
  "wr_frame typ channel payload =
     (case payload of Inl e \<Rightarrow> Inl e | Inr b \<Rightarrow> Inr (write_frame typ channel b))"

definition method_frame_write :: "method_frame \<Rightarrow> wr" where
  "method_frame_write f =
     (case mf_Method f of
        None \<Rightarrow> Inl ErrMissingMethod
      | Some m \<Rightarrow>
          (let (class, method) = message_id m
           in wr_frame frameMethod (mf_ChannelId f)
                (wr_seq (Inr (put_u16 class)) (wr_seq (Inr (put_u16 method)) (message_write m)))))"

definition heartbeat_frame_write :: "heartbeat_frame \<Rightarrow> wr" where
  "heartbeat_frame_write f = Inr (write_frame frameHeartbeat (hb_ChannelId f) [])"

definition wr_if :: "bool \<Rightarrow> wr \<Rightarrow> wr" where
  "wr_if b w = (if b then w else Inr [])"

definition header_payload :: "header_frame \<Rightarrow> wr" where
  "header_payload f =
     (let p = hf_Properties f; mask = header_mask p in
      wr_seq (Inr (put_u16 (hf_ClassId f))) (
      wr_seq (Inr (put_u16 (hf_weight f))) (
      wr_seq (Inr (put_u64 (hf_Size f))) (
      wr_seq (Inr (put_u16 mask)) (
      wr_seq (wr_if (has_property mask flagContentType) (Inr (write_shortstr (prop_ContentType p)))) (
      wr_seq (wr_if (has_property mask flagContentEncoding) (Inr (write_shortstr (prop_ContentEncoding p)))) (
      wr_seq (wr_if (has_property mask flagHeaders) (write_table (prop_Headers p))) (
      wr_seq (wr_if (has_property mask flagDeliveryMode) (Inr (put_u8 (prop_DeliveryMode p)))) (
      wr_seq (wr_if (has_property mask flagPriority) (Inr (put_u8 (prop_Priority p)))) (
      wr_seq (wr_if (has_property mask flagCorrelationId) (Inr (write_shortstr (prop_CorrelationId p)))) (
      wr_seq (wr_if (has_property mask flagReplyTo) (Inr (write_shortstr (prop_ReplyTo p)))) (
      wr_seq (wr_if (has_property mask flagExpiration) (Inr (write_shortstr (prop_Expiration p)))) (
      wr_seq (wr_if (has_property mask flagMessageId) (Inr (write_shortstr (prop_MessageId p)))) (
      wr_seq (wr_if (has_property mask flagTimestamp) (Inr (put_u64 (fst (prop_Timestamp p))))) (
      wr_seq (wr_if (has_property mask flagType) (Inr (write_shortstr (prop_Type p)))) (
      wr_seq (wr_if (has_property mask flagUserId) (Inr (write_shortstr (prop_UserId p))))
        (wr_if (has_property mask flagAppId) (Inr (write_shortstr (prop_AppId p))))))))))))))))))))"

definition header_frame_write :: "header_frame \<Rightarrow> wr" where
  "header_frame_write f = wr_frame frameHeader (hf_ChannelId f) (header_payload f)"

definition body_frame_write :: "body_frame \<Rightarrow> wr" where
  "body_frame_write f = Inr (write_frame frameBody (bf_ChannelId f) (bf_Body f))"

fun frame_write :: "frame \<Rightarrow> wr" where
  "frame_write (MethodFrame f) = method_frame_write f"
| "frame_write (HeaderFrame f) = header_frame_write f"
| "frame_write (BodyFrame f) = body_frame_write f"
| "frame_write (HeartbeatFrame f) = heartbeat_frame_write f"

definition protocol_header :: "byte list" where
  "protocol_header = [byte_of CHR ''A'', byte_of CHR ''M'', byte_of CHR ''Q'', byte_of CHR ''P'', 0, 0, 9, 1]"

section \<open>Reading frames\<close>

definition parse_method_frame :: "16 word \<Rightarrow> 32 word \<Rightarrow> frame rd" where
  "parse_method_frame channel sz =
     rd_bind read_u16 (\<lambda>classId.
     rd_bind read_u16 (\<lambda>methodId.
     rd_bind (message_parse classId methodId) (\<lambda>method.
     rd_return (MethodFrame \<lparr>mf_ChannelId = channel, mf_ClassId = classId, mf_MethodId = methodId,
                             mf_Method = Some method\<rparr>))))"

definition rd_if :: "bool \<Rightarrow> 'a rd \<Rightarrow> 'a \<Rightarrow> 'a rd" where
  "rd_if b m d = (if b then m else rd_return d)"

definition parse_header_frame :: "16 word \<Rightarrow> 32 word \<Rightarrow> frame rd" where
  "parse_header_frame channel sz =
     rd_bind read_u16 (\<lambda>classId.
     rd_bind read_u16 (\<lambda>weight.
     rd_bind read_u64 (\<lambda>bodySize.
     rd_bind read_u16 (\<lambda>flags.
     rd_bind (rd_if (has_property flags flagContentType) read_shortstr '''') (\<lambda>contentType.
     rd_bind (rd_if (has_property flags flagContentEncoding) read_shortstr '''') (\<lambda>contentEncoding.
     rd_bind (rd_if (has_property flags flagHeaders) read_table []) (\<lambda>headers.
     rd_bind (rd_if (has_property flags flagDeliveryMode) read_u8 0) (\<lambda>deliveryMode.
     rd_bind (rd_if (has_property flags flagPriority) read_u8 0) (\<lambda>priority.
     rd_bind (rd_if (has_property flags flagCorrelationId) read_shortstr '''') (\<lambda>correlationId.
     rd_bind (rd_if (has_property flags flagReplyTo) read_shortstr '''') (\<lambda>replyTo.
     rd_bind (rd_if (has_property flags flagExpiration) read_shortstr '''') (\<lambda>expiration.
     rd_bind (rd_if (has_property flags flagMessageId) read_shortstr '''') (\<lambda>messageId.
     rd_bind (rd_if (has_property flags flagTimestamp) read_timestamp zero_time) (\<lambda>timestamp.
     rd_bind (rd_if (has_property flags flagType) read_shortstr '''') (\<lambda>type.
     rd_bind (rd_if (has_property flags flagUserId) read_shortstr '''') (\<lambda>userId.
     rd_bind (rd_if (has_property flags flagAppId) read_shortstr '''') (\<lambda>appId.
     rd_bind (rd_if (has_property flags flagReserved1) read_shortstr '''') (\<lambda>reserved1.
     rd_return (HeaderFrame
       \<lparr>hf_ChannelId = channel, hf_ClassId = classId, hf_weight = weight, hf_Size = bodySize,
        hf_Properties = \<lparr>prop_ContentType = contentType, prop_ContentEncoding = contentEncoding,
          prop_Headers = headers, prop_DeliveryMode = deliveryMode, prop_Priority = priority,
          prop_CorrelationId = correlationId, prop_ReplyTo = replyTo, prop_Expiration = expiration,
          prop_MessageId = messageId, prop_Timestamp = timestamp, prop_Type = type,
          prop_UserId = userId, prop_AppId = appId, prop_reserved1 = reserved1\<rparr>\<rparr>)))))))))))))))))))"

definition parse_body_frame :: "16 word \<Rightarrow> 32 word \<Rightarrow> frame rd" where
  "parse_body_frame channel sz =
     rd_bind (read_full (unat sz)) (\<lambda>body.
     rd_return (BodyFrame \<lparr>bf_ChannelId = channel, bf_Body = body\<rparr>))"

definition parse_heartbeat_frame :: "16 word \<Rightarrow> 32 word \<Rightarrow> frame rd" where
  "parse_heartbeat_frame channel sz =
     (if sz > 0 then rd_fail ErrHeartbeatPayload
      else rd_return (HeartbeatFrame \<lparr>hb_ChannelId = channel\<rparr>))"

text \<open>The switch on the frame type in \<open>ReadFrame\<close>.\<close>

definition parse_frame :: "byte \<Rightarrow> 16 word \<Rightarrow> 32 word \<Rightarrow> frame rd" where
  "parse_frame typ channel sz =
     (if typ = frameMethod then parse_method_frame channel sz
      else if typ = frameHeader then parse_header_frame channel sz
      else if typ = frameBody then parse_body_frame channel sz
      else if typ = frameHeartbeat then parse_heartbeat_frame channel sz
      else rd_fail ErrFrame)"

definition read_frame :: "frame rd" where
  "read_frame =
     rd_bind (read_full 7) (\<lambda>scratch.
       let typ = scratch ! 0;
           channel = get_u16 (take 2 (drop 1 scratch));
           size = get_u32 (take 4 (drop 3 scratch)) in
       rd_bind (parse_frame typ channel size)
         (\<lambda>frame. rd_bind (read_full 1) (\<lambda>end.
            if end ! 0 \<noteq> frameEnd then rd_fail ErrFrame else rd_return frame)))"


section \<open>The layout of a frame\<close>

lemma byte_masks:
  "ucast (drop_bit 8 (c AND 0xff00)) = (ucast (drop_bit 8 c) :: byte)"
  "ucast (c AND 0x00ff) = (ucast c :: byte)" for c :: "16 word"
proof -
  have m: "(0xff00 :: 16 word) = push_bit 8 (mask 8)" "(0x00ff :: 16 word) = mask 8"
    by (simp_all add: mask_eq_exp_minus_1)
  show "ucast (drop_bit 8 (c AND 0xff00)) = (ucast (drop_bit 8 c) :: byte)"
    "ucast (c AND 0x00ff) = (ucast c :: byte)"
    unfolding m by (rule bit_word_eqI, auto simp: bit_simps)+
qed

lemma size_masks:
  fixes s :: "64 word"
  shows "ucast (drop_bit 24 (s AND 0xff000000)) = (ucast (drop_bit 24 s) :: byte)"
    "ucast (drop_bit 16 (s AND 0x00ff0000)) = (ucast (drop_bit 16 s) :: byte)"
    "ucast (drop_bit 8 (s AND 0x0000ff00)) = (ucast (drop_bit 8 s) :: byte)"
    "ucast (s AND 0x000000ff) = (ucast s :: byte)"
proof -
  have m: "(0xff000000 :: 64 word) = push_bit 24 (mask 8)" "(0x00ff0000 :: 64 word) = push_bit 16 (mask 8)"
    "(0x0000ff00 :: 64 word) = push_bit 8 (mask 8)" "(0x000000ff :: 64 word) = mask 8"
    by (simp_all add: mask_eq_exp_minus_1)
  show "ucast (drop_bit 24 (s AND 0xff000000)) = (ucast (drop_bit 24 s) :: byte)"
    "ucast (drop_bit 16 (s AND 0x00ff0000)) = (ucast (drop_bit 16 s) :: byte)"
    "ucast (drop_bit 8 (s AND 0x0000ff00)) = (ucast (drop_bit 8 s) :: byte)"
    "ucast (s AND 0x000000ff) = (ucast s :: byte)"
    unfolding m by (rule bit_word_eqI, auto simp: bit_simps)+
qed

lemma put_u32_of_u64:
  "put_u32 (ucast s) = [ucast (drop_bit 24 s), ucast (drop_bit 16 s), ucast (drop_bit 8 s), ucast s]"
  for s :: "64 word"
  unfolding put_u32_bytes by (auto intro!: bit_word_eqI simp: bit_simps)

lemma write_frame_layout:
  "write_frame typ channel payload =
     typ # put_u16 channel @ put_u32 (word_of_nat (length payload)) @ payload @ [frameEnd]"
proof -
  have "(word_of_nat n :: 32 word) = ucast (word_of_nat n :: 64 word)" for n
    by (rule bit_word_eqI) (simp add: bit_simps)
  then have "put_u32 (word_of_nat (length payload)) = put_u32 (ucast (word_of_nat (length payload) :: 64 word))"
    by (rule arg_cong)
  then show ?thesis
    by (simp add: write_frame_def Let_def byte_masks size_masks put_u32_of_u64 put_u16_def)
qed

lemma read_full_header:
  "read_full 7 (typ # put_u16 c @ put_u32 s @ rest) = (Inr (typ # put_u16 c @ put_u32 s), rest)"
  using read_full_append [of "typ # put_u16 c @ put_u32 s" 7 rest] by simp

lemma read_frame_header:
  "read_frame (typ # put_u16 c @ put_u32 s @ rest) =
     rd_bind (parse_frame typ c s)
         (\<lambda>frame. rd_bind (read_full 1) (\<lambda>end.
            if end ! 0 \<noteq> frameEnd then rd_fail ErrFrame else rd_return frame)) rest"
proof -
  have "take 2 (drop 1 (typ # put_u16 c @ put_u32 s)) = put_u16 c"
    "take 4 (drop 3 (typ # put_u16 c @ put_u32 s)) = put_u32 s"
    by (simp_all add: numeral_3_eq_3)
  moreover have "rd_bind (read_full 7) f (typ # put_u16 c @ put_u32 s @ rest)
      = f (typ # put_u16 c @ put_u32 s) rest" for f :: "byte list \<Rightarrow> frame rd"
    by (rule rd_bind_Inr) (rule read_full_header)
  ultimately show ?thesis
    by (simp add: read_frame_def Let_def)
qed

section \<open>Property flags as bits\<close>

lemma flag_bits:
  "flagContentType = push_bit 15 1" "flagContentEncoding = push_bit 14 1"
  "flagHeaders = push_bit 13 1" "flagDeliveryMode = push_bit 12 1" "flagPriority = push_bit 11 1"
  "flagCorrelationId = push_bit 10 1" "flagReplyTo = push_bit 9 1" "flagExpiration = push_bit 8 1"
  "flagMessageId = push_bit 7 1" "flagTimestamp = push_bit 6 1" "flagType = push_bit 5 1"
  "flagUserId = push_bit 4 1" "flagAppId = push_bit 3 1" "flagReserved1 = push_bit 2 1"
  by (simp_all add: flagContentType_def flagContentEncoding_def flagHeaders_def flagDeliveryMode_def
      flagPriority_def flagCorrelationId_def flagReplyTo_def flagExpiration_def flagMessageId_def
      flagTimestamp_def flagType_def flagUserId_def flagAppId_def flagReserved1_def push_bit_eq_mult)

lemma has_property_bit: "has_property m (push_bit k 1) = bit m k"
  by (simp add: has_property_def word_gt_0 bit_iff_and_push_bit_not_eq_0)

lemma bit_mask_or: "k < 16 \<Longrightarrow> bit (mask_or b (push_bit k 1) m) j \<longleftrightarrow> (b \<and> j = k) \<or> bit m j"
  by (auto simp: mask_or_def bit_simps bit_1_iff)

lemma header_mask_flags:
  "has_property (header_mask p) flagContentType = (prop_ContentType p \<noteq> [])"
  "has_property (header_mask p) flagContentEncoding = (prop_ContentEncoding p \<noteq> [])"
  "has_property (header_mask p) flagHeaders = (prop_Headers p \<noteq> [])"
  "has_property (header_mask p) flagDeliveryMode = (prop_DeliveryMode p > 0)"
  "has_property (header_mask p) flagPriority = (prop_Priority p > 0)"
  "has_property (header_mask p) flagCorrelationId = (prop_CorrelationId p \<noteq> [])"
  "has_property (header_mask p) flagReplyTo = (prop_ReplyTo p \<noteq> [])"
  "has_property (header_mask p) flagExpiration = (prop_Expiration p \<noteq> [])"
  "has_property (header_mask p) flagMessageId = (prop_MessageId p \<noteq> [])"
  "has_property (header_mask p) flagTimestamp = (\<not> is_zero_time (prop_Timestamp p))"
  "has_property (header_mask p) flagType = (prop_Type p \<noteq> [])"
  "has_property (header_mask p) flagUserId = (prop_UserId p \<noteq> [])"
  "has_property (header_mask p) flagAppId = (prop_AppId p \<noteq> [])"
  "has_property (header_mask p) flagReserved1 = False"
  by (simp_all only: flag_bits has_property_bit header_mask_def bit_mask_or) simp_all


section \<open>Reading what was written\<close>

definition properties_ok :: "properties \<Rightarrow> bool" where
  "properties_ok p \<longleftrightarrow> length (prop_ContentType p) < 256 \<and> length (prop_ContentEncoding p) < 256
     \<and> table_ok (prop_Headers p) \<and> length (prop_CorrelationId p) < 256 \<and> length (prop_ReplyTo p) < 256
     \<and> length (prop_Expiration p) < 256 \<and> length (prop_MessageId p) < 256
     \<and> length (prop_Type p) < 256 \<and> length (prop_UserId p) < 256 \<and> length (prop_AppId p) < 256"

text \<open>Times arrive as whole seconds, header values as the table codec says; \<open>reserved1\<close> is not sent.\<close>

definition properties_norm :: "properties \<Rightarrow> properties" where
  "properties_norm p = p\<lparr>prop_Headers := norm_entries (prop_Headers p),
     prop_Timestamp := (if is_zero_time (prop_Timestamp p) then zero_time else (fst (prop_Timestamp p), 0)),
     prop_reserved1 := ''''\<rparr>"

fun frame_ok :: "frame \<Rightarrow> bool" where
  "frame_ok (MethodFrame f) = (case mf_Method f of None \<Rightarrow> False | Some m \<Rightarrow> message_ok m)"
| "frame_ok (HeaderFrame f) = properties_ok (hf_Properties f)"
| "frame_ok (BodyFrame f) = (length (bf_Body f) < 2 ^ 32)"
| "frame_ok (HeartbeatFrame f) = True"

fun frame_norm :: "frame \<Rightarrow> frame" where
  "frame_norm (MethodFrame f) =
     (case mf_Method f of
        None \<Rightarrow> MethodFrame f
      | Some m \<Rightarrow> MethodFrame (f\<lparr>mf_ClassId := fst (message_id m), mf_MethodId := snd (message_id m),
                                mf_Method := Some (message_norm m)\<rparr>))"
| "frame_norm (HeaderFrame f) = HeaderFrame (f\<lparr>hf_Properties := properties_norm (hf_Properties f)\<rparr>)"
| "frame_norm (BodyFrame f) = BodyFrame f"
| "frame_norm (HeartbeatFrame f) = HeartbeatFrame f"

lemma wr_if_Inr: "wr_if b w = Inr bs \<longleftrightarrow> (if b then w = Inr bs else bs = [])"
  by (auto simp: wr_if_def)

lemma wr_if_written: "\<exists>bs. w = Inr bs \<Longrightarrow> \<exists>bs. wr_if b w = Inr bs"
  by (auto simp: wr_if_def)

lemma rd_if_shortstr:
  "wr_if (s \<noteq> []) (Inr (write_shortstr s)) = Inr bs \<Longrightarrow> length s < 256 \<Longrightarrow>
   rd_if (s \<noteq> []) read_shortstr '''' (bs @ rest) = (Inr s, rest)"
  by (auto simp: wr_if_Inr rd_if_def split: if_splits)

lemma rd_if_table:
  "wr_if (t \<noteq> []) (write_table t) = Inr bs \<Longrightarrow> table_ok t \<Longrightarrow>
   rd_if (t \<noteq> []) read_table [] (bs @ rest) = (Inr (norm_entries t), rest)"
  by (auto simp: wr_if_Inr rd_if_def split: if_splits)

lemma rd_if_octet:
  "wr_if (0 < b) (Inr (put_u8 b)) = Inr bs \<Longrightarrow> rd_if (0 < b) read_u8 0 (bs @ rest) = (Inr b, rest)"
  by (auto simp: wr_if_Inr rd_if_def word_gt_0 split: if_splits)

lemma rd_if_time:
  "wr_if (\<not> is_zero_time t) (Inr (put_u64 (fst t))) = Inr bs \<Longrightarrow>
   rd_if (\<not> is_zero_time t) read_timestamp zero_time (bs @ rest) =
     (Inr (if is_zero_time t then zero_time else (fst t, 0)), rest)"
  by (auto simp: wr_if_Inr rd_if_def read_timestamp_def rd_bind_def split: if_splits)

lemma rd_if_False [simp]: "rd_if False m d bs = (Inr d, bs)"
  by (simp add: rd_if_def)

lemmas rd_if_values = rd_if_shortstr rd_if_table rd_if_octet rd_if_time

lemma wr_frame_Inr:
  "wr_frame typ c w = Inr bs \<longleftrightarrow> (\<exists>b. w = Inr b \<and> bs = write_frame typ c b)"
  by (auto simp: wr_frame_def split: sum.splits)

lemma wr_seq_written: "\<exists>x. a = Inr x \<Longrightarrow> \<exists>y. b = Inr y \<Longrightarrow> \<exists>z. wr_seq a b = Inr z"
  by auto

lemma wr_frame_written: "\<exists>b. w = Inr b \<Longrightarrow> \<exists>bs. wr_frame typ c w = Inr bs"
  by (auto simp: wr_frame_def)

text \<open>The payload between the frame header and the frame end.\<close>

lemma read_frame_payload:
  assumes "parse_frame typ c s (payload @ frameEnd # rest) = (Inr f, frameEnd # rest)"
    and "s = word_of_nat (length payload)"
  shows "read_frame (write_frame typ c payload @ rest) = (Inr f, rest)"
proof -
  have "read_full 1 (frameEnd # rest) = (Inr [frameEnd], rest)"
    by (simp add: read_full_def)
  then show ?thesis
    using assms by (simp add: write_frame_layout read_frame_header rd_bind_def)
qed

lemma method_frame_readback:
  assumes "mf_Method f = Some m" "message_ok m" "method_frame_write f = Inr bs"
  shows "read_frame (bs @ rest) = (Inr (frame_norm (MethodFrame f)), rest)"
proof -
  obtain b where b: "message_write m = Inr b"
    using message_written [OF assms(2)] by blast
  let ?p = "put_u16 (fst (message_id m)) @ put_u16 (snd (message_id m)) @ b"
  have bs: "bs = write_frame frameMethod (mf_ChannelId f) ?p"
    using assms by (auto simp: method_frame_write_def b wr_frame_Inr split_beta)
  show ?thesis
    unfolding bs
    by (rule read_frame_payload)
       (auto simp: assms parse_frame_def parse_method_frame_def rd_bind_def message_readback [OF assms(2) b])
qed

lemma bindI: "m bs = (Inr x, r) \<Longrightarrow> f x r = res \<Longrightarrow> rd_bind m f bs = res"
  by (simp add: rd_bind_Inr)

lemma header_frame_readback:
  assumes ok: "properties_ok (hf_Properties f)" and w: "header_frame_write f = Inr bs"
  shows "read_frame (bs @ rest) = (Inr (frame_norm (HeaderFrame f)), rest)"
proof -
  obtain b where b: "header_payload f = Inr b" "bs = write_frame frameHeader (hf_ChannelId f) b"
    using w by (auto simp: header_frame_write_def wr_frame_Inr)
  have "parse_header_frame (hf_ChannelId f) (word_of_nat (length b)) (b @ frameEnd # rest)
      = (Inr (frame_norm (HeaderFrame f)), frameEnd # rest)"
    using ok b(1)
    unfolding header_payload_def Let_def wr_seq_eq_Inr properties_ok_def header_mask_flags sum.inject
    apply (elim exE conjE)
    apply hypsubst
    apply (unfold append_assoc parse_header_frame_def)
    apply (rule bindI, rule read_ints)+
    apply (unfold header_mask_flags)
    apply (rule bindI, ((erule rd_if_values, assumption) | erule rd_if_octet rd_if_time | rule rd_if_False))+
    apply (simp add: properties_norm_def)
    done
  then show ?thesis
    unfolding b(2) by (intro read_frame_payload) (simp_all add: parse_frame_def wire_defs)
qed


lemma body_frame_readback:
  assumes "length (bf_Body f) < 2 ^ 32"
  shows "read_frame (write_frame frameBody (bf_ChannelId f) (bf_Body f) @ rest) = (Inr (BodyFrame f), rest)"
  by (rule read_frame_payload)
     (use unat_len32 [OF assms] in \<open>simp_all add: parse_frame_def parse_body_frame_def wire_defs rd_bind_def\<close>)

lemma heartbeat_frame_readback:
  "read_frame (write_frame frameHeartbeat (hb_ChannelId f) [] @ rest) = (Inr (HeartbeatFrame f), rest)"
  by (rule read_frame_payload) (simp_all add: parse_frame_def parse_heartbeat_frame_def wire_defs)

lemma header_payload_written: "properties_ok (hf_Properties f) \<Longrightarrow> \<exists>b. header_payload f = Inr b"
  unfolding header_payload_def Let_def properties_ok_def
  by (intro wr_seq_written wr_if_written table_written) auto

lemma frame_written: "frame_ok f \<Longrightarrow> \<exists>bs. frame_write f = Inr bs"
proof (induction f)
  case (MethodFrame f)
  then obtain m where "mf_Method f = Some m" "message_ok m"
    by (auto split: option.splits)
  then show ?case
    using message_written [of m]
    by (auto simp: method_frame_write_def split_beta intro!: wr_frame_written wr_seq_written)
next
  case (HeaderFrame f)
  then show ?case
    using header_payload_written [of f] by (auto simp: header_frame_write_def intro: wr_frame_written)
qed (simp_all add: body_frame_write_def heartbeat_frame_write_def)

lemma frame_readback:
  "frame_ok f \<Longrightarrow> frame_write f = Inr bs \<Longrightarrow> read_frame (bs @ rest) = (Inr (frame_norm f), rest)"
proof (induction f)
  case (MethodFrame f)
  then show ?case
    by (auto simp: method_frame_readback simp del: frame_norm.simps split: option.splits)
next
  case (HeaderFrame f)
  then show ?case
    by (simp add: header_frame_readback del: frame_norm.simps)
next
  case (BodyFrame f)
  then show ?case
    using body_frame_readback [of f rest] by (simp add: body_frame_write_def)
next
  case (HeartbeatFrame f)
  then show ?case
    using heartbeat_frame_readback [of f rest] by (simp add: heartbeat_frame_write_def)
qed

interpretation frame_codec: codec frame_write read_frame frame_ok frame_norm
  by unfold_locales (fact frame_written, fact frame_readback)

section \<open>The reader as a whole\<close>

lemma consumes_rd_map: "consumes m \<Longrightarrow> consumes (rd_map f m)"
  by (auto simp: rd_map_def)

lemma consumes_rd_if: "consumes m \<Longrightarrow> consumes (rd_if b m d)"
  by (simp add: rd_if_def)

lemma consumes_read_table [simp, intro]: "consumes read_table"
  by (auto simp: read_table_def)

lemma fuelled_rd_map: "fuelled m bs \<Longrightarrow> fuelled (rd_map f m) bs"
  by (auto simp: rd_map_def intro!: fuelled_bind)

lemma fuelled_rd_if: "fuelled m bs \<Longrightarrow> fuelled (rd_if b m d) bs"
  by (simp add: rd_if_def)

lemmas consumes_rules = consumes_bind consumes_if consumes_rd_map consumes_rd_if consumes_ints
  consumes_strings consumes_read_table consumes_return consumes_fail consumes_read_full

lemmas fuelled_rules = fuelled_bind fuelled_if fuelled_rd_map fuelled_rd_if fuelled_ints
  fuelled_strings read_table_fuelled fuelled_simps

lemma message_parse_consumes: "consumes (message_parse c m)"
  unfolding message_parse_def connection_parse_def channel_parse_def exchange_parse_def
    queue_parse_def basic_parse_def tx_parse_def confirm_parse_def wire_defs
  by (intro consumes_rules)

lemma message_parse_fuelled: "fuelled (message_parse c m) bs"
  unfolding message_parse_def connection_parse_def channel_parse_def exchange_parse_def
    queue_parse_def basic_parse_def tx_parse_def confirm_parse_def wire_defs
  by (intro fuelled_rules) simp_all


lemma parse_frame_consumes: "consumes (parse_frame typ c s)"
  unfolding parse_frame_def parse_method_frame_def parse_header_frame_def parse_body_frame_def
    parse_heartbeat_frame_def
  by (intro consumes_rules message_parse_consumes)

lemma parse_frame_fuelled: "fuelled (parse_frame typ c s) bs"
  unfolding parse_frame_def parse_method_frame_def parse_header_frame_def parse_body_frame_def
    parse_heartbeat_frame_def
  by (intro fuelled_rules message_parse_fuelled) simp_all

lemma rd_bind_InrD:
  "rd_bind m f bs = (Inr v, r) \<Longrightarrow> \<exists>x r'. m bs = (Inr x, r') \<and> f x r' = (Inr v, r)"
  by (auto simp: rd_bind_def split: prod.splits sum.splits)

lemma parse_frame_channel: "parse_frame typ c s bs = (Inr f, r) \<Longrightarrow> frame_channel f = c"
  unfolding parse_frame_def parse_method_frame_def parse_header_frame_def parse_body_frame_def
    parse_heartbeat_frame_def
  by (auto dest!: rd_bind_InrD split: if_splits)

lemma parse_frame_type: "parse_frame typ c s bs = (Inr f, r) \<Longrightarrow> typ \<in> {1, 2, 3, 8}"
  by (auto simp: parse_frame_def wire_defs split: if_splits)

lemma put_get_u16: "length b = 2 \<Longrightarrow> put_u16 (get_u16 b) = b"
proof -
  assume "length b = 2"
  then obtain x y where b: "b = [x, y]"
    by (auto simp: numeral_2_eq_2 length_Suc_conv)
  have "ucast (drop_bit 8 (push_bit 8 (ucast x) OR ucast y :: 16 word)) = x"
    "ucast (push_bit 8 (ucast x) OR ucast y :: 16 word) = y"
    by (rule bit_word_eqI, auto simp: bit_simps dest: bit_imp_le_length)+
  then show ?thesis
    by (simp add: b get_u16_def put_u16_def)
qed

lemma put_get_u32: "length b = 4 \<Longrightarrow> put_u32 (get_u32 b) = b"
proof -
  assume b: "length b = 4"
  define x y where "x = get_u16 (take 2 b)" and "y = get_u16 (drop 2 b)"
  have "ucast (drop_bit 16 (push_bit 16 (ucast x) OR ucast y :: 32 word)) = x"
    "ucast (push_bit 16 (ucast x) OR ucast y :: 32 word) = y"
    by (rule bit_word_eqI, auto simp: bit_simps dest: bit_imp_le_length)+
  then have "put_u32 (get_u32 b) = put_u16 x @ put_u16 y"
    by (simp add: get_u32_def put_u32_def x_def y_def)
  also have "\<dots> = b"
    using b by (simp add: x_def y_def put_get_u16)
  finally show ?thesis .
qed

lemma read_frame_split:
  assumes "7 \<le> length bs"
  obtains ty c s rest where "bs = ty # put_u16 c @ put_u32 s @ rest"
proof -
  from assms obtain a b c d e f g tl where "bs = a # b # c # d # e # f # g # tl"
    by (auto simp: eval_nat_numeral Suc_le_length_iff)
  then show thesis
    using that [of a "get_u16 [b, c]" "get_u32 [d, e, f, g]" tl]
    by (simp add: put_get_u16 put_get_u32)
qed

lemma read_frame_shape:
  assumes "read_frame bs = (Inr f, rest)"
  shows "\<exists>typ s payload. bs = typ # put_u16 (frame_channel f) @ put_u32 s @ payload @ frameEnd # rest
           \<and> typ \<in> {1, 2, 3, 8}"
proof -
  have "7 \<le> length bs"
    using assms by (auto simp: read_frame_def rd_bind_def read_full_def split: if_splits)
  then obtain ty c s tl where bs: "bs = ty # put_u16 c @ put_u32 s @ tl"
    by (rule read_frame_split)
  then obtain r where p: "parse_frame ty c s tl = (Inr f, r)"
    and e: "\<exists>b. read_full 1 r = (Inr b, rest) \<and> b ! 0 = frameEnd"
    using assms by (auto simp: read_frame_header dest!: rd_bind_InrD split: if_splits)
  from e have "r = frameEnd # rest"
    by (cases r) (auto simp: read_full_def split: if_splits)
  moreover obtain q where "tl = q @ r"
    using consumes_prefix [OF parse_frame_consumes p] by blast
  ultimately show ?thesis
    using bs parse_frame_channel [OF p] parse_frame_type [OF p] by blast
qed

fun frame_type :: "frame \<Rightarrow> byte" where
  "frame_type (MethodFrame m) = frameMethod"
| "frame_type (HeaderFrame h) = frameHeader"
| "frame_type (BodyFrame b) = frameBody"
| "frame_type (HeartbeatFrame h) = frameHeartbeat"

lemma parse_frame_kind:
  assumes "parse_frame typ c s bs = (Inr f, r)"
  shows "typ = frame_type f"
    "case f of BodyFrame b \<Rightarrow> bs = bf_Body b @ r \<and> length (bf_Body b) = unat s
       | HeartbeatFrame h \<Rightarrow> bs = r \<and> s = 0
       | _ \<Rightarrow> (\<forall>s'. parse_frame typ c s' bs = (Inr f, r))"
proof -
  consider (m) m where "typ = frameMethod" "parse_method_frame c s bs = (Inr f, r)" "f = MethodFrame m"
    | (h) h where "typ = frameHeader" "parse_header_frame c s bs = (Inr f, r)" "f = HeaderFrame h"
    | (b) "typ = frameBody" "parse_body_frame c s bs = (Inr f, r)"
    | (hb) "typ = frameHeartbeat" "parse_heartbeat_frame c s bs = (Inr f, r)"
    using assms unfolding parse_frame_def parse_method_frame_def parse_header_frame_def
    by (auto split: if_splits dest!: rd_bind_InrD)
  then have "typ = frame_type f \<and> (case f of BodyFrame b \<Rightarrow> bs = bf_Body b @ r \<and> length (bf_Body b) = unat s
       | HeartbeatFrame h \<Rightarrow> bs = r \<and> s = 0
       | _ \<Rightarrow> (\<forall>s'. parse_frame typ c s' bs = (Inr f, r)))"
  proof cases
    case m
    then show ?thesis
      by (simp add: parse_frame_def parse_method_frame_def wire_defs)
  next
    case h
    then show ?thesis
      by (simp add: parse_frame_def parse_header_frame_def wire_defs)
  next
    case b
    then show ?thesis
      by (auto simp: parse_body_frame_def read_full_def dest!: rd_bind_InrD split: if_splits)
  next
    case hb
    then show ?thesis
      by (auto simp: parse_heartbeat_frame_def word_gt_0 split: if_splits)
  qed
  then show "typ = frame_type f"
    "case f of BodyFrame b \<Rightarrow> bs = bf_Body b @ r \<and> length (bf_Body b) = unat s
       | HeartbeatFrame h \<Rightarrow> bs = r \<and> s = 0
       | _ \<Rightarrow> (\<forall>s'. parse_frame typ c s' bs = (Inr f, r))"
    by simp_all
qed

lemma read_frame_layout:
  assumes "read_frame bs = (Inr f, rest)"
  shows "\<exists>s payload. bs = frame_type f # put_u16 (frame_channel f) @ put_u32 s @ payload @ frameEnd # rest
     \<and> (case f of
          BodyFrame b \<Rightarrow> payload = bf_Body b \<and> length payload = unat s
        | HeartbeatFrame h \<Rightarrow> payload = [] \<and> s = 0
        | _ \<Rightarrow> (\<forall>s'. read_frame (frame_type f # put_u16 (frame_channel f) @ put_u32 s' @ payload @ frameEnd # rest)
                  = (Inr f, rest)))"
proof -
  have "7 \<le> length bs"
    using assms by (auto simp: read_frame_def rd_bind_def read_full_def split: if_splits)
  then obtain ty c s tl where bs: "bs = ty # put_u16 c @ put_u32 s @ tl"
    by (rule read_frame_split)
  then obtain r where p: "parse_frame ty c s tl = (Inr f, r)"
    and e: "\<exists>b. read_full 1 r = (Inr b, rest) \<and> b ! 0 = frameEnd"
    using assms by (auto simp: read_frame_header dest!: rd_bind_InrD split: if_splits)
  from e have r: "r = frameEnd # rest"
    by (cases r) (auto simp: read_full_def split: if_splits)
  obtain q where q: "tl = q @ r"
    using consumes_prefix [OF parse_frame_consumes p] by blast
  note k = parse_frame_kind [OF p] and c = parse_frame_channel [OF p]
  have again: "read_frame (ty # put_u16 c @ put_u32 s' @ tl) = (Inr f, rest)" if "parse_frame ty c s' tl = (Inr f, r)" for s'
    using that by (simp add: read_frame_header rd_bind_def r read_full_def)
  show ?thesis
  proof (intro exI conjI)
    show "bs = frame_type f # put_u16 (frame_channel f) @ put_u32 s @ q @ frameEnd # rest"
      by (simp add: bs k(1) c q r)
    show "case f of BodyFrame b \<Rightarrow> q = bf_Body b \<and> length q = unat s | HeartbeatFrame h \<Rightarrow> q = [] \<and> s = 0
        | _ \<Rightarrow> (\<forall>s'. read_frame (frame_type f # put_u16 (frame_channel f) @ put_u32 s' @ q @ frameEnd # rest)
                  = (Inr f, rest))"
      using k(2) again unfolding k(1) c q r by (cases f) auto
  qed
qed

lemma read_frame_fuelled: "fuelled read_frame bs"
  unfolding read_frame_def Let_def by (intro fuelled_rules parse_frame_fuelled) simp_all

section \<open>Properties\<close>

definition sample_frames :: "frame list" where
  "sample_frames =
     [MethodFrame \<lparr>mf_ChannelId = 1, mf_ClassId = 0, mf_MethodId = 0, mf_Method = Some (MBasic (BasicPublish
        \<lparr>basicPublish_reserved1 = 0, basicPublish_Exchange = ''harborsync.exchange'',
         basicPublish_RoutingKey = ''telemetry.processed'', basicPublish_Mandatory = False,
         basicPublish_Immediate = False, basicPublish_Properties = zero_properties,
         basicPublish_Body = []\<rparr>))\<rparr>,
      HeaderFrame \<lparr>hf_ChannelId = 1, hf_ClassId = 60, hf_weight = 0, hf_Size = 2,
        hf_Properties = zero_properties\<lparr>prop_DeliveryMode := 2, prop_CorrelationId := ''CID-1''\<rparr>\<rparr>,
      BodyFrame \<lparr>bf_ChannelId = 1, bf_Body = [0x7B, 0x7D]\<rparr>,
      HeartbeatFrame \<lparr>hb_ChannelId = 0\<rparr>]"

lemma sample_frames_ok: "list_all frame_ok sample_frames"
  by (simp add: sample_frames_def properties_ok_def zero_properties_def table_ok_def wr_shorter_def)

text \<open>C4. Frames survive the wire: a sequence of frames of any of the 64 methods, headers,
  bodies and heartbeats, written one after the other, is read back frame by frame in the
  same order, each as \<open>frame_norm\<close> says, with what follows left unread.\<close>
theorem frames_roundtrip:
  "list_all frame_ok fs \<Longrightarrow> \<exists>bs. write_many frame_write fs = Inr bs
     \<and> (\<forall>rest. read_many read_frame (length fs) (bs @ rest) = (Inr (map frame_norm fs), rest))"
  by (rule frame_codec.stream) (simp add: list_all_iff)

theorem frames_roundtrip_witness:
  "\<exists>bs. write_many frame_write sample_frames = Inr bs
     \<and> (\<forall>rest. read_many read_frame (length sample_frames) (bs @ rest)
              = (Inr (map frame_norm sample_frames), rest))"
  by (rule frames_roundtrip [OF sample_frames_ok])

text \<open>C18. What the frame reader accepts is a frame: the type octet of the returned frame's kind, its
  channel, a size, a payload, and the end octet 206 right before the bytes left unread. The
  payload of a body frame is its body and has exactly \<open>size\<close> octets, a heartbeat has none;
  for method and header frames the reader does not look at the size: with any other size
  in its place it returns the same frame and leaves the same bytes unread.\<close>
theorem read_frame_accepts:
  "read_frame bs = (Inr f, rest) \<Longrightarrow>
   \<exists>s payload. bs = frame_type f # put_u16 (frame_channel f) @ put_u32 s @ payload @ frameEnd # rest
     \<and> (case f of
          BodyFrame b \<Rightarrow> payload = bf_Body b \<and> length payload = unat s
        | HeartbeatFrame h \<Rightarrow> payload = [] \<and> s = 0
        | _ \<Rightarrow> (\<forall>s'. read_frame (frame_type f # put_u16 (frame_channel f) @ put_u32 s' @ payload @ frameEnd # rest)
                  = (Inr f, rest)))"
  by (rule read_frame_layout)

definition sample_body_frame :: frame where
  "sample_body_frame = BodyFrame \<lparr>bf_ChannelId = 5, bf_Body = [0x7B, 0x7D]\<rparr>"

theorem read_frame_accepts_witness:
  "\<exists>s payload. write_frame frameBody 5 [0x7B, 0x7D] @ [7]
       = frameBody # put_u16 5 @ put_u32 s @ payload @ frameEnd # [7]
     \<and> payload = [0x7B, 0x7D] \<and> length payload = unat s"
proof -
  have "read_frame (write_frame frameBody 5 [0x7B, 0x7D] @ [7]) = (Inr sample_body_frame, [7])"
    using frame_readback [of sample_body_frame "write_frame frameBody 5 [0x7B, 0x7D]" "[7]"]
    by (simp add: sample_body_frame_def body_frame_write_def)
  from read_frame_accepts [OF this] show ?thesis
    by (simp add: sample_body_frame_def)
qed

text \<open>C19. The frame reader returns on every input: however the lengths, the table nesting and
  the property flags in it lie, it ends with a frame or with an error, and its recursion
  never needs more steps than there are bytes.\<close>
theorem read_frame_returns: "fst (read_frame bs) \<noteq> Inl ROutOfFuel"
  using read_frame_fuelled [of bs] by (simp add: fuelled_def)

end
