(* ===== verification/Connection.thy ===== *)
theory Connection
  imports FrameCodec GoStrings "HOL-Library.Sublist"
begin

text \<open>
  The sending side of \<open>connection.go\<close>: the buffered writer over a network that may fail at
  any byte, \<open>send\<close>, \<open>sendUnflushed\<close> and \<open>flush\<close>, and what can be read from the bytes that were
  written on the socket. Whatever fails, these bytes hold an initial part of the frames that
  were sent. That bytes written on the socket reach the peer is neither modelled nor
  claimed: the operating system may still lose them.
\<close>

section \<open>Errors\<close>

text \<open>\<open>Error\<close> of \<open>types.go\<close>, and \<open>newError\<close> with \<open>isSoftExceptionCode\<close> of \<open>spec091.go\<close>.\<close>

record amqp_error =
  er_Code :: int
  er_Reason :: gostring
  er_Server :: bool
  er_Recover :: bool

definition is_soft_exception_code :: "int \<Rightarrow> bool" where
  "is_soft_exception_code code \<longleftrightarrow> code \<in> {311, 312, 313, 403, 404, 405, 406}"

definition new_error :: "16 word \<Rightarrow> gostring \<Rightarrow> amqp_error" where
  "new_error code text = \<lparr>er_Code = uint code, er_Reason = text, er_Server = True,
     er_Recover = is_soft_exception_code (uint code)\<rparr>"

definition client_error :: "int \<Rightarrow> gostring \<Rightarrow> amqp_error" where
  "client_error code text = \<lparr>er_Code = code, er_Reason = text, er_Server = False, er_Recover = False\<rparr>"

definition ErrClosed :: amqp_error where
  "ErrClosed = client_error 504 ''channel/connection is not open''"
definition ErrChannelMax :: amqp_error where
  "ErrChannelMax = client_error 504 ''channel id space exhausted''"
definition ErrSASL :: amqp_error where
  "ErrSASL = client_error 403 ''SASL could not negotiate a shared mechanism''"
definition ErrCredentials :: amqp_error where
  "ErrCredentials = client_error 403 ''username or password not allowed''"
definition ErrVhost :: amqp_error where
  "ErrVhost = client_error 403 ''no access to this vhost''"
definition ErrCommandInvalid :: amqp_error where
  "ErrCommandInvalid = client_error 503 ''unexpected command received''"
definition ErrUnexpectedFrame :: amqp_error where
  "ErrUnexpectedFrame = client_error 505 ''unexpected frame received''"

text \<open>\<open>Error()\<close> of an \<open>Error\<close>.\<close>

definition error_text :: "amqp_error \<Rightarrow> gostring" where
  "error_text e = ''Exception ('' @ show_int (er_Code e) @ '') Reason: '' @ go_quote (er_Reason e)"

text \<open>What a call returns as its error: one of the above, the text of an encoding error or of an
  error of the network, or the error of \<open>Table.Validate\<close>. Of the two encoding errors of
  the frame writers one is an \<open>Error\<close> of \<open>types.go\<close>, the other a plain text of \<open>write.go\<close>.\<close>

datatype goerr = EAmqp amqp_error | EText gostring | EValidate

fun werr_text :: "werr \<Rightarrow> gostring" where
  "werr_text ErrFieldType = error_text (client_error 502 ''unsupported table field type'')"
| "werr_text ErrMissingMethod = ''malformed frame: missing method''"

section \<open>The buffered writer\<close>

text \<open>
  \<open>bufio.Writer\<close> over the socket: \<open>bw_out\<close> is what has reached the socket, \<open>bw_buf\<close> what is
  buffered, \<open>bw_err\<close> the sticky error. \<open>bw_net\<close> is what the network will do: for each call
  that reaches the writer how many of the pending bytes go out and the error of the call;
  when the list is used up, writes are buffered and flushes succeed.
\<close>

record bwriter =
  bw_out :: "byte list"
  bw_buf :: "byte list"
  bw_err :: "gostring option"
  bw_net :: "(nat \<times> gostring option) list"

definition bw_write :: "byte list \<Rightarrow> bwriter \<Rightarrow> gostring option \<times> bwriter" where
  "bw_write p w =
     (case bw_err w of
        Some e \<Rightarrow> (Some e, w)
      | None \<Rightarrow>
         (case bw_net w of
            [] \<Rightarrow> (None, w\<lparr>bw_buf := bw_buf w @ p\<rparr>)
          | (k, r) # net \<Rightarrow>
              (r, w\<lparr>bw_out := bw_out w @ take k (bw_buf w @ p), bw_buf := drop k (bw_buf w @ p),
                    bw_err := r, bw_net := net\<rparr>)))"

definition bw_flush :: "bwriter \<Rightarrow> gostring option \<times> bwriter" where
  "bw_flush w =
     (case bw_err w of
        Some e \<Rightarrow> (Some e, w)
      | None \<Rightarrow>
         (case bw_net w of
            [] \<Rightarrow> (None, w\<lparr>bw_out := bw_out w @ bw_buf w, bw_buf := []\<rparr>)
          | (k, None) # net \<Rightarrow> (None, w\<lparr>bw_out := bw_out w @ bw_buf w, bw_buf := [], bw_net := net\<rparr>)
          | (k, Some e) # net \<Rightarrow>
              (Some e, w\<lparr>bw_out := bw_out w @ take k (bw_buf w), bw_buf := drop k (bw_buf w),
                         bw_err := Some e, bw_net := net\<rparr>)))"

section \<open>Sending on a connection\<close>

text \<open>
  \<open>WriteFrameNoFlush\<close> and \<open>WriteFrame\<close> of \<open>write.go\<close>. The three \<open>Write\<close> calls of \<open>writeFrame\<close>
  are one call on the whole frame, whose bytes the network may cut anywhere.
\<close>

definition write_frame_no_flush :: "frame \<Rightarrow> bwriter \<Rightarrow> gostring option \<times> bwriter" where
  "write_frame_no_flush f w =
     (case frame_write f of
        Inl e \<Rightarrow> (Some (werr_text e), w)
      | Inr bs \<Rightarrow> bw_write bs w)"

definition write_frame_flush :: "frame \<Rightarrow> bwriter \<Rightarrow> gostring option \<times> bwriter" where
  "write_frame_flush f w =
     (case write_frame_no_flush f w of
        (Some e, w') \<Rightarrow> (Some e, w')
      | (None, w') \<Rightarrow> bw_flush w')"

text \<open>
  The connection as its senders see it. \<open>co_shutdowns\<close> are the goroutines
  \<open>go c.shutdown(...)\<close> that sends have started. \<open>co_env\<close> is what the other goroutines will do
  at each point where a sender looks at the connection: frames that the heartbeater, the
  reader and other channels send, and a shutdown that marks the connection closed.
\<close>

datatype env_step = EnvSend frame | EnvClose

record connection =
  co_writer :: bwriter
  co_closed :: bool
  co_shutdowns :: "amqp_error list"
  co_FrameSize :: int
  co_env :: "env_step list list"

text \<open>The error a failed write shuts the connection down with, from \<open>err.Error()\<close>.\<close>

definition frame_error :: "gostring \<Rightarrow> amqp_error" where
  "frame_error text = client_error 501 text"

text \<open>The two send functions, from their look at the closed flag to the release of \<open>sendM\<close>.\<close>

definition co_sent :: "gostring option \<times> bwriter \<Rightarrow> connection \<Rightarrow> goerr option \<times> connection" where
  "co_sent r c =
     (case r of
        (Some e, w) \<Rightarrow> (Some (EText e), c\<lparr>co_writer := w, co_shutdowns := co_shutdowns c @ [frame_error e]\<rparr>)
      | (None, w) \<Rightarrow> (None, c\<lparr>co_writer := w\<rparr>))"

definition co_send_now :: "frame \<Rightarrow> connection \<Rightarrow> goerr option \<times> connection" where
  "co_send_now f c =
     (if co_closed c then (Some (EAmqp ErrClosed), c)
      else co_sent (write_frame_flush f (co_writer c)) c)"

definition co_send_unflushed_now :: "frame \<Rightarrow> connection \<Rightarrow> goerr option \<times> connection" where
  "co_send_unflushed_now f c =
     (if co_closed c then (Some (EAmqp ErrClosed), c)
      else co_sent (write_frame_no_flush f (co_writer c)) c)"

fun env_run :: "env_step list \<Rightarrow> connection \<Rightarrow> connection" where
  "env_run [] c = c"
| "env_run (EnvSend f # es) c = env_run es (snd (co_send_now f c))"
| "env_run (EnvClose # es) c = env_run es (c\<lparr>co_closed := True\<rparr>)"

definition co_sync :: "connection \<Rightarrow> connection" where
  "co_sync c = (case co_env c of [] \<Rightarrow> c | es # ess \<Rightarrow> env_run es (c\<lparr>co_env := ess\<rparr>))"

definition co_send :: "frame \<Rightarrow> connection \<Rightarrow> goerr option \<times> connection" where
  "co_send f c = co_send_now f (co_sync c)"

definition co_send_unflushed :: "frame \<Rightarrow> connection \<Rightarrow> goerr option \<times> connection" where
  "co_send_unflushed f c = co_send_unflushed_now f (co_sync c)"

text \<open>\<open>endSendUnflushed\<close> with \<open>flush\<close>, which do not look at the closed flag.\<close>

definition co_flush_now :: "connection \<Rightarrow> goerr option \<times> connection" where
  "co_flush_now c =
     (case bw_flush (co_writer c) of
        (None, w) \<Rightarrow> (None, c\<lparr>co_writer := w\<rparr>)
      | (Some e, w) \<Rightarrow> (Some (EText e), c\<lparr>co_writer := w\<rparr>))"

definition co_flush :: "connection \<Rightarrow> goerr option \<times> connection" where
  "co_flush c = co_flush_now (co_sync c)"

section \<open>The bytes on the wire\<close>

text \<open>
  The writer with the byte stream \<open>s\<close> handed to it: as long as all is well it has sent or
  still buffers exactly \<open>s\<close>; whatever happened, what went out is the beginning of \<open>s\<close>.
\<close>

definition bw_exact :: "bwriter \<Rightarrow> byte list \<Rightarrow> bool" where
  "bw_exact w s \<longleftrightarrow> bw_err w = None \<and> bw_out w @ bw_buf w = s"

definition bw_within :: "bwriter \<Rightarrow> byte list \<Rightarrow> bool" where
  "bw_within w s \<longleftrightarrow> prefix (if bw_err w = None then bw_out w @ bw_buf w else bw_out w) s"

lemma bw_exact_within: "bw_exact w s \<Longrightarrow> bw_within w s"
  by (simp add: bw_exact_def bw_within_def)

lemma bw_within_more: "bw_within w s \<Longrightarrow> bw_within w (s @ p)"
  by (simp add: bw_within_def)

lemma bw_within_out: "bw_within w s \<Longrightarrow> prefix (bw_out w) s"
  by (auto simp: bw_within_def prefix_def split: if_splits)

lemma bw_write_exact:
  assumes "bw_exact w s" "bw_write p w = (r, w')"
  shows "r = bw_err w' \<and> bw_within w' (s @ p) \<and> (r = None \<longrightarrow> bw_exact w' (s @ p))"
proof (cases "bw_net w")
  case Nil
  with assms show ?thesis
    by (auto simp: bw_write_def bw_exact_def bw_within_def)
next
  case (Cons x net)
  obtain k e where x: "x = (k, e)"
    by fastforce
  have split: "bw_out w @ take k (bw_buf w @ p) @ drop k (bw_buf w @ p) = s @ p"
    using assms(1) by (simp only: append_take_drop_id) (simp add: bw_exact_def flip: append_assoc)
  have "prefix (bw_out w @ take k (bw_buf w @ p)) (s @ p)"
    unfolding split [symmetric] by (metis append_assoc prefixI)
  with assms Cons x split show ?thesis
    by (auto simp: bw_write_def bw_exact_def bw_within_def)
qed

lemma bw_write_failed: "bw_err w = Some e \<Longrightarrow> bw_write p w = (Some e, w)"
  by (simp add: bw_write_def)

lemma bw_flush_within:
  assumes "bw_within w s" "bw_flush w = (r, w')"
  shows "r = bw_err w' \<and> bw_within w' s \<and> (bw_exact w s \<and> r = None \<longrightarrow> bw_out w' = s \<and> bw_exact w' s)
    \<and> (r = None \<longrightarrow> bw_err w = None \<and> bw_buf w' = [])"
proof (cases "bw_err w")
  case None
  have "prefix (bw_out w @ take k (bw_buf w)) s" for k
  proof (rule prefix_order.trans)
    show "prefix (bw_out w @ take k (bw_buf w)) (bw_out w @ bw_buf w)"
      by (simp add: take_is_prefix)
    show "prefix (bw_out w @ bw_buf w) s"
      using assms(1) None by (simp add: bw_within_def)
  qed
  with assms None show ?thesis
    by (auto simp: bw_flush_def bw_within_def bw_exact_def split: list.splits option.splits)
qed (use assms in \<open>auto simp: bw_flush_def\<close>)

section \<open>Reading frames from the wire\<close>

lemma read_frame_shorter: "read_frame bs = (Inr f, rest) \<Longrightarrow> length rest < length bs"
  using read_frame_shape [of bs f rest] by auto

function read_frames :: "byte list \<Rightarrow> frame list" where
  "read_frames bs =
     (case read_frame bs of
        (Inl e, rest) \<Rightarrow> []
      | (Inr f, rest) \<Rightarrow> f # read_frames rest)"
  by pat_completeness auto
termination
  by (relation "measure length") (auto dest: read_frame_shorter [OF sym])

declare read_frames.simps [simp del]

text \<open>A reader that succeeds does not look at what follows.\<close>

definition steady :: "'a rd \<Rightarrow> bool" where
  "steady m \<longleftrightarrow> (\<forall>bs x r ys. m bs = (Inr x, r) \<longrightarrow> m (bs @ ys) = (Inr x, r @ ys))"

lemma steadyD: "steady m \<Longrightarrow> m bs = (Inr x, r) \<Longrightarrow> m (bs @ ys) = (Inr x, r @ ys)"
  by (simp add: steady_def)

lemma steady_return [simp]: "steady (rd_return x)" and steady_fail [simp]: "steady (rd_fail e)"
  by (simp_all add: steady_def)

lemma steady_read_full [simp]: "steady (read_full n)"
  by (auto simp: steady_def read_full_def split: if_splits)

lemma steady_bind: "steady m \<Longrightarrow> (\<And>x. steady (f x)) \<Longrightarrow> steady (rd_bind m f)"
  unfolding steady_def by (auto simp: rd_bind_def split: prod.splits sum.splits)

lemma steady_if: "(c \<Longrightarrow> steady a) \<Longrightarrow> (\<not> c \<Longrightarrow> steady b) \<Longrightarrow> steady (if c then a else b)"
  by simp

lemma steady_nested: "steady (rd_nested buf m)"
  by (simp add: steady_def rd_nested_def)

lemma steady_ints: "steady read_u8" "steady read_u16" "steady read_u32" "steady read_u64"
  unfolding read_u8_def read_u16_def read_u32_def read_u64_def
  by (intro steady_bind steady_read_full steady_return)+

lemma steady_strings: "steady read_shortstr" "steady read_longstr" "steady read_timestamp"
  unfolding read_shortstr_def read_longstr_def read_timestamp_def
  by (intro steady_bind steady_if steady_ints steady_read_full steady_return)+

lemma steady_table: "steady read_table"
  unfolding read_table_def by (intro steady_bind steady_strings steady_nested)

lemma steady_rd_map: "steady m \<Longrightarrow> steady (rd_map f m)"
  unfolding rd_map_def by (intro steady_bind steady_return)

lemma steady_rd_if: "steady m \<Longrightarrow> steady (rd_if b m d)"
  by (simp add: rd_if_def)

lemmas steady_rules = steady_bind steady_if steady_rd_map steady_rd_if steady_ints steady_strings
  steady_table steady_return steady_fail steady_read_full

lemma steady_message_parse: "steady (message_parse c m)"
  unfolding message_parse_def connection_parse_def channel_parse_def exchange_parse_def
    queue_parse_def basic_parse_def tx_parse_def confirm_parse_def wire_defs
  by (intro steady_rules)

lemma steady_read_frame: "steady read_frame"
  unfolding read_frame_def Let_def parse_frame_def parse_method_frame_def parse_header_frame_def
    parse_body_frame_def parse_heartbeat_frame_def
  by (intro steady_rules steady_message_parse)

lemma read_frame_cut:
  assumes "frame_ok f" "frame_write f = Inr bs" "prefix p bs" "p \<noteq> bs"
  shows "\<exists>e r. read_frame p = (Inl e, r)"
proof (rule ccontr)
  assume "\<not> ?thesis"
  then obtain g r where g: "read_frame p = (Inr g, r)"
    by (metis old.sum.exhaust surj_pair)
  obtain q where q: "bs = p @ q"
    using assms(3) by (auto simp: prefix_def)
  have "read_frame bs = (Inr g, r @ q)"
    unfolding q by (rule steadyD [OF steady_read_frame g])
  moreover have "read_frame (bs @ []) = (Inr (frame_norm f), [])"
    using assms by (intro frame_readback)
  ultimately show False
    using q assms(4) by simp
qed

text \<open>From any initial part of the encoding of some frames an initial part of them is read.\<close>

lemma read_frames_prefix:
  assumes "list_all frame_ok fs" "write_many frame_write fs = Inr bs" "prefix p bs"
  shows "prefix (read_frames p) (map frame_norm fs)" "p = bs \<Longrightarrow> read_frames p = map frame_norm fs"
  using assms
proof (induction fs arbitrary: bs p)
  case Nil
  have "read_frame [] = (Inl EOF, [])"
    by (simp add: read_frame_def rd_bind_def read_full_def)
  then have "read_frames [] = []"
    by (subst read_frames.simps) simp
  {
    case 1
    with \<open>read_frames [] = []\<close> show ?case
      by simp
  next
    case 2
    with \<open>read_frames [] = []\<close> show ?case
      by simp
  }
next
  case (Cons f fs)
  have step: "prefix (read_frames p) (map frame_norm (f # fs)) \<and> (p = bs \<longrightarrow> read_frames p = map frame_norm (f # fs))"
    if ok: "list_all frame_ok (f # fs)" and w: "write_many frame_write (f # fs) = Inr bs" and p: "prefix p bs"
    for p bs
  proof -
    from w obtain x y where xy: "frame_write f = Inr x" "write_many frame_write fs = Inr y" "bs = x @ y"
      by (auto simp: wr_seq_eq_Inr)
    have fok: "frame_ok f" "list_all frame_ok fs"
      using ok by simp_all
    have "prefix p x \<or> (\<exists>q. p = x @ q \<and> prefix q y)"
      using p unfolding xy(3) prefix_append .
    then consider q where "p = x @ q" "prefix q y" | "prefix p x" "p \<noteq> x"
      by (cases "p = x") auto
    then show ?thesis
    proof cases
      case 1
      have "read_frame p = (Inr (frame_norm f), q)"
        unfolding 1 by (rule frame_readback [OF fok(1) xy(1)])
      then have "read_frames p = frame_norm f # read_frames q"
        by (subst read_frames.simps) simp
      moreover have "prefix (read_frames q) (map frame_norm fs)"
        by (rule Cons.IH(1) [OF fok(2) xy(2) 1(2)])
      moreover have "q = y \<Longrightarrow> read_frames q = map frame_norm fs"
        by (rule Cons.IH(2) [OF _ fok(2) xy(2) 1(2)])
      moreover have "p = bs \<longleftrightarrow> q = y"
        by (simp add: 1(1) xy(3))
      ultimately show ?thesis
        by simp
    next
      case 2
      then obtain e r where "read_frame p = (Inl e, r)"
        using read_frame_cut [OF fok(1) xy(1)] by blast
      then have "read_frames p = []"
        by (subst read_frames.simps) simp
      moreover have "p \<noteq> bs"
        using 2 xy(3) by (auto simp: prefix_def)
      ultimately show ?thesis
        by simp
    qed
  qed
  {
    case 1
    with step show ?case
      by blast
  next
    case 2
    with step show ?case
      by blast
  }
qed

section \<open>What a channel has on the wire\<close>

text \<open>
  \<open>carries_as P c fs\<close>: the frames with the property \<open>P\<close> that were handed to the connection are
  \<open>fs\<close>, interleaved with others and after the protocol header. An open connection has them
  all sent or buffered; whatever happened, only an initial part of the stream is out.
  \<open>carries k\<close> is the case of the frames of channel \<open>k\<close>.
\<close>

definition co_open :: "connection \<Rightarrow> bool" where
  "co_open c \<longleftrightarrow> \<not> co_closed c \<and> bw_err (co_writer c) = None"

definition selected :: "(frame \<Rightarrow> bool) \<Rightarrow> frame list \<Rightarrow> frame list" where
  "selected P = filter P"

abbreviation on_channel :: "16 word \<Rightarrow> frame list \<Rightarrow> frame list" where
  "on_channel k \<equiv> selected (\<lambda>f. frame_channel f = k)"

lemma selected_simps [simp]:
  "selected P [] = []"
  "selected P (f # fs) = (if P f then f # selected P fs else selected P fs)"
  "selected P (fs @ gs) = selected P fs @ selected P gs"
  by (simp_all add: selected_def)

definition carries_as :: "(frame \<Rightarrow> bool) \<Rightarrow> connection \<Rightarrow> frame list \<Rightarrow> bool" where
  "carries_as P c fs \<longleftrightarrow> (\<exists>sent bs. list_all frame_ok sent \<and> write_many frame_write sent = Inr bs
     \<and> selected P sent = fs \<and> bw_within (co_writer c) (protocol_header @ bs)
     \<and> (co_open c \<longrightarrow> bw_exact (co_writer c) (protocol_header @ bs)))"

abbreviation carries :: "16 word \<Rightarrow> connection \<Rightarrow> frame list \<Rightarrow> bool" where
  "carries k \<equiv> carries_as (\<lambda>f. frame_channel f = k)"

definition env_spares :: "(frame \<Rightarrow> bool) \<Rightarrow> connection \<Rightarrow> bool" where
  "env_spares P c \<longleftrightarrow> list_all (list_all (\<lambda>e. case e of EnvClose \<Rightarrow> True
     | EnvSend f \<Rightarrow> frame_ok f \<and> \<not> P f)) (co_env c)"

abbreviation env_ok :: "16 word \<Rightarrow> connection \<Rightarrow> bool" where
  "env_ok k \<equiv> env_spares (\<lambda>f. frame_channel f = k)"

lemma write_many_snoc:
  "write_many frame_write fs = Inr bs \<Longrightarrow> frame_write f = Inr b \<Longrightarrow> write_many frame_write (fs @ [f]) = Inr (bs @ b)"
  by (induction fs arbitrary: bs) (auto simp: wr_seq_eq_Inr)

lemma carries_frame:
  assumes "carries_as P c fs" "frame_ok f"
    and "\<And>s b. frame_write f = Inr b \<Longrightarrow> bw_within (co_writer c) s \<Longrightarrow>
           (co_open c \<Longrightarrow> bw_exact (co_writer c) s) \<Longrightarrow>
           bw_within (co_writer c') (s @ b) \<and> (co_open c' \<longrightarrow> bw_exact (co_writer c') (s @ b))"
  shows "carries_as P c' (fs @ selected P [f])"
proof -
  obtain sent bs where s: "list_all frame_ok sent" "write_many frame_write sent = Inr bs"
    "selected P sent = fs" "bw_within (co_writer c) (protocol_header @ bs)"
    "co_open c \<longrightarrow> bw_exact (co_writer c) (protocol_header @ bs)"
    using assms(1) unfolding carries_as_def by blast
  obtain b where b: "frame_write f = Inr b"
    using frame_written [OF assms(2)] by blast
  have "bw_within (co_writer c') ((protocol_header @ bs) @ b)
      \<and> (co_open c' \<longrightarrow> bw_exact (co_writer c') ((protocol_header @ bs) @ b))"
    by (rule assms(3) [OF b s(4)]) (use s(5) in simp)
  with s b assms(2) show ?thesis
    unfolding carries_as_def by (intro exI [of _ "sent @ [f]"] exI [of _ "bs @ b"]) (auto simp: write_many_snoc)
qed

lemma carries_cong:
  "carries_as P c fs \<Longrightarrow> co_writer c' = co_writer c \<Longrightarrow> (co_open c' \<Longrightarrow> co_open c) \<Longrightarrow> carries_as P c' fs"
  unfolding carries_as_def by metis

lemma co_sent_sel [simp]:
  "co_closed (snd (co_sent r c)) = co_closed c" "co_env (snd (co_sent r c)) = co_env c"
  "co_FrameSize (snd (co_sent r c)) = co_FrameSize c"
  "co_writer (snd (co_sent r c)) = snd r" "fst (co_sent r c) = None \<longleftrightarrow> fst r = None"
  by (auto simp: co_sent_def split: prod.splits option.splits)

lemma write_frame_exact:
  assumes "bw_exact w s" "frame_write f = Inr b" "write_frame_flush f w = (r, w')"
  shows "r = bw_err w' \<and> bw_within w' (s @ b) \<and> (r = None \<longrightarrow> bw_exact w' (s @ b) \<and> bw_buf w' = [])"
proof -
  obtain q v where q: "bw_write b w = (q, v)"
    by fastforce
  have ex: "q = bw_err v \<and> bw_within v (s @ b) \<and> (q = None \<longrightarrow> bw_exact v (s @ b))"
    by (rule bw_write_exact [OF assms(1) q])
  show ?thesis
  proof (cases q)
    case None
    with assms(2,3) q have "bw_flush v = (r, w')"
      by (simp add: write_frame_flush_def write_frame_no_flush_def)
    with ex None bw_flush_within [of v "s @ b" r w'] show ?thesis
      by auto
  next
    case (Some e)
    then have "r = Some e \<and> w' = v"
      using assms(3) by (simp add: write_frame_flush_def write_frame_no_flush_def assms(2) q)
    with ex Some show ?thesis
      by auto
  qed
qed

text \<open>Sending one frame, with and without the flush.\<close>

lemma co_send_now_carries:
  assumes "carries_as P c fs" "frame_ok f" "co_send_now f c = (r, c')"
  shows "carries_as P c' (fs @ selected P [f])" "r = None \<longleftrightarrow> co_open c'"
    "co_open c' \<Longrightarrow> co_open c \<and> bw_buf (co_writer c') = []"
    "co_env c' = co_env c" "co_FrameSize c' = co_FrameSize c"
proof -
  obtain b where b: "frame_write f = Inr b"
    using frame_written [OF assms(2)] by blast
  have "carries_as P c' (fs @ selected P [f]) \<and> (r = None \<longleftrightarrow> co_open c')
      \<and> (co_open c' \<longrightarrow> co_open c \<and> bw_buf (co_writer c') = [])
      \<and> co_env c' = co_env c \<and> co_FrameSize c' = co_FrameSize c"
  proof (cases "co_open c")
    case True
    then have c': "c' = snd (co_sent (write_frame_flush f (co_writer c)) c)"
      and r: "r = fst (co_sent (write_frame_flush f (co_writer c)) c)"
      using assms(3) by (auto simp: co_send_now_def co_open_def)
    obtain q w where q: "write_frame_flush f (co_writer c) = (q, w)"
      by fastforce
    have step: "q = bw_err w \<and> bw_within w (s @ b) \<and> (q = None \<longrightarrow> bw_exact w (s @ b) \<and> bw_buf w = [])"
      if "bw_exact (co_writer c) s" for s
      by (rule write_frame_exact [OF that b q])
    have w: "co_writer c' = w" "co_closed c' = co_closed c"
      by (simp_all add: c' q)
    have ex: "\<exists>s. bw_exact (co_writer c) s"
      using True assms(1) unfolding carries_as_def by blast
    have "carries_as P c' (fs @ selected P [f])"
      using assms(1,2) step w True b by (intro carries_frame) (auto simp: co_open_def)
    with ex step w True c' r q show ?thesis
      by (auto simp: co_open_def)
  next
    case False
    have w: "co_writer c' = co_writer c" "co_closed c' = co_closed c" "r \<noteq> None"
      "co_env c' = co_env c" "co_FrameSize c' = co_FrameSize c"
      using assms(3) False b
      by (auto simp: co_send_now_def co_open_def co_sent_def write_frame_flush_def write_frame_no_flush_def
          bw_write_failed split: if_splits)
    have "carries_as P c' (fs @ selected P [f])"
      by (rule carries_frame [OF assms(1,2)]) (use w False in \<open>auto simp: co_open_def bw_within_more\<close>)
    with w False show ?thesis
      by (auto simp: co_open_def)
  qed
  then show "carries_as P c' (fs @ selected P [f])" "r = None \<longleftrightarrow> co_open c'"
    "co_open c' \<Longrightarrow> co_open c \<and> bw_buf (co_writer c') = []"
    "co_env c' = co_env c" "co_FrameSize c' = co_FrameSize c"
    by auto
qed

lemma co_send_unflushed_now_carries:
  assumes "carries_as P c fs" "frame_ok f" "co_send_unflushed_now f c = (r, c')"
  shows "carries_as P c' (fs @ selected P [f])" "r = None \<longleftrightarrow> co_open c'"
    "co_open c' \<Longrightarrow> co_open c" "co_env c' = co_env c" "co_FrameSize c' = co_FrameSize c"
proof -
  obtain b where b: "frame_write f = Inr b"
    using frame_written [OF assms(2)] by blast
  have "carries_as P c' (fs @ selected P [f]) \<and> (r = None \<longleftrightarrow> co_open c')
      \<and> (co_open c' \<longrightarrow> co_open c)
      \<and> co_env c' = co_env c \<and> co_FrameSize c' = co_FrameSize c"
  proof (cases "co_open c")
    case True
    obtain q w where q: "bw_write b (co_writer c) = (q, w)"
      by fastforce
    have c': "c' = snd (co_sent (q, w) c)" and r: "r = fst (co_sent (q, w) c)"
      using assms(3) True by (auto simp: co_send_unflushed_now_def co_open_def write_frame_no_flush_def b q)
    have step: "q = bw_err w \<and> bw_within w (s @ b) \<and> (q = None \<longrightarrow> bw_exact w (s @ b))"
      if "bw_exact (co_writer c) s" for s
      by (rule bw_write_exact [OF that q])
    have w: "co_writer c' = w" "co_closed c' = co_closed c"
      by (simp_all add: c')
    have ex: "\<exists>s. bw_exact (co_writer c) s"
      using True assms(1) unfolding carries_as_def by blast
    have "carries_as P c' (fs @ selected P [f])"
      using assms(1,2) step w True b by (intro carries_frame) (auto simp: co_open_def)
    with ex step w True c' r show ?thesis
      by (auto simp: co_open_def)
  next
    case False
    have w: "co_writer c' = co_writer c" "co_closed c' = co_closed c" "r \<noteq> None"
      "co_env c' = co_env c" "co_FrameSize c' = co_FrameSize c"
      using assms(3) False b
      by (auto simp: co_send_unflushed_now_def co_open_def co_sent_def write_frame_no_flush_def
          bw_write_failed split: if_splits)
    have "carries_as P c' (fs @ selected P [f])"
      by (rule carries_frame [OF assms(1,2)]) (use w False in \<open>auto simp: co_open_def bw_within_more\<close>)
    with w False show ?thesis
      by (auto simp: co_open_def)
  qed
  then show "carries_as P c' (fs @ selected P [f])" "r = None \<longleftrightarrow> co_open c'"
    "co_open c' \<Longrightarrow> co_open c" "co_env c' = co_env c" "co_FrameSize c' = co_FrameSize c"
    by auto
qed

text \<open>The other goroutines add nothing to this channel.\<close>

lemma env_run_carries:
  assumes "carries_as P c fs"
    and "list_all (\<lambda>e. case e of EnvClose \<Rightarrow> True | EnvSend f \<Rightarrow> frame_ok f \<and> \<not> P f) es"
  shows "carries_as P (env_run es c) fs \<and> (co_open (env_run es c) \<longrightarrow> co_open c)
    \<and> co_env (env_run es c) = co_env c \<and> co_FrameSize (env_run es c) = co_FrameSize c"
  using assms
proof (induction es c rule: env_run.induct)
  case (1 c)
  then show ?case
    by simp
next
  case (2 f es c)
  obtain r c' where c': "co_send_now f c = (r, c')"
    by fastforce
  have f: "frame_ok f" "selected P [f] = []"
    using "2.prems"(2) by simp_all
  note now = co_send_now_carries [OF "2.prems"(1) f(1) c']
  have "carries_as P c' fs"
    using now(1) f(2) by simp
  with 2 c' now show ?case
    by simp
next
  case (3 es c)
  have "carries_as P (c\<lparr>co_closed := True\<rparr>) fs"
    using "3.prems"(1) by (rule carries_cong) (simp_all add: co_open_def)
  with 3 show ?case
    by (auto simp: co_open_def)
qed

lemma co_sync_carries:
  assumes "carries_as P c fs" "env_spares P c"
  shows "carries_as P (co_sync c) fs" "env_spares P (co_sync c)" "co_open (co_sync c) \<Longrightarrow> co_open c"
    "co_FrameSize (co_sync c) = co_FrameSize c"
proof -
  have "carries_as P (co_sync c) fs \<and> env_spares P (co_sync c) \<and> (co_open (co_sync c) \<longrightarrow> co_open c)
      \<and> co_FrameSize (co_sync c) = co_FrameSize c"
  proof (cases "co_env c")
    case Nil
    with assms show ?thesis
      by (simp add: co_sync_def)
  next
    case (Cons es ess)
    have "carries_as P (c\<lparr>co_env := ess\<rparr>) fs"
      using assms(1) by (rule carries_cong) (simp_all add: co_open_def)
    moreover have "list_all (\<lambda>e. case e of EnvClose \<Rightarrow> True
        | EnvSend f \<Rightarrow> frame_ok f \<and> \<not> P f) es"
      using assms(2) Cons by (simp add: env_spares_def)
    ultimately show ?thesis
      using env_run_carries [of P "c\<lparr>co_env := ess\<rparr>" fs es] assms(2) Cons
      by (simp add: co_sync_def env_spares_def co_open_def)
  qed
  then show "carries_as P (co_sync c) fs" "env_spares P (co_sync c)" "co_open (co_sync c) \<Longrightarrow> co_open c"
    "co_FrameSize (co_sync c) = co_FrameSize c"
    by auto
qed

text \<open>
  The three operations: the frame joins the channel's stream, no error means that the
  connection is still open, and after a flush without error on an open connection
  everything is out.
\<close>

lemma env_spares_cong: "co_env c' = co_env c \<Longrightarrow> env_spares P c' = env_spares P c"
  by (simp add: env_spares_def)

lemma co_send_carries:
  assumes "carries_as P c fs" "env_spares P c" "frame_ok f" "co_send f c = (r, c')"
  shows "carries_as P c' (fs @ selected P [f]) \<and> env_spares P c' \<and> (r = None \<longleftrightarrow> co_open c')
    \<and> (co_open c' \<longrightarrow> co_open c \<and> bw_buf (co_writer c') = []) \<and> co_FrameSize c' = co_FrameSize c"
  using co_send_now_carries [OF co_sync_carries(1) [OF assms(1,2)] assms(3)] co_sync_carries [OF assms(1,2)]
    assms(4) env_spares_cong unfolding co_send_def by metis

lemma co_send_unflushed_carries:
  assumes "carries_as P c fs" "env_spares P c" "frame_ok f" "co_send_unflushed f c = (r, c')"
  shows "carries_as P c' (fs @ selected P [f]) \<and> env_spares P c' \<and> (r = None \<longleftrightarrow> co_open c')
    \<and> (co_open c' \<longrightarrow> co_open c) \<and> co_FrameSize c' = co_FrameSize c"
  using co_send_unflushed_now_carries [OF co_sync_carries(1) [OF assms(1,2)] assms(3)] co_sync_carries [OF assms(1,2)]
    assms(4) env_spares_cong unfolding co_send_unflushed_def by metis

lemma co_flush_carries:
  assumes "carries_as P c fs" "env_spares P c" "co_flush c = (r, c')"
  shows "carries_as P c' fs \<and> env_spares P c' \<and> (co_open c' \<longrightarrow> co_open c \<and> r = None \<and> bw_buf (co_writer c') = [])
    \<and> co_FrameSize c' = co_FrameSize c"
proof -
  let ?c = "co_sync c"
  have s: "carries_as P ?c fs" "env_spares P ?c" "co_open ?c \<Longrightarrow> co_open c" "co_FrameSize ?c = co_FrameSize c"
    by (fact co_sync_carries [OF assms(1,2)])+
  obtain q w where q: "bw_flush (co_writer ?c) = (q, w)"
    by fastforce
  have c': "c' = ?c\<lparr>co_writer := w\<rparr>" "r = None \<longleftrightarrow> q = None"
    using assms(3) by (auto simp: co_flush_def co_flush_now_def q split: option.splits)
  obtain sent bs where sent: "list_all frame_ok sent" "write_many frame_write sent = Inr bs"
    "selected P sent = fs" "bw_within (co_writer ?c) (protocol_header @ bs)"
    "co_open ?c \<longrightarrow> bw_exact (co_writer ?c) (protocol_header @ bs)"
    using s(1) unfolding carries_as_def by blast
  note fl = bw_flush_within [OF sent(4) q]
  have op: "co_open c' \<Longrightarrow> co_open ?c \<and> q = None"
    using fl by (auto simp: c' co_open_def)
  have "carries_as P c' fs"
    unfolding carries_as_def using sent fl op by (auto simp: c')
  with s fl op c' show ?thesis
    by (auto simp: env_spares_def)
qed

section \<open>What has been written\<close>

text \<open>The frames in the bytes of a connection, after the protocol header one after the other, and
  those in the bytes that a connection has written on its socket.\<close>

definition frames_read :: "byte list \<Rightarrow> frame list" where
  "frames_read bs = read_frames (drop (length protocol_header) bs)"

definition wire_frames :: "connection \<Rightarrow> frame list" where
  "wire_frames c = frames_read (bw_out (co_writer c))"

lemma frame_channel_norm [simp]: "frame_channel (frame_norm f) = frame_channel f"
  by (cases f) (auto split: option.splits)

lemma selected_norm:
  "(\<And>f. P (frame_norm f) = P f) \<Longrightarrow> selected P (map frame_norm fs) = map frame_norm (selected P fs)"
  by (induction fs) auto

lemma drop_prefix: "prefix xs ys \<Longrightarrow> prefix (drop n xs) (drop n ys)"
  by (auto simp: prefix_def)

lemma selected_prefix: "prefix fs gs \<Longrightarrow> prefix (selected P fs) (selected P gs)"
  by (auto simp: prefix_def)

lemma carries_as_read:
  assumes "carries_as P c fs" "\<And>f. P (frame_norm f) = P f" "prefix p (bw_out (co_writer c))"
  shows "prefix (selected P (frames_read p)) (map frame_norm fs)"
    "co_open c \<Longrightarrow> bw_buf (co_writer c) = [] \<Longrightarrow> p = bw_out (co_writer c) \<Longrightarrow>
     selected P (frames_read p) = map frame_norm fs"
proof -
  let ?n = "length protocol_header"
  obtain sent bs where sent: "list_all frame_ok sent" "write_many frame_write sent = Inr bs"
    "selected P sent = fs" "bw_within (co_writer c) (protocol_header @ bs)"
    "co_open c \<longrightarrow> bw_exact (co_writer c) (protocol_header @ bs)"
    using assms(1) unfolding carries_as_def by blast
  have norm: "selected P (map frame_norm fs) = map frame_norm (selected P fs)" for fs
    by (rule selected_norm) (rule assms(2))
  have "prefix (drop ?n p) (drop ?n (protocol_header @ bs))"
    using assms(3) bw_within_out [OF sent(4)] by (intro drop_prefix) (rule prefix_order.trans)
  then have "prefix (drop ?n p) bs"
    by simp
  note pr = read_frames_prefix [OF sent(1,2) this]
  show "prefix (selected P (frames_read p)) (map frame_norm fs)"
    unfolding frames_read_def sent(3) [symmetric] norm [symmetric]
    by (rule selected_prefix, rule pr(1))
  assume "co_open c" "bw_buf (co_writer c) = []" "p = bw_out (co_writer c)"
  then have "drop ?n p = bs"
    using sent(5) by (auto simp: bw_exact_def)
  from pr(2) [OF this] show "selected P (frames_read p) = map frame_norm fs"
    unfolding frames_read_def sent(3) [symmetric] norm [symmetric] by simp
qed

lemma carries_as_wire:
  assumes "carries_as P c fs" "\<And>f. P (frame_norm f) = P f"
  shows "prefix (selected P (wire_frames c)) (map frame_norm fs)"
    "co_open c \<Longrightarrow> bw_buf (co_writer c) = [] \<Longrightarrow> selected P (wire_frames c) = map frame_norm fs"
  unfolding wire_frames_def using carries_as_read [OF assms] by simp_all

lemma carries_wire:
  assumes "carries k c fs"
  shows "prefix (on_channel k (wire_frames c)) (map frame_norm fs)"
    "co_open c \<Longrightarrow> bw_buf (co_writer c) = [] \<Longrightarrow> on_channel k (wire_frames c) = map frame_norm fs"
  using assms by (simp_all add: carries_as_wire)

lemma on_channel_norm: "on_channel k (map frame_norm fs) = map frame_norm (on_channel k fs)"
  by (rule selected_norm) simp

section \<open>Runs\<close>

text \<open>What one goroutine does with the connection, and the errors it gets.\<close>

datatype send_op = SendFrame frame | SendUnflushed frame | Flush

fun send_op_frames :: "send_op \<Rightarrow> frame list" where
  "send_op_frames (SendFrame f) = [f]"
| "send_op_frames (SendUnflushed f) = [f]"
| "send_op_frames Flush = []"

fun send_op_run :: "send_op \<Rightarrow> connection \<Rightarrow> goerr option \<times> connection" where
  "send_op_run (SendFrame f) c = co_send f c"
| "send_op_run (SendUnflushed f) c = co_send_unflushed f c"
| "send_op_run Flush c = co_flush c"

fun send_ops_run :: "send_op list \<Rightarrow> connection \<Rightarrow> connection" where
  "send_ops_run [] c = c"
| "send_ops_run (op # ops) c = send_ops_run ops (snd (send_op_run op c))"

text \<open>
  The frames one goroutine sends on channel \<open>k\<close>. The reader goroutine answers a channel.flow
  and a channel.close of the server on the same channel, at any time: these frames are not
  the sender's.
\<close>

fun reader_answer :: "message \<Rightarrow> bool" where
  "reader_answer (MChannel (ChannelFlowOk m)) = True"
| "reader_answer (MChannel (ChannelCloseOk m)) = True"
| "reader_answer m = False"

definition sender_frame :: "16 word \<Rightarrow> frame \<Rightarrow> bool" where
  "sender_frame k f \<longleftrightarrow> frame_channel f = k
     \<and> (case f of MethodFrame m \<Rightarrow> (case mf_Method m of None \<Rightarrow> True | Some msg \<Rightarrow> \<not> reader_answer msg) | _ \<Rightarrow> True)"

lemma reader_answer_norm [simp]: "reader_answer (message_norm msg) = reader_answer msg"
proof (cases msg)
  case (MChannel m)
  then show ?thesis
    by (cases m) simp_all
qed simp_all

lemma sender_frame_norm: "sender_frame k (frame_norm f) = sender_frame k f"
  by (cases f) (auto simp: sender_frame_def split: option.splits)

definition send_op_ok :: "16 word \<Rightarrow> send_op \<Rightarrow> bool" where
  "send_op_ok k op \<longleftrightarrow> list_all (\<lambda>f. frame_ok f \<and> sender_frame k f) (send_op_frames op)"

abbreviation carries_sender :: "16 word \<Rightarrow> connection \<Rightarrow> frame list \<Rightarrow> bool" where
  "carries_sender k \<equiv> carries_as (sender_frame k)"

lemma send_op_carries:
  assumes "carries_sender k c fs" "env_spares (sender_frame k) c" "send_op_ok k op"
  shows "carries_sender k (snd (send_op_run op c)) (fs @ send_op_frames op)
    \<and> env_spares (sender_frame k) (snd (send_op_run op c))"
proof (cases op)
  case (SendFrame f)
  with assms(3) co_send_carries [OF assms(1,2), of f "fst (co_send f c)" "snd (co_send f c)"] show ?thesis
    by (simp add: send_op_ok_def)
next
  case (SendUnflushed f)
  with assms(3) co_send_unflushed_carries [OF assms(1,2), of f "fst (co_send_unflushed f c)" "snd (co_send_unflushed f c)"]
  show ?thesis
    by (simp add: send_op_ok_def)
next
  case Flush
  with co_flush_carries [OF assms(1,2), of "fst (co_flush c)" "snd (co_flush c)"] show ?thesis
    by simp
qed

lemma send_ops_carries:
  "carries_sender k c fs \<Longrightarrow> env_spares (sender_frame k) c \<Longrightarrow> list_all (send_op_ok k) ops \<Longrightarrow>
   carries_sender k (send_ops_run ops c) (fs @ concat (map send_op_frames ops))
   \<and> env_spares (sender_frame k) (send_ops_run ops c)"
proof (induction ops arbitrary: c fs)
  case (Cons op ops)
  then show ?case
    using send_op_carries [of k c fs op] by fastforce
qed simp

definition opened :: "connection \<Rightarrow> bool" where
  "opened c \<longleftrightarrow> bw_err (co_writer c) = None \<and> bw_out (co_writer c) = protocol_header \<and> bw_buf (co_writer c) = []"

lemma opened_carries: "opened c \<Longrightarrow> carries_as P c []"
  unfolding carries_as_def opened_def
  by (rule exI [of _ "[]"], rule exI [of _ "[]"]) (simp add: bw_within_def bw_exact_def)

text \<open>C14. The frames of a sender on a channel go out in the order it handed them over, none twice
  and none invented, however the sends of other goroutines interleave (frames of other
  channels, and the channel.flow-ok and channel.close-ok that the reader goroutine sends on
  the same channel), wherever the network fails and whenever the connection is shut down:
  from every initial part of the bytes written on the socket a beginning of these frames is
  read. A run that ends with a flush and leaves the connection open has written all of them
  on the socket. That they reach the server is not claimed.\<close>
theorem frames_written_in_order:
  assumes "opened c" "env_spares (sender_frame k) c" "list_all (send_op_ok k) ops"
  shows "list_all (\<lambda>p. prefix (selected (sender_frame k) (frames_read p)) (map frame_norm (concat (map send_op_frames ops))))
      (prefixes (bw_out (co_writer (send_ops_run ops c))))
    \<and> (co_open (send_ops_run (ops @ [Flush]) c)
       \<longrightarrow> selected (sender_frame k) (wire_frames (send_ops_run (ops @ [Flush]) c))
           = map frame_norm (concat (map send_op_frames ops)))"
proof -
  let ?d = "send_ops_run ops c" and ?fs = "concat (map send_op_frames ops)"
  have d: "carries_sender k ?d ?fs" "env_spares (sender_frame k) ?d"
    using send_ops_carries [OF opened_carries [OF assms(1)] assms(2,3)] by simp_all
  have app: "send_ops_run (ops @ [op]) c = snd (send_op_run op ?d)" for op
    by (induction ops arbitrary: c) simp_all
  have "list_all (\<lambda>p. prefix (selected (sender_frame k) (frames_read p)) (map frame_norm ?fs))
      (prefixes (bw_out (co_writer ?d)))"
    using carries_as_read(1) [OF d(1) sender_frame_norm] by (simp add: list_all_iff)
  moreover have "carries_sender k (snd (co_flush ?d)) ?fs
      \<and> (co_open (snd (co_flush ?d)) \<longrightarrow> bw_buf (co_writer (snd (co_flush ?d))) = [])"
    using co_flush_carries [OF d, of "fst (co_flush ?d)" "snd (co_flush ?d)"] by auto
  ultimately show ?thesis
    using carries_as_wire(2) [where P = "sender_frame k", OF _ sender_frame_norm, of "snd (co_flush ?d)" ?fs] by (auto simp: app)
qed

definition heartbeat :: frame where
  "heartbeat = HeartbeatFrame \<lparr>hb_ChannelId = 0\<rparr>"

definition flow_ok_frame :: "16 word \<Rightarrow> frame" where
  "flow_ok_frame k = MethodFrame \<lparr>mf_ChannelId = k, mf_ClassId = 0, mf_MethodId = 0,
     mf_Method = Some (MChannel (ChannelFlowOk \<lparr>channelFlowOk_Active = True\<rparr>))\<rparr>"

definition broken_network :: connection where
  "broken_network = \<lparr>co_writer = \<lparr>bw_out = protocol_header, bw_buf = [], bw_err = None,
      bw_net = [(0, None), (3, Some ''broken pipe'')]\<rparr>,
     co_closed = False, co_shutdowns = [], co_FrameSize = 4096,
     co_env = [[EnvSend heartbeat, EnvSend (flow_ok_frame 1)], [EnvClose]]\<rparr>"

theorem frames_written_in_order_witness:
  "list_all (\<lambda>p. prefix (selected (sender_frame 1) (frames_read p)) [BodyFrame \<lparr>bf_ChannelId = 1, bf_Body = [7]\<rparr>])
    (prefixes (bw_out (co_writer (send_ops_run [SendUnflushed (BodyFrame \<lparr>bf_ChannelId = 1, bf_Body = [7]\<rparr>)] broken_network))))"
  using frames_written_in_order [of broken_network 1 "[SendUnflushed (BodyFrame \<lparr>bf_ChannelId = 1, bf_Body = [7]\<rparr>)]"]
  by (simp add: opened_def env_spares_def broken_network_def heartbeat_def flow_ok_frame_def send_op_ok_def
      sender_frame_def)

end
