(* ===== verification/Reassembly.thy ===== *)
theory Reassembly
  imports FrameCodec
begin

text \<open>
  The receiving state machine of a channel (\<open>recvMethod\<close>, \<open>recvHeader\<close> and \<open>recvContent\<close> of
  \<open>channel.go\<close>): it puts a message with content together from its method, header and body
  frames and hands each complete message to \<open>dispatch\<close>.
\<close>

section \<open>The state machine\<close>

datatype recv_state = RecvMethod | RecvHeader | RecvContent

record reassembly =
  ra_recv :: recv_state
  ra_message :: "basic_msg option"
  ra_header :: "header_frame option"
  ra_body :: "byte list"

definition new_reassembly :: reassembly where
  "new_reassembly = \<lparr>ra_recv = RecvMethod, ra_message = None, ra_header = None, ra_body = []\<rparr>"

text \<open>
  One frame either panics or leads to a state and possibly to a call of \<open>dispatch\<close>. (A
  method frame of the reader always carries its method.)
\<close>

datatype recv_result = RecvPanic | RecvNext reassembly "message option"

fun recv_method :: "frame \<Rightarrow> reassembly \<Rightarrow> recv_result" where
  "recv_method (MethodFrame f) ra =
     (case mf_Method f of
        None \<Rightarrow> RecvNext (ra\<lparr>ra_recv := RecvMethod\<rparr>) None
      | Some (MBasic m) \<Rightarrow>
          (if get_content m \<noteq> None
           then RecvNext (ra\<lparr>ra_body := [], ra_message := Some m, ra_recv := RecvHeader\<rparr>) None
           else RecvNext (ra\<lparr>ra_recv := RecvMethod\<rparr>) (Some (MBasic m)))
      | Some m \<Rightarrow> RecvNext (ra\<lparr>ra_recv := RecvMethod\<rparr>) (Some m))"
| "recv_method (HeaderFrame f) ra = RecvNext (ra\<lparr>ra_recv := RecvMethod\<rparr>) None"
| "recv_method (BodyFrame f) ra = RecvNext (ra\<lparr>ra_recv := RecvMethod\<rparr>) None"
| "recv_method (HeartbeatFrame f) ra = RecvPanic"

text \<open>\<open>ch.message.setContent(ch.header.Properties, ch.body)\<close> and the dispatch of the message.\<close>

definition recv_complete :: "reassembly \<Rightarrow> recv_result" where
  "recv_complete ra =
     (case (ra_message ra, ra_header ra) of
        (Some m, Some h) \<Rightarrow>
          (let m' = set_content (hf_Properties h) (ra_body ra) m
           in RecvNext (ra\<lparr>ra_message := Some m', ra_recv := RecvMethod\<rparr>) (Some (MBasic m')))
      | _ \<Rightarrow> RecvPanic)"

fun recv_header :: "frame \<Rightarrow> reassembly \<Rightarrow> recv_result" where
  "recv_header (MethodFrame f) ra = recv_method (MethodFrame f) ra"
| "recv_header (HeaderFrame f) ra =
     (let ra' = ra\<lparr>ra_header := Some f\<rparr>
      in if hf_Size f = 0 then recv_complete ra' else RecvNext (ra'\<lparr>ra_recv := RecvContent\<rparr>) None)"
| "recv_header (BodyFrame f) ra = RecvNext (ra\<lparr>ra_recv := RecvMethod\<rparr>) None"
| "recv_header (HeartbeatFrame f) ra = RecvPanic"

text \<open>
  The body is allocated at the first body frame with the capacity the header declares; on
  64-bit Linux the runtime panics above 2 to the 48 bytes.
\<close>

definition max_alloc :: nat where
  "max_alloc = 2 ^ 48"

fun recv_content :: "frame \<Rightarrow> reassembly \<Rightarrow> recv_result" where
  "recv_content (MethodFrame f) ra = recv_method (MethodFrame f) ra"
| "recv_content (HeaderFrame f) ra = RecvNext (ra\<lparr>ra_recv := RecvMethod\<rparr>) None"
| "recv_content (BodyFrame f) ra =
     (case ra_header ra of
        None \<Rightarrow> RecvPanic
      | Some h \<Rightarrow>
          (if ra_body ra = [] \<and> unat (hf_Size h) > max_alloc then RecvPanic
           else (let ra' = ra\<lparr>ra_body := ra_body ra @ bf_Body f\<rparr>
                 in if length (ra_body ra') \<ge> unat (hf_Size h) then recv_complete ra'
                    else RecvNext (ra'\<lparr>ra_recv := RecvContent\<rparr>) None)))"
| "recv_content (HeartbeatFrame f) ra = RecvPanic"

fun recv_frame :: "frame \<Rightarrow> reassembly \<Rightarrow> recv_result" where
  "recv_frame f ra =
     (case ra_recv ra of
        RecvMethod \<Rightarrow> recv_method f ra
      | RecvHeader \<Rightarrow> recv_header f ra
      | RecvContent \<Rightarrow> recv_content f ra)"

declare recv_frame.simps [simp del]

text \<open>A sequence of frames: the state after it and the messages dispatched, or a panic.\<close>

fun recv_all :: "frame list \<Rightarrow> reassembly \<Rightarrow> (reassembly \<times> message list) option" where
  "recv_all [] ra = Some (ra, [])"
| "recv_all (f # fs) ra =
     (case recv_frame f ra of
        RecvPanic \<Rightarrow> None
      | RecvNext ra' d \<Rightarrow>
          (case recv_all fs ra' of
             None \<Rightarrow> None
           | Some (ra'', ms) \<Rightarrow> Some (ra'', (case d of None \<Rightarrow> ms | Some m \<Rightarrow> m # ms))))"

section \<open>Invariant\<close>

text \<open>Past the method there is a message that takes content, past the header a header.\<close>

definition ra_inv :: "reassembly \<Rightarrow> bool" where
  "ra_inv ra \<longleftrightarrow>
     (ra_recv ra \<noteq> RecvMethod \<longrightarrow> (\<exists>m. ra_message ra = Some m \<and> get_content m \<noteq> None))
     \<and> (ra_recv ra = RecvContent \<longrightarrow> ra_header ra \<noteq> None)"

lemma ra_inv_new: "ra_inv new_reassembly"
  by (simp add: ra_inv_def new_reassembly_def)

lemma recv_method_inv: "recv_method f ra = RecvNext ra' d \<Longrightarrow> ra_inv ra'"
  by (cases f) (auto simp: ra_inv_def split: option.splits message.splits if_splits)

lemma recv_complete_inv: "recv_complete ra = RecvNext ra' d \<Longrightarrow> ra_inv ra'"
  by (auto simp: recv_complete_def ra_inv_def Let_def split: option.splits)

lemma recv_frame_inv:
  assumes "ra_inv ra" "recv_frame f ra = RecvNext ra' d"
  shows "ra_inv ra'"
proof (cases "ra_recv ra")
  case RecvMethod
  with assms(2) show ?thesis
    by (auto simp: recv_frame.simps intro: recv_method_inv)
next
  case RecvHeader
  with assms show ?thesis
    by (cases f) (auto simp: recv_frame.simps Let_def ra_inv_def split: if_splits
        dest: recv_method_inv recv_complete_inv simp del: recv_method.simps)
next
  case RecvContent
  with assms show ?thesis
    by (cases f) (auto simp: recv_frame.simps Let_def ra_inv_def split: if_splits option.splits
        dest: recv_method_inv recv_complete_inv simp del: recv_method.simps)
qed

lemma recv_all_inv: "ra_inv ra \<Longrightarrow> recv_all fs ra = Some (ra', ms) \<Longrightarrow> ra_inv ra'"
  by (induction fs arbitrary: ra ms) (auto split: recv_result.splits option.splits dest: recv_frame_inv)

text \<open>The frames that panic, in a reachable state.\<close>

definition panics :: "frame \<Rightarrow> reassembly \<Rightarrow> bool" where
  "panics f ra \<longleftrightarrow> (case f of
       HeartbeatFrame h \<Rightarrow> True
     | BodyFrame b \<Rightarrow> ra_recv ra = RecvContent \<and> ra_body ra = []
         \<and> (case ra_header ra of Some h \<Rightarrow> unat (hf_Size h) > max_alloc | None \<Rightarrow> False)
     | _ \<Rightarrow> False)"

lemma recv_method_panic: "recv_method f ra = RecvPanic \<longleftrightarrow> (\<exists>h. f = HeartbeatFrame h)"
  by (cases f) (auto split: option.splits message.splits if_splits)

lemma recv_complete_panic: "recv_complete ra = RecvPanic \<longleftrightarrow> ra_message ra = None \<or> ra_header ra = None"
  by (auto simp: recv_complete_def Let_def split: option.splits)

lemma recv_frame_panic:
  "ra_inv ra \<Longrightarrow> recv_frame f ra = RecvPanic \<longleftrightarrow> panics f ra"
  by (cases "ra_recv ra"; cases f)
     (auto simp: recv_frame.simps recv_method_panic recv_complete_panic panics_def ra_inv_def Let_def
       split: option.splits if_splits simp del: recv_method.simps)

section \<open>Reassembling what was sent\<close>

text \<open>
  The frames of one message with content: the method, the header with the length of the
  body, and the body in pieces.
\<close>

definition content_frames :: "16 word \<Rightarrow> basic_msg \<Rightarrow> byte list list \<Rightarrow> frame list" where
  "content_frames ch m pieces =
     (case get_content m of
        None \<Rightarrow> []
      | Some (p, b) \<Rightarrow>
          MethodFrame \<lparr>mf_ChannelId = ch, mf_ClassId = 0, mf_MethodId = 0, mf_Method = Some (MBasic m)\<rparr>
          # HeaderFrame \<lparr>hf_ChannelId = ch, hf_ClassId = fst (basic_id m), hf_weight = 0,
              hf_Size = word_of_nat (length b), hf_Properties = p\<rparr>
          # map (\<lambda>x. BodyFrame \<lparr>bf_ChannelId = ch, bf_Body = x\<rparr>) pieces)"

definition cuts :: "byte list \<Rightarrow> byte list list \<Rightarrow> bool" where
  "cuts b pieces \<longleftrightarrow> concat pieces = b \<and> [] \<notin> set pieces"

lemma recv_pieces:
  assumes "ra_recv ra = RecvContent" "ra_message ra = Some m" "ra_header ra = Some h"
    and "pieces \<noteq> []" "[] \<notin> set pieces"
    and "unat (hf_Size h) = length (ra_body ra @ concat pieces)" "unat (hf_Size h) \<le> max_alloc"
  shows "\<exists>ra'. recv_all (map (\<lambda>x. BodyFrame \<lparr>bf_ChannelId = ch, bf_Body = x\<rparr>) pieces) ra
    = Some (ra', [MBasic (set_content (hf_Properties h) (ra_body ra @ concat pieces) m)])"
  using assms
proof (induction pieces arbitrary: ra)
  case (Cons x xs)
  let ?ra = "ra\<lparr>ra_body := ra_body ra @ x, ra_recv := RecvContent\<rparr>"
  show ?case
  proof (cases xs)
    case Nil
    with Cons.prems show ?thesis
      by (simp add: recv_frame.simps recv_complete_def Let_def)
  next
    case (Cons y ys)
    have short: "\<not> length (ra_body ra @ x) \<ge> unat (hf_Size h)"
      using Cons.prems(5,6) Cons by (cases y) auto
    have "\<exists>ra'. recv_all (map (\<lambda>x. BodyFrame \<lparr>bf_ChannelId = ch, bf_Body = x\<rparr>) xs) ?ra
        = Some (ra', [MBasic (set_content (hf_Properties h) (ra_body ?ra @ concat xs) m)])"
      using Cons.prems Cons by (intro Cons.IH) auto
    with short Cons.prems show ?thesis
      by (auto simp: recv_frame.simps Let_def)
  qed
qed simp

lemma recv_content_frames:
  assumes m: "get_content m = Some (p, b)" and b: "cuts b pieces" "length b \<le> max_alloc"
  shows "\<exists>ra'. recv_all (map frame_norm (content_frames ch m pieces)) ra
           = Some (ra', [MBasic (set_content (properties_norm p) b (basic_norm m))])"
proof -
  let ?mf = "\<lparr>mf_ChannelId = ch, mf_ClassId = 0, mf_MethodId = 0, mf_Method = Some (MBasic m)\<rparr>"
  let ?h = "\<lparr>hf_ChannelId = ch, hf_ClassId = fst (basic_id m), hf_weight = 0,
      hf_Size = word_of_nat (length b), hf_Properties = properties_norm p\<rparr>"
  let ?ra1 = "ra\<lparr>ra_body := [], ra_message := Some (basic_norm m), ra_recv := RecvHeader\<rparr>"
  have gc: "get_content (basic_norm m) \<noteq> None"
    using m by (cases m) auto
  have 1: "recv_frame (frame_norm (MethodFrame ?mf)) ra = RecvNext ?ra1 None"
    using gc by (cases "ra_recv ra") (auto simp: recv_frame.simps)
  have size: "unat (word_of_nat (length b) :: 64 word) = length b"
    using b(2) by (simp add: max_alloc_def unat_of_nat)
  let ?bodies = "map (\<lambda>x. BodyFrame \<lparr>bf_ChannelId = ch, bf_Body = x\<rparr>) pieces"
  have frames: "map frame_norm (content_frames ch m pieces) = frame_norm (MethodFrame ?mf)
      # frame_norm (HeaderFrame (?h\<lparr>hf_Properties := p\<rparr>)) # ?bodies"
    by (simp add: content_frames_def m)
  have "\<exists>ra'. recv_all (frame_norm (HeaderFrame (?h\<lparr>hf_Properties := p\<rparr>)) # ?bodies) ?ra1
      = Some (ra', [MBasic (set_content (properties_norm p) b (basic_norm m))])"
  proof (cases "b = []")
    case True
    then have "pieces = []"
      using b(1) by (cases pieces) (auto simp: cuts_def)
    with True show ?thesis
      by (simp add: recv_frame.simps recv_complete_def Let_def)
  next
    case False
    let ?ra2 = "?ra1\<lparr>ra_header := Some ?h, ra_recv := RecvContent\<rparr>"
    have ne: "pieces \<noteq> []" "[] \<notin> set pieces" "concat pieces = b"
      using b(1) False by (auto simp: cuts_def)
    have "(word_of_nat (length b) :: 64 word) \<noteq> 0"
      using size False by (metis length_0_conv unat_0)
    then have 2: "recv_frame (HeaderFrame ?h) ?ra1 = RecvNext ?ra2 None"
      by (simp add: recv_frame.simps Let_def)
    have "\<exists>ra'. recv_all ?bodies ?ra2
        = Some (ra', [MBasic (set_content (hf_Properties ?h) (ra_body ?ra2 @ concat pieces) (basic_norm m))])"
      using ne b(2) size by (intro recv_pieces) auto
    with 2 ne show ?thesis
      by auto
  qed
  with 1 show ?thesis
    unfolding frames by (subst recv_all.simps) auto
qed


section \<open>Properties\<close>

text \<open>C15. The frames of a message with content make the receiver dispatch exactly that message with
  its properties and body, whatever way the body was cut and whatever the receiver was
  in the middle of.\<close>
theorem content_reassembled:
  assumes "get_content m = Some (p, b)" "cuts b pieces" "length b \<le> max_alloc"
  shows "\<exists>ra'. recv_all (map frame_norm (content_frames ch m pieces)) ra
           = Some (ra', [MBasic (set_content (properties_norm p) b (basic_norm m))])"
  by (rule recv_content_frames [OF assms])

definition sample_deliver :: basic_msg where
  "sample_deliver = BasicReturn \<lparr>basicReturn_ReplyCode = 312, basicReturn_ReplyText = ''NO_ROUTE'',
     basicReturn_Exchange = '''', basicReturn_RoutingKey = ''q'', basicReturn_Properties = zero_properties,
     basicReturn_Body = [1, 2, 3]\<rparr>"

theorem content_reassembled_witness:
  "\<exists>ra'. recv_all (map frame_norm (content_frames 1 sample_deliver [[1], [2, 3]])) new_reassembly
     = Some (ra', [MBasic (set_content (properties_norm zero_properties) [1, 2, 3] (basic_norm sample_deliver))])"
  by (rule content_reassembled) (simp_all add: sample_deliver_def cuts_def max_alloc_def)

text \<open>C28. After any frames the receiver panics on exactly two kinds of frame: a heartbeat frame on
  the channel, and the first body frame after a header that announces more bytes than a Go
  slice can hold.\<close>
theorem receiver_panics:
  assumes "recv_all fs new_reassembly = Some (ra, ms)"
  shows "recv_frame f ra = RecvPanic \<longleftrightarrow> panics f ra"
  using recv_all_inv [OF ra_inv_new assms] by (rule recv_frame_panic)

theorem receiver_panics_witness:
  "recv_frame (HeartbeatFrame \<lparr>hb_ChannelId = 1\<rparr>) new_reassembly = RecvPanic"
  using receiver_panics [of "[]" new_reassembly "[]" "HeartbeatFrame \<lparr>hb_ChannelId = 1\<rparr>"]
  by (simp add: panics_def)

end
