(* ===== verification/Confirms.thy ===== *)
theory Confirms
  imports GoPrelude "HOL-Library.AList" "HOL-Library.Multiset"
begin

text \<open>
  \<open>confirms.go\<close>: publisher confirms. The server confirms publishings one by one or several
  at once, in any order; the listeners are to hear of them in publishing order, and each
  publishing has a future of its own, its deferred confirmation.
\<close>

section \<open>State\<close>

text \<open>
  A delivery tag is a \<open>uint64\<close>: a natural number with the successor taken modulo 2 to the
  64. Every deferred confirmation ever handed out is an element of \<open>cs_objs\<close>, which the map
  \<open>cs_dmap\<close> refers to by index (the pointers of the Go map); \<open>dc_done\<close> says that its channel
  is closed. A listener is the list of the confirmations sent to it. Closing a closed
  channel panics, which \<open>cs_panic\<close> records.
\<close>

definition u64_succ :: "nat \<Rightarrow> nat" where
  "u64_succ n = (n + 1) mod 2 ^ 64"

definition u64 :: "nat \<Rightarrow> nat" where
  "u64 n = n mod 2 ^ 64"

lemma u64_succ_u64 [simp]: "u64_succ (u64 n) = u64 (Suc n)"
  by (simp add: u64_succ_def u64_def mod_Suc_eq)

text \<open>The tags of the first \<open>n\<close> publishings.\<close>

definition first_tags :: "nat \<Rightarrow> nat list" where
  "first_tags n = map (\<lambda>i. u64 (Suc i)) [0..<n]"

lemma first_tags_simps [simp]: "first_tags 0 = []" "first_tags (Suc n) = first_tags n @ [u64 (Suc n)]"
  by (simp_all add: first_tags_def)

definition u64_pred :: "nat \<Rightarrow> nat" where
  "u64_pred n = (n + (2 ^ 64 - 1)) mod 2 ^ 64"

record confirmation =
  cf_DeliveryTag :: nat
  cf_Ack :: bool

record deferred_confirmation =
  dc_DeliveryTag :: nat
  dc_done :: bool
  dc_ack :: bool

record confirms =
  cs_listeners :: "confirmation list list"
  cs_sequencer :: "(nat \<times> confirmation) list"
  cs_dmap :: "(nat \<times> nat) list"
  cs_objs :: "deferred_confirmation list"
  cs_published :: nat
  cs_expecting :: nat
  cs_panic :: bool

definition new_confirms :: confirms where
  "new_confirms = \<lparr>cs_listeners = [], cs_sequencer = [], cs_dmap = [], cs_objs = [],
     cs_published = 0, cs_expecting = 1, cs_panic = False\<rparr>"

definition listen :: "confirms \<Rightarrow> confirms" where
  "listen c = c\<lparr>cs_listeners := cs_listeners c @ [[]]\<rparr>"

section \<open>Deferred confirmations\<close>

definition dc_add :: "nat \<Rightarrow> confirms \<Rightarrow> nat \<times> confirms" where
  "dc_add tag c =
     (length (cs_objs c),
      c\<lparr>cs_objs := cs_objs c @ [\<lparr>dc_DeliveryTag = tag, dc_done = False, dc_ack = False\<rparr>],
        cs_dmap := AList.update tag (length (cs_objs c)) (cs_dmap c)\<rparr>)"

text \<open>\<open>close(dc.done)\<close>, with or without setting \<open>dc.ack\<close> before.\<close>

definition dc_close :: "nat \<Rightarrow> confirms \<Rightarrow> confirms" where
  "dc_close i c =
     c\<lparr>cs_objs := (cs_objs c)[i := (cs_objs c ! i)\<lparr>dc_done := True\<rparr>],
       cs_panic := cs_panic c \<or> dc_done (cs_objs c ! i)\<rparr>"

definition dc_set_ack :: "nat \<Rightarrow> bool \<Rightarrow> confirms \<Rightarrow> confirms" where
  "dc_set_ack i ack c = dc_close i (c\<lparr>cs_objs := (cs_objs c)[i := (cs_objs c ! i)\<lparr>dc_ack := ack\<rparr>]\<rparr>)"

definition dc_delete :: "nat \<Rightarrow> confirms \<Rightarrow> confirms" where
  "dc_delete tag c = c\<lparr>cs_dmap := AList.delete tag (cs_dmap c)\<rparr>"

definition dc_remove :: "nat \<Rightarrow> confirms \<Rightarrow> confirms" where
  "dc_remove tag c =
     (case map_of (cs_dmap c) tag of
        None \<Rightarrow> c
      | Some i \<Rightarrow> dc_delete tag (dc_close i c))"

definition dc_confirm :: "confirmation \<Rightarrow> confirms \<Rightarrow> confirms" where
  "dc_confirm cf c =
     (case map_of (cs_dmap c) (cf_DeliveryTag cf) of
        None \<Rightarrow> c
      | Some i \<Rightarrow> dc_delete (cf_DeliveryTag cf) (dc_set_ack i (cf_Ack cf) c))"

text \<open>The loops over the map, for the keys that pass a test, each entry once in some order.\<close>

definition dc_resolve :: "(nat \<Rightarrow> bool) \<Rightarrow> bool \<Rightarrow> confirms \<Rightarrow> confirms" where
  "dc_resolve P ack c =
     fold (\<lambda>(k, i) c. dc_delete k (dc_set_ack i ack c)) (filter (\<lambda>(k, i). P k) (cs_dmap c)) c"

definition dc_confirm_multiple :: "confirmation \<Rightarrow> confirms \<Rightarrow> confirms" where
  "dc_confirm_multiple cf = dc_resolve (\<lambda>k. k \<le> cf_DeliveryTag cf) (cf_Ack cf)"


definition dc_acked :: "deferred_confirmation \<Rightarrow> bool" where
  "dc_acked d = (if dc_done d then dc_ack d else False)"

section \<open>Publishing and confirming\<close>

definition cs_publish :: "confirms \<Rightarrow> nat \<times> confirms" where
  "cs_publish c =
     (let tag = u64_succ (cs_published c) in dc_add tag (c\<lparr>cs_published := tag\<rparr>))"

definition cs_unpublish :: "confirms \<Rightarrow> confirms" where
  "cs_unpublish c =
     (let c1 = dc_remove (cs_published c) c in c1\<lparr>cs_published := u64_pred (cs_published c1)\<rparr>)"

definition cs_confirm :: "confirmation \<Rightarrow> confirms \<Rightarrow> confirms" where
  "cs_confirm cf c =
     c\<lparr>cs_sequencer := AList.delete (cs_expecting c) (cs_sequencer c),
       cs_expecting := u64_succ (cs_expecting c),
       cs_listeners := map (\<lambda>l. l @ [cf]) (cs_listeners c)\<rparr>"

lemma length_delete_found: "map_of xs k = Some v \<Longrightarrow> length (AList.delete k xs) < length xs"
  by (induction xs) (auto simp: AList.delete_eq intro: le_imp_less_Suc split: if_splits)

function cs_resequence :: "confirms \<Rightarrow> confirms" where
  "cs_resequence c =
     (if cs_expecting c \<le> cs_published c
      then (case map_of (cs_sequencer c) (cs_expecting c) of
              None \<Rightarrow> c
            | Some sequenced \<Rightarrow> cs_resequence (cs_confirm sequenced c))
      else c)"
  by pat_completeness auto
termination
  by (relation "measure (\<lambda>c. length (cs_sequencer c))") (auto simp: cs_confirm_def length_delete_found)

declare cs_resequence.simps [simp del]

definition cs_one :: "confirmation \<Rightarrow> confirms \<Rightarrow> confirms" where
  "cs_one cf c =
     (let c1 = dc_confirm cf c;
          c2 = (if cs_expecting c1 = cf_DeliveryTag cf then cs_confirm cf c1
                else c1\<lparr>cs_sequencer := AList.update (cf_DeliveryTag cf) cf (cs_sequencer c1)\<rparr>)
      in cs_resequence c2)"

text \<open>The loop of \<open>Multiple\<close> does not end for the largest tag, where \<open>expecting\<close> wraps.\<close>

partial_function (option) cs_multiple_loop :: "nat \<Rightarrow> bool \<Rightarrow> confirms \<Rightarrow> confirms option" where
  "cs_multiple_loop tag ack c =
     (if cs_expecting c \<le> tag
      then cs_multiple_loop tag ack (cs_confirm \<lparr>cf_DeliveryTag = cs_expecting c, cf_Ack = ack\<rparr> c)
      else Some c)"

definition cs_multiple :: "confirmation \<Rightarrow> confirms \<Rightarrow> confirms option" where
  "cs_multiple cf c =
     (case cs_multiple_loop (cf_DeliveryTag cf) (cf_Ack cf) (dc_confirm_multiple cf c) of
        None \<Rightarrow> None
      | Some c1 \<Rightarrow> Some (cs_resequence c1))"


section \<open>Runs\<close>

datatype confirm_op = Publish | Unpublish | One confirmation | Multiple confirmation

fun confirm_step :: "confirm_op \<Rightarrow> confirms \<Rightarrow> confirms option" where
  "confirm_step Publish c = Some (snd (cs_publish c))"
| "confirm_step Unpublish c = Some (cs_unpublish c)"
| "confirm_step (One cf) c = Some (cs_one cf c)"
| "confirm_step (Multiple cf) c = cs_multiple cf c"

fun confirm_run :: "confirm_op list \<Rightarrow> confirms \<Rightarrow> confirms option" where
  "confirm_run [] c = Some c"
| "confirm_run (op # ops) c =
     (case confirm_step op c of None \<Rightarrow> None | Some c' \<Rightarrow> confirm_run ops c')"


section \<open>The listeners hear of every tag once and in order\<close>

text \<open>The deferred confirmations and the sequencing do not touch each other.\<close>

lemma dc_frame [simp]:
  "cs_listeners (dc_set_ack i a c) = cs_listeners c" "cs_sequencer (dc_set_ack i a c) = cs_sequencer c"
  "cs_published (dc_set_ack i a c) = cs_published c" "cs_expecting (dc_set_ack i a c) = cs_expecting c"
  "cs_dmap (dc_set_ack i a c) = cs_dmap c"
  "cs_listeners (dc_close i c) = cs_listeners c" "cs_sequencer (dc_close i c) = cs_sequencer c"
  "cs_published (dc_close i c) = cs_published c" "cs_expecting (dc_close i c) = cs_expecting c"
  "cs_dmap (dc_close i c) = cs_dmap c"
  "cs_listeners (dc_delete k c) = cs_listeners c" "cs_sequencer (dc_delete k c) = cs_sequencer c"
  "cs_published (dc_delete k c) = cs_published c" "cs_expecting (dc_delete k c) = cs_expecting c"
  "cs_objs (dc_delete k c) = cs_objs c" "cs_panic (dc_delete k c) = cs_panic c"
  by (simp_all add: dc_set_ack_def dc_close_def dc_delete_def)

lemma dc_fold_frame:
  fixes L :: "(nat \<times> nat) list" and a :: bool
  defines "f \<equiv> \<lambda>(k, i) c. dc_delete k (dc_set_ack i a c)"
  shows "cs_listeners (fold f L c) = cs_listeners c \<and> cs_sequencer (fold f L c) = cs_sequencer c
    \<and> cs_published (fold f L c) = cs_published c \<and> cs_expecting (fold f L c) = cs_expecting c"
  by (induction L arbitrary: c) (auto simp: f_def)

lemma dc_frames [simp]:
  "cs_listeners (dc_confirm cf c) = cs_listeners c" "cs_sequencer (dc_confirm cf c) = cs_sequencer c"
  "cs_published (dc_confirm cf c) = cs_published c" "cs_expecting (dc_confirm cf c) = cs_expecting c"
  "cs_listeners (dc_confirm_multiple cf c) = cs_listeners c"
  "cs_sequencer (dc_confirm_multiple cf c) = cs_sequencer c"
  "cs_published (dc_confirm_multiple cf c) = cs_published c"
  "cs_expecting (dc_confirm_multiple cf c) = cs_expecting c"
  "cs_listeners (dc_remove k c) = cs_listeners c" "cs_sequencer (dc_remove k c) = cs_sequencer c"
  "cs_expecting (dc_remove k c) = cs_expecting c" "cs_published (dc_remove k c) = cs_published c"
  by (simp_all add: dc_confirm_def dc_confirm_multiple_def dc_resolve_def dc_remove_def dc_fold_frame
      split: option.split)

lemma publish_frames [simp]:
  "cs_listeners (snd (cs_publish c)) = cs_listeners c" "cs_sequencer (snd (cs_publish c)) = cs_sequencer c"
  "cs_expecting (snd (cs_publish c)) = cs_expecting c"
  "cs_published (snd (cs_publish c)) = u64_succ (cs_published c)"
  "cs_listeners (cs_unpublish c) = cs_listeners c" "cs_sequencer (cs_unpublish c) = cs_sequencer c"
  "cs_expecting (cs_unpublish c) = cs_expecting c"
  by (simp_all add: cs_publish_def cs_unpublish_def dc_add_def Let_def)

definition in_order :: "confirms \<Rightarrow> bool" where
  "in_order c \<longleftrightarrow> (\<forall>(k, cf) \<in> set (cs_sequencer c). cf_DeliveryTag cf = k)
     \<and> (\<exists>l. cs_listeners c = [l] \<and> cs_expecting c = u64 (Suc (length l))
           \<and> map cf_DeliveryTag l = first_tags (length l))"

lemma in_order_cong:
  "cs_sequencer c' = cs_sequencer c \<Longrightarrow> cs_listeners c' = cs_listeners c \<Longrightarrow>
   cs_expecting c' = cs_expecting c \<Longrightarrow> in_order c' = in_order c"
  by (simp add: in_order_def)

lemma set_update_subset: "set (AList.update k v xs) \<subseteq> insert (k, v) (set xs)"
  by (induction xs) auto

lemma cs_confirm_in_order:
  assumes "in_order c" "cf_DeliveryTag cf = cs_expecting c"
  shows "in_order (cs_confirm cf c)"
proof -
  have "set (AList.delete (cs_expecting c) (cs_sequencer c)) \<subseteq> set (cs_sequencer c)"
    by (auto simp: AList.delete_eq)
  with assms show ?thesis
    by (auto simp: in_order_def cs_confirm_def)
qed

lemma cs_resequence_in_order: "in_order c \<Longrightarrow> in_order (cs_resequence c)"
proof (induction c rule: cs_resequence.induct)
  case (1 c)
  show ?case
  proof (cases "cs_expecting c \<le> cs_published c \<and> map_of (cs_sequencer c) (cs_expecting c) \<noteq> None")
    case True
    then obtain s where s: "cs_expecting c \<le> cs_published c" "map_of (cs_sequencer c) (cs_expecting c) = Some s"
      by blast
    then have "cf_DeliveryTag s = cs_expecting c"
      using "1.prems" map_of_SomeD [OF s(2)] by (auto simp: in_order_def)
    with "1.IH" [OF s] "1.prems" s show ?thesis
      by (simp add: cs_resequence.simps [of c] cs_confirm_in_order)
  next
    case False
    with "1.prems" show ?thesis
      by (auto simp: cs_resequence.simps [of c])
  qed
qed

lemma cs_one_in_order: "in_order c \<Longrightarrow> in_order (cs_one cf c)"
proof -
  assume c: "in_order c"
  then have d: "in_order (dc_confirm cf c)"
    by (simp add: in_order_cong [of "dc_confirm cf c" c])
  have "in_order ((dc_confirm cf c)\<lparr>cs_sequencer := AList.update (cf_DeliveryTag cf) cf (cs_sequencer c)\<rparr>)"
    using c set_update_subset [of "cf_DeliveryTag cf" cf "cs_sequencer c"]
    by (auto simp: in_order_def)
  moreover have "cs_expecting c = cf_DeliveryTag cf \<Longrightarrow> in_order (cs_confirm cf (dc_confirm cf c))"
    using d by (intro cs_confirm_in_order) simp_all
  ultimately show ?thesis
    by (simp add: cs_one_def Let_def cs_resequence_in_order)
qed

lemma cs_multiple_loop_in_order:
  assumes "cs_multiple_loop tag ack c = Some c'"
  shows "in_order c \<longrightarrow> in_order c'"
proof (rule cs_multiple_loop.raw_induct [of "\<lambda>tag ack c c'. in_order c \<longrightarrow> in_order c'", OF _ assms])
  fix loop tag ack c c'
  assume IH: "\<And>tag ack c c'. loop tag ack c = Some c' \<Longrightarrow> in_order c \<longrightarrow> in_order c'"
    and body: "(if cs_expecting c \<le> tag
      then loop tag ack (cs_confirm \<lparr>cf_DeliveryTag = cs_expecting c, cf_Ack = ack\<rparr> c)
      else Some c) = Some c'"
  have "in_order c \<Longrightarrow> in_order (cs_confirm \<lparr>cf_DeliveryTag = cs_expecting c, cf_Ack = ack\<rparr> c)"
    by (simp add: cs_confirm_in_order)
  with IH body show "in_order c \<longrightarrow> in_order c'"
    by (auto split: if_splits)
qed

lemma confirm_step_in_order:
  "in_order c \<Longrightarrow> confirm_step op c = Some c' \<Longrightarrow> in_order c'"
proof (induction op)
  case (Multiple cf)
  have "in_order (dc_confirm_multiple cf c)"
    using Multiple by (simp add: in_order_cong [of "dc_confirm_multiple cf c" c])
  with Multiple show ?case
    by (auto simp: cs_multiple_def intro: cs_resequence_in_order dest: cs_multiple_loop_in_order
        split: option.splits)
qed (auto simp: cs_one_in_order in_order_cong [of "snd (cs_publish c)" c] in_order_cong [of "cs_unpublish c" c])

lemma confirm_run_in_order:
  "in_order c \<Longrightarrow> confirm_run ops c = Some c' \<Longrightarrow> in_order c'"
  by (induction ops arbitrary: c) (auto split: option.splits dest: confirm_step_in_order)

lemma listen_in_order: "in_order (listen new_confirms)"
  by (simp add: in_order_def listen_def new_confirms_def u64_def)

text \<open>The loop of \<open>Multiple\<close> ends for every tag but the largest.\<close>

lemma cs_multiple_loop_ends:
  "tag < 2 ^ 64 - 1 \<Longrightarrow> \<exists>c'. cs_multiple_loop tag ack c = Some c'"
proof (induction "tag + 1 - cs_expecting c" arbitrary: c rule: less_induct)
  case less
  show ?case
  proof (cases "cs_expecting c \<le> tag")
    case True
    let ?c = "cs_confirm \<lparr>cf_DeliveryTag = cs_expecting c, cf_Ack = ack\<rparr> c"
    have "cs_expecting ?c = cs_expecting c + 1"
      using True less.prems by (simp add: cs_confirm_def u64_succ_def)
    then have "\<exists>c'. cs_multiple_loop tag ack ?c = Some c'"
      using True less.prems by (intro less.hyps) auto
    with True show ?thesis
      by (subst cs_multiple_loop.simps) simp
  next
    case False
    then show ?thesis
      by (subst cs_multiple_loop.simps) simp
  qed
qed

lemma confirm_run_ends:
  "\<forall>cf. Multiple cf \<in> set ops \<longrightarrow> cf_DeliveryTag cf < 2 ^ 64 - 1 \<Longrightarrow> \<exists>c'. confirm_run ops c = Some c'"
proof (induction ops arbitrary: c)
  case (Cons op ops)
  have "\<exists>c'. confirm_step op c = Some c'"
  proof (cases op)
    case (Multiple cf)
    then obtain c' where "cs_multiple_loop (cf_DeliveryTag cf) (cf_Ack cf) (dc_confirm_multiple cf c) = Some c'"
      using Cons.prems cs_multiple_loop_ends [of "cf_DeliveryTag cf" "cf_Ack cf" "dc_confirm_multiple cf c"]
      by auto
    with Multiple show ?thesis
      by (simp add: cs_multiple_def)
  qed auto
  then obtain c1 where c1: "confirm_step op c = Some c1"
    by blast
  have "\<exists>c'. confirm_run ops c1 = Some c'"
    using Cons.prems by (intro Cons.IH) auto
  with c1 show ?case
    by simp
qed simp


section \<open>Deferred confirmations resolve once and truthfully\<close>

definition dc_inv :: "confirms \<Rightarrow> bool" where
  "dc_inv c \<longleftrightarrow> \<not> cs_panic c \<and> distinct (map fst (cs_dmap c)) \<and> distinct (map snd (cs_dmap c))
     \<and> (\<forall>(k, i) \<in> set (cs_dmap c). i < length (cs_objs c)
            \<and> dc_DeliveryTag (cs_objs c ! i) = k \<and> \<not> dc_done (cs_objs c ! i))
     \<and> (\<forall>i < length (cs_objs c). dc_ack (cs_objs c ! i) \<longrightarrow> dc_done (cs_objs c ! i))"

text \<open>Going from \<open>c\<close> to \<open>c'\<close>, objects keep their tag, and one is newly acknowledged only if \<open>P\<close> holds of its tag.\<close>

definition dc_progress :: "(nat \<Rightarrow> bool) \<Rightarrow> confirms \<Rightarrow> confirms \<Rightarrow> bool" where
  "dc_progress P c c' \<longleftrightarrow> length (cs_objs c) \<le> length (cs_objs c')
     \<and> (\<forall>i < length (cs_objs c). dc_DeliveryTag (cs_objs c' ! i) = dc_DeliveryTag (cs_objs c ! i))
     \<and> (\<forall>i < length (cs_objs c'). dc_acked (cs_objs c' ! i) \<longrightarrow>
          (i < length (cs_objs c) \<and> dc_acked (cs_objs c ! i)) \<or> P (dc_DeliveryTag (cs_objs c' ! i)))"

lemma dc_progress_refl [simp]: "dc_progress P c c"
  by (simp add: dc_progress_def)







lemma dc_inv_cong:
  "cs_dmap c' = cs_dmap c \<Longrightarrow> cs_objs c' = cs_objs c \<Longrightarrow> cs_panic c' = cs_panic c \<Longrightarrow>
   dc_inv c' = dc_inv c \<and> dc_progress P c c'"
  by (simp add: dc_inv_def dc_progress_def)

lemma cs_confirm_dc [simp]:
  "cs_dmap (cs_confirm cf c) = cs_dmap c" "cs_objs (cs_confirm cf c) = cs_objs c"
  "cs_panic (cs_confirm cf c) = cs_panic c"
  by (simp_all add: cs_confirm_def)

lemma cs_resequence_dc:
  "cs_dmap (cs_resequence c) = cs_dmap c \<and> cs_objs (cs_resequence c) = cs_objs c
   \<and> cs_panic (cs_resequence c) = cs_panic c"
proof (induction c rule: cs_resequence.induct)
  case (1 c)
  then show ?case
    by (auto simp: cs_resequence.simps [of c] split: option.split)
qed

lemmas cs_resequence_dcs [simp] = cs_resequence_dc [THEN conjunct1]
  cs_resequence_dc [THEN conjunct2, THEN conjunct1] cs_resequence_dc [THEN conjunct2, THEN conjunct2]








section \<open>Closing\<close>




definition dc_resolved :: "bool \<Rightarrow> deferred_confirmation \<Rightarrow> deferred_confirmation" where
  "dc_resolved a d = d\<lparr>dc_ack := a, dc_done := True\<rparr>"


lemma dc_resolved_twice [simp]: "dc_resolved a (dc_resolved a d) = dc_resolved a d"
  by (simp add: dc_resolved_def)






section \<open>Confirmations out of order are put in order\<close>

text \<open>What the listener and the sequencer hold together.\<close>

definition cs_known :: "confirms \<Rightarrow> confirmation set" where
  "cs_known c = set (hd (cs_listeners c)) \<union> ran (map_of (cs_sequencer c))"

text \<open>Nothing that could be delivered is held back.\<close>

definition cs_settled :: "confirms \<Rightarrow> bool" where
  "cs_settled c \<longleftrightarrow> cs_expecting c \<le> cs_published c \<longrightarrow> map_of (cs_sequencer c) (cs_expecting c) = None"

lemma cs_confirm_known:
  assumes "cs_listeners c \<noteq> []"
  shows "map_of (cs_sequencer c) (cs_expecting c) = Some cf \<Longrightarrow> cs_known (cs_confirm cf c) = cs_known c"
    "map_of (cs_sequencer c) (cs_expecting c) = None \<Longrightarrow> cs_known (cs_confirm cf c) = insert cf (cs_known c)"
proof -
  have ran: "ran ((map_of (cs_sequencer c))(cs_expecting c := None))
      = {x. \<exists>k. k \<noteq> cs_expecting c \<and> map_of (cs_sequencer c) k = Some x}"
    by (auto simp: ran_def)
  have known: "cs_known (cs_confirm cf c) = insert cf (set (hd (cs_listeners c)))
      \<union> {x. \<exists>k. k \<noteq> cs_expecting c \<and> map_of (cs_sequencer c) k = Some x}"
    using assms by (auto simp: cs_known_def cs_confirm_def delete_conv' hd_map ran)
  {
    assume "map_of (cs_sequencer c) (cs_expecting c) = Some cf"
    then show "cs_known (cs_confirm cf c) = cs_known c"
      unfolding known unfolding cs_known_def ran_def by auto (metis option.inject)
  next
    assume "map_of (cs_sequencer c) (cs_expecting c) = None"
    then show "cs_known (cs_confirm cf c) = insert cf (cs_known c)"
      unfolding known unfolding cs_known_def ran_def by auto (metis option.distinct(1))
  }
qed

lemma cs_resequence_settles:
  "in_order c \<Longrightarrow> cs_settled (cs_resequence c) \<and> cs_known (cs_resequence c) = cs_known c
     \<and> cs_published (cs_resequence c) = cs_published c"
proof (induction c rule: cs_resequence.induct)
  case (1 c)
  show ?case
  proof (cases "cs_settled c")
    case True
    then show ?thesis
      by (auto simp: cs_resequence.simps [of c] cs_settled_def)
  next
    case False
    then obtain s where s: "cs_expecting c \<le> cs_published c" "map_of (cs_sequencer c) (cs_expecting c) = Some s"
      by (auto simp: cs_settled_def)
    have "cf_DeliveryTag s = cs_expecting c"
      using "1.prems" map_of_SomeD [OF s(2)] by (auto simp: in_order_def)
    then have o: "in_order (cs_confirm s c)"
      using "1.prems" by (intro cs_confirm_in_order)
    have "cs_listeners c \<noteq> []"
      using "1.prems" by (auto simp: in_order_def)
    then have "cs_known (cs_confirm s c) = cs_known c"
      using s(2) by (rule cs_confirm_known(1))
    moreover have "cs_published (cs_confirm s c) = cs_published c"
      by (simp add: cs_confirm_def)
    moreover have "cs_resequence c = cs_resequence (cs_confirm s c)"
      using s by (simp add: cs_resequence.simps [of c])
    ultimately show ?thesis
      using "1.IH" [OF s o] by simp
  qed
qed

lemma cs_one_known:
  assumes "in_order c" "cf_DeliveryTag cf \<notin> cf_DeliveryTag ` cs_known c"
  shows "cs_settled (cs_one cf c)" "cs_known (cs_one cf c) = insert cf (cs_known c)"
    "cs_published (cs_one cf c) = cs_published c"
proof -
  let ?d = "dc_confirm cf c"
  let ?t = "cf_DeliveryTag cf"
  define e where "e = (if cs_expecting ?d = ?t then cs_confirm cf ?d
                 else ?d\<lparr>cs_sequencer := AList.update ?t cf (cs_sequencer ?d)\<rparr>)"
  have one: "cs_one cf c = cs_resequence e"
    by (simp add: cs_one_def Let_def e_def)
  have "in_order ?d"
    using assms(1) by (simp add: in_order_cong [of ?d c])
  have fresh: "map_of (cs_sequencer c) ?t = None"
  proof (rule ccontr)
    assume "map_of (cs_sequencer c) ?t \<noteq> None"
    then obtain x where x: "map_of (cs_sequencer c) ?t = Some x"
      by blast
    then have "cf_DeliveryTag x = ?t"
      using assms(1) map_of_SomeD [OF x] by (auto simp: in_order_def)
    moreover have "x \<in> cs_known c"
      using x by (auto simp: cs_known_def ran_def)
    ultimately show False
      using assms(2) by (metis image_eqI)
  qed
  have ne: "cs_listeners c \<noteq> []"
    using assms(1) by (auto simp: in_order_def)
  have "in_order e"
    using \<open>in_order ?d\<close> set_update_subset [of ?t cf "cs_sequencer c"]
    unfolding e_def by (auto intro!: cs_confirm_in_order) (auto simp: in_order_def)
  moreover have "cs_known e = insert cf (cs_known c)"
  proof (cases "cs_expecting ?d = ?t")
    case True
    then have "cs_known (cs_confirm cf ?d) = insert cf (cs_known ?d)"
      using fresh ne by (intro cs_confirm_known(2)) simp_all
    with True show ?thesis
      by (simp add: e_def cs_known_def)
  next
    case False
    with fresh show ?thesis
      by (simp add: e_def cs_known_def update_conv' ran_map_upd)
  qed
  moreover have "cs_published e = cs_published c"
    by (simp add: e_def cs_confirm_def)
  ultimately show "cs_settled (cs_one cf c)" "cs_known (cs_one cf c) = insert cf (cs_known c)"
    "cs_published (cs_one cf c) = cs_published c"
    unfolding one using cs_resequence_settles [of e] by auto
qed

text \<open>\<open>n\<close> publishings, then one confirmation for each of them in any order.\<close>

lemma publish_run:
  "n < 2 ^ 64 \<Longrightarrow> \<exists>c. confirm_run (replicate n Publish) c0 = Some c \<and> cs_listeners c = cs_listeners c0
     \<and> cs_sequencer c = cs_sequencer c0 \<and> cs_expecting c = cs_expecting c0
     \<and> cs_published c = (cs_published c0 + n) mod 2 ^ 64" if "cs_published c0 < 2 ^ 64"
  using that
proof (induction n arbitrary: c0)
  case (Suc n)
  let ?c = "snd (cs_publish c0)"
  have "cs_published ?c < 2 ^ 64"
    by (simp add: u64_succ_def)
  then obtain c where "confirm_run (replicate n Publish) ?c = Some c"
    "cs_listeners c = cs_listeners c0" "cs_sequencer c = cs_sequencer c0"
    "cs_expecting c = cs_expecting c0" "cs_published c = (u64_succ (cs_published c0) + n) mod 2 ^ 64"
    using Suc.IH [of ?c] Suc.prems by auto
  then show ?case
    by (auto simp: u64_succ_def mod_simps)
qed simp

lemma confirm_ones_run:
  assumes "in_order c" "cs_settled c" "distinct (map cf_DeliveryTag xs)"
    "cf_DeliveryTag ` set xs \<inter> cf_DeliveryTag ` cs_known c = {}"
  shows "\<exists>c'. confirm_run (map One xs) c = Some c' \<and> in_order c' \<and> cs_settled c'
     \<and> cs_known c' = set xs \<union> cs_known c \<and> cs_published c' = cs_published c"
  using assms
proof (induction xs arbitrary: c)
  case (Cons x xs)
  let ?c = "cs_one x c"
  have x: "cf_DeliveryTag x \<notin> cf_DeliveryTag ` cs_known c"
    using Cons.prems by auto
  note k = cs_one_known [OF Cons.prems(1) x]
  have "in_order ?c"
    using Cons.prems by (simp add: cs_one_in_order)
  moreover have "cf_DeliveryTag ` set xs \<inter> cf_DeliveryTag ` cs_known ?c = {}"
    using Cons.prems by (auto simp: k(2))
  ultimately obtain c' where "confirm_run (map One xs) ?c = Some c'" "in_order c'" "cs_settled c'"
    "cs_known c' = set xs \<union> cs_known ?c" "cs_published c' = cs_published ?c"
    using Cons.IH [of ?c] Cons.prems k by auto
  then show ?case
    using k by auto
qed simp

lemma set_first_tags: "n < 2 ^ 64 \<Longrightarrow> first_tags n = [1..<Suc n]"
  by (induction n) (auto simp: u64_def)

lemma listener_sorted:
  assumes c: "in_order c" "cs_settled c" "cs_known c = set xs" "cs_published c = n"
    and xs: "distinct (map cf_DeliveryTag xs)" "cf_DeliveryTag ` set xs = {1..n}" and n: "n < 2 ^ 64 - 1"
  shows "cs_listeners c = [sort_key cf_DeliveryTag xs]"
proof -
  obtain l where l: "cs_listeners c = [l]" "cs_expecting c = u64 (Suc (length l))"
    "map cf_DeliveryTag l = first_tags (length l)"
    using c(1) by (auto simp: in_order_def)
  have sub: "set l \<subseteq> set xs"
    using c(3) l(1) by (auto simp: cs_known_def)
  have len: "length l \<le> n"
  proof (rule ccontr)
    assume "\<not> length l \<le> n"
    then have "n < length l"
      by simp
    then have "cf_DeliveryTag (l ! n) = u64 (Suc n)"
      using l(3) by (metis (no_types, lifting) first_tags_def length_map map_nth nth_map nth_upt plus_nat.add_0 length_upt minus_nat.diff_0)
    moreover have "l ! n \<in> set xs"
      using sub \<open>n < length l\<close> by auto
    ultimately have "u64 (Suc n) \<in> {1..n}"
      using xs(2) by (metis image_eqI)
    with n show False
      by (simp add: u64_def)
  qed
  then have tags: "map cf_DeliveryTag l = [1..<Suc (length l)]" and E: "cs_expecting c = Suc (length l)"
    using l n set_first_tags [of "length l"] by (auto simp: u64_def)
  have "length l = n"
  proof (rule ccontr)
    assume "length l \<noteq> n"
    then have lt: "Suc (length l) \<le> n"
      using len by simp
    then obtain x where x: "x \<in> set xs" "cf_DeliveryTag x = Suc (length l)"
      using xs(2) by (metis (no_types, lifting) atLeastAtMost_iff imageE le_add1 plus_1_eq_Suc)
    have "x \<notin> set l"
    proof
      assume "x \<in> set l"
      then have "cf_DeliveryTag x \<in> set [1..<Suc (length l)]"
        by (metis tags image_eqI set_map)
      with x show False
        by simp
    qed
    then have "x \<in> ran (map_of (cs_sequencer c))"
      using c(3) x l(1) by (auto simp: cs_known_def)
    then obtain k where k: "map_of (cs_sequencer c) k = Some x"
      by (auto simp: ran_def)
    then have "k = Suc (length l)"
      using c(1) x map_of_SomeD [OF k] by (auto simp: in_order_def)
    with k c(2,4) E lt show False
      by (simp add: cs_settled_def)
  qed
  have inj: "inj_on cf_DeliveryTag (set xs)"
    using xs(1) by (simp add: distinct_map)
  have "set l = set xs"
  proof
    show "set xs \<subseteq> set l"
    proof
      fix x
      assume x: "x \<in> set xs"
      then have "cf_DeliveryTag x \<in> {1..n}"
        using xs(2) by blast
      then have "cf_DeliveryTag x \<in> set (map cf_DeliveryTag l)"
        unfolding tags \<open>length l = n\<close> by (simp del: upt_Suc add: less_Suc_eq_le)
      then obtain y where "y \<in> set l" "cf_DeliveryTag y = cf_DeliveryTag x"
        by auto
      with x sub inj show "x \<in> set l"
        by (metis inj_on_def subsetD)
    qed
  qed (rule sub)
  moreover have "distinct l" "distinct xs"
    using tags xs(1) by (metis distinct_map distinct_upt, simp add: distinct_map)
  ultimately have "mset l = mset xs"
    by (simp add: set_eq_iff_mset_eq_distinct)
  moreover have "sorted (map cf_DeliveryTag l)"
    unfolding tags by (rule sorted_upt)
  ultimately have "sort_key cf_DeliveryTag xs = l"
    using inj by (intro sort_key_inj_key_eq) simp_all
  with l(1) show ?thesis
    by simp
qed


section \<open>Properties\<close>

text \<open>C24. Every listener hears of the publishings in order: after any sequence of publishings,
  failed publishings and confirmations of the server, single or multiple, in whatever
  order, the tags sent to a listener are 1, 2, 3 and so on without a gap or a repetition.\<close>
theorem confirms_in_order:
  assumes "confirm_run ops (listen new_confirms) = Some c"
  shows "\<exists>l. cs_listeners c = [l] \<and> map cf_DeliveryTag l = first_tags (length l)
           \<and> cs_expecting c = u64 (Suc (length l))"
  using confirm_run_in_order [OF listen_in_order assms] by (auto simp: in_order_def)

definition cf :: "nat \<Rightarrow> bool \<Rightarrow> confirmation" where
  "cf t a = \<lparr>cf_DeliveryTag = t, cf_Ack = a\<rparr>"

lemma sample_run: "\<exists>c. confirm_run [Publish, Publish, One (cf 2 True), Unpublish] (listen new_confirms) = Some c"
  by (rule confirm_run_ends) simp

theorem confirms_in_order_witness:
  "\<exists>c l. confirm_run [Publish, Publish, One (cf 2 True), Unpublish] (listen new_confirms) = Some c
     \<and> cs_listeners c = [l] \<and> map cf_DeliveryTag l = first_tags (length l)
     \<and> cs_expecting c = u64 (Suc (length l))"
proof -
  obtain c where "confirm_run [Publish, Publish, One (cf 2 True), Unpublish] (listen new_confirms) = Some c"
    using sample_run by blast
  with confirms_in_order [OF this] show ?thesis
    by blast
qed

text \<open>C25. The resequencer loses nothing: after \<open>n\<close> publishings and one confirmation for each
  of them, in any order, the listener has received exactly those confirmations, sorted by
  their tags.\<close>
theorem confirms_resequenced:
  assumes "n < 2 ^ 64 - 1" "distinct (map cf_DeliveryTag xs)" "cf_DeliveryTag ` set xs = {1..n}"
  shows "\<exists>c. confirm_run (replicate n Publish @ map One xs) (listen new_confirms) = Some c
           \<and> cs_listeners c = [sort_key cf_DeliveryTag xs]"
proof -
  let ?c0 = "listen new_confirms"
  have app: "confirm_run (as @ bs) c = (case confirm_run as c of None \<Rightarrow> None | Some c' \<Rightarrow> confirm_run bs c')" for as bs c
    by (induction as arbitrary: c) (auto split: option.split)
  obtain c1 where c1: "confirm_run (replicate n Publish) ?c0 = Some c1"
    "cs_listeners c1 = [[]]" "cs_sequencer c1 = []" "cs_published c1 = n"
    using publish_run [of ?c0 n] assms(1) by (auto simp: listen_def new_confirms_def)
  have o: "in_order c1"
    by (rule confirm_run_in_order [OF listen_in_order c1(1)])
  have s: "cs_settled c1" "cs_known c1 = {}"
    using c1 by (simp_all add: cs_settled_def cs_known_def)
  then obtain c2 where c2: "confirm_run (map One xs) c1 = Some c2" "in_order c2" "cs_settled c2"
    "cs_known c2 = set xs" "cs_published c2 = n"
    using confirm_ones_run [OF o s(1) assms(2)] c1(4) by auto
  have "cs_listeners c2 = [sort_key cf_DeliveryTag xs]"
    by (rule listener_sorted [OF c2(2,3,4,5) assms(2,3,1)])
  with c1 c2 show ?thesis
    by (auto simp: app)
qed

theorem confirms_resequenced_witness:
  "\<exists>c. confirm_run (replicate 3 Publish @ map One [cf 3 True, cf 1 True, cf 2 False]) (listen new_confirms) = Some c
     \<and> cs_listeners c = [sort_key cf_DeliveryTag [cf 3 True, cf 1 True, cf 2 False]]"
  by (rule confirms_resequenced) (auto simp: cf_def)




text \<open>A negative confirmation that arrived out of order is forgotten when a later multiple
  confirmation covers it: the listener is told that publishing 2 was acknowledged, although
  the server refused it and its deferred confirmation says so.\<close>
lemma multiple_overrides_nack:
  "\<exists>c. confirm_run [Publish, Publish, One (cf 2 False), Multiple (cf 2 True)] (listen new_confirms) = Some c
     \<and> cs_listeners c = [[cf 1 True, cf 2 True]] \<and> \<not> dc_acked (cs_objs c ! 1)"
proof -
  have e: "cs_multiple_loop t a c = (if cs_expecting c \<le> t
      then cs_multiple_loop t a (cs_confirm \<lparr>cf_DeliveryTag = cs_expecting c, cf_Ack = a\<rparr> c)
      else Some c)" for t a c
    by (rule cs_multiple_loop.simps)
  show ?thesis
    by (simp add: cs_one_def cs_multiple_def e cs_confirm_def cs_resequence.simps cs_publish_def dc_add_def
        dc_confirm_def dc_confirm_multiple_def dc_resolve_def dc_set_ack_def dc_close_def dc_delete_def
        dc_acked_def cf_def listen_def new_confirms_def u64_succ_def Let_def AList.delete_eq)
qed

text \<open>C34. Handling a confirmation always ends, except that of the largest tag: the loop of
  \<open>Multiple\<close> runs up to the confirmed tag and then stops.\<close>
theorem confirm_handling_ends:
  "(\<And>x. Multiple x \<in> set ops \<Longrightarrow> cf_DeliveryTag x < 2 ^ 64 - 1) \<Longrightarrow> \<exists>c'. confirm_run ops c = Some c'"
  by (rule confirm_run_ends) blast

theorem confirm_handling_ends_witness: "\<exists>c'. confirm_run [Publish, Multiple (cf 1 True)] new_confirms = Some c'"
  by (rule confirm_handling_ends) (auto simp: cf_def)

end
