(* ===== verification/ChannelOps.thy ===== *)
theory ChannelOps
  imports Connection Reassembly Confirms
begin

text \<open>
  The sending side of \<open>channel.go\<close>: \<open>send\<close>, \<open>sendOpen\<close> and \<open>sendClosed\<close>, the request and
  response \<open>call\<close>, and the operations built on them. \<open>sendOpen\<close> cuts a body into frames of
  the negotiated size; from the bytes that go out exactly that message is put together again.
\<close>

section \<open>The channel\<close>

text \<open>
  What \<open>call\<close> finds in its select: an error from a shutdown, the closed error channel, or a
  response (\<open>ch.rpc\<close>). \<open>ch_inbox\<close> is what will arrive in order; a call for which nothing
  arrives waits forever. \<open>ch_env\<close> is, for each look at the closed flag, whether the reader
  goroutine has closed the channel in the meantime.
\<close>

datatype rpc_event = RpcError amqp_error | RpcErrorsClosed | RpcMsg message | RpcNil

record channel =
  ch_connection :: connection
  ch_id :: "16 word"
  ch_closed :: bool
  ch_confirms :: confirms
  ch_confirming :: bool
  ch_inbox :: "rpc_event list"
  ch_env :: "bool list"

definition new_channel :: "connection \<Rightarrow> 16 word \<Rightarrow> channel" where
  "new_channel c cid = \<lparr>ch_connection = c, ch_id = cid, ch_closed = False, ch_confirms = new_confirms,
     ch_confirming = False, ch_inbox = [], ch_env = []\<rparr>"

text \<open>An operation returns a value and the channel, panics, or never returns (\<open>None\<close>).\<close>

datatype 'a fate = Done 'a channel | Panic

type_synonym 'a operation = "channel \<Rightarrow> 'a fate option"

definition op_return :: "'a \<Rightarrow> 'a operation" where
  "op_return x ch = Some (Done x ch)"

definition op_bind :: "'a operation \<Rightarrow> ('a \<Rightarrow> 'b operation) \<Rightarrow> 'b operation" where
  "op_bind m k ch =
     (case m ch of
        None \<Rightarrow> None
      | Some Panic \<Rightarrow> Some Panic
      | Some (Done x ch') \<Rightarrow> k x ch')"

definition ch_is_closed :: "channel \<Rightarrow> bool \<times> channel" where
  "ch_is_closed ch =
     (case ch_env ch of
        [] \<Rightarrow> (ch_closed ch, ch)
      | b # bs \<Rightarrow> (ch_closed ch \<or> b, ch\<lparr>ch_closed := ch_closed ch \<or> b, ch_env := bs\<rparr>))"

section \<open>Sending a message\<close>

definition method_of :: "16 word \<Rightarrow> message \<Rightarrow> frame" where
  "method_of cid msg = MethodFrame \<lparr>mf_ChannelId = cid, mf_ClassId = 0, mf_MethodId = 0, mf_Method = Some msg\<rparr>"

definition on_connection :: "(connection \<Rightarrow> goerr option \<times> connection) \<Rightarrow> goerr option operation" where
  "on_connection f ch = (case f (ch_connection ch) of (r, c) \<Rightarrow> Some (Done r (ch\<lparr>ch_connection := c\<rparr>)))"

definition ch_send_closed :: "message \<Rightarrow> goerr option operation" where
  "ch_send_closed msg =
     (case msg of
        MChannel (ChannelCloseOk m) \<Rightarrow> (\<lambda>ch. on_connection (co_send (method_of (ch_id ch) msg)) ch)
      | _ \<Rightarrow> op_return (Some (EAmqp ErrClosed)))"

definition frame_header_size :: int where
  "frame_header_size = 1 + 2 + 4 + 1"

text \<open>
  The loop over the body: \<open>body[i:j]\<close> for \<open>i, j = 0, size\<close>, then \<open>j, j+size\<close>. A slice with
  its end before its start panics.
\<close>

partial_function (option) send_body :: "int \<Rightarrow> byte list \<Rightarrow> int \<Rightarrow> int \<Rightarrow> channel \<Rightarrow> goerr option fate option" where
  "send_body chunk body i j ch =
     (if i < int (length body)
      then (let e = (if j > int (length body) then int (length body) else j) in
        if e < i then Some Panic
        else case co_send_unflushed (BodyFrame \<lparr>bf_ChannelId = ch_id ch,
                    bf_Body = take (nat (e - i)) (drop (nat i) body)\<rparr>) (ch_connection ch) of
               (Some err, c) \<Rightarrow> Some (Done (Some err) (ch\<lparr>ch_connection := c\<rparr>))
             | (None, c) \<Rightarrow> send_body chunk body e (e + chunk) (ch\<lparr>ch_connection := c\<rparr>))
      else Some (Done None ch))"

text \<open>The three groups of frames, and the deferred flush, whose error counts if there is no other.\<close>

definition send_content_frames :: "int \<Rightarrow> message \<Rightarrow> 16 word \<Rightarrow> properties \<Rightarrow> byte list \<Rightarrow> goerr option operation" where
  "send_content_frames chunk content cls props body ch =
     op_bind (on_connection (co_send_unflushed (method_of (ch_id ch) content)))
       (\<lambda>r. case r of Some err \<Rightarrow> op_return (Some err)
          | None \<Rightarrow> op_bind (on_connection (co_send_unflushed (HeaderFrame
                \<lparr>hf_ChannelId = ch_id ch, hf_ClassId = cls, hf_weight = 0,
                 hf_Size = word_of_nat (length body), hf_Properties = props\<rparr>)))
              (\<lambda>r. case r of Some err \<Rightarrow> op_return (Some err)
                 | None \<Rightarrow> send_body chunk body 0 chunk)) ch"

definition end_send :: "goerr option \<Rightarrow> goerr option operation" where
  "end_send err = op_bind (on_connection co_flush)
     (\<lambda>end_error. op_return (if err = None then end_error else err))"

definition content_of :: "message \<Rightarrow> (properties \<times> byte list) option" where
  "content_of msg = (case msg of MBasic m \<Rightarrow> get_content m | _ \<Rightarrow> None)"

definition ch_send_open :: "message \<Rightarrow> goerr option operation" where
  "ch_send_open msg ch =
     (case content_of msg of
        Some (props, body) \<Rightarrow>
          (let chunk = (if co_FrameSize (ch_connection ch) > 0
                        then co_FrameSize (ch_connection ch) - frame_header_size
                        else int (length body));
               (closed, ch') = ch_is_closed ch
           in if closed then ch_send_closed msg ch'
              else op_bind (send_content_frames chunk msg (fst (message_id msg)) props body) end_send ch')
      | None \<Rightarrow>
          (let (closed, ch') = ch_is_closed ch
           in if closed then ch_send_closed msg ch'
              else on_connection (co_send (method_of (ch_id ch') msg)) ch'))"

definition ch_send :: "message \<Rightarrow> goerr option operation" where
  "ch_send msg ch =
     (let (closed, ch') = ch_is_closed ch
      in if closed then ch_send_closed msg ch' else ch_send_open msg ch')"

section \<open>Requests and responses\<close>

text \<open>
  \<open>call\<close> with the response types it accepts, a type given by its class and method. The
  result is the error, or the response where the request waits for one.
\<close>

type_synonym response_type = "16 word \<times> 16 word"

definition ch_call :: "message \<Rightarrow> response_type list \<Rightarrow> (goerr + message option) operation" where
  "ch_call req res =
     op_bind (ch_send req)
       (\<lambda>r. case r of
          Some err \<Rightarrow> op_return (Inl err)
        | None \<Rightarrow>
            (if message_wait req
             then (\<lambda>ch. case ch_inbox ch of
                 [] \<Rightarrow> None
               | ev # evs \<Rightarrow>
                   op_return
                     (case ev of
                        RpcError e \<Rightarrow> Inl (EAmqp e)
                      | RpcErrorsClosed \<Rightarrow> Inl (EAmqp ErrClosed)
                      | RpcMsg msg \<Rightarrow>
                          (if message_id msg \<in> set res then Inr (Some msg) else Inl (EAmqp ErrCommandInvalid))
                      | RpcNil \<Rightarrow> Inl (EAmqp ErrClosed))
                     (ch\<lparr>ch_inbox := evs\<rparr>))
             else op_return (Inr None)))"

definition call_error :: "(goerr + 'a) \<Rightarrow> goerr option" where
  "call_error r = (case r of Inl e \<Rightarrow> Some e | Inr x \<Rightarrow> None)"

text \<open>The operations that return only the error of the call.\<close>

definition ch_request :: "message \<Rightarrow> response_type \<Rightarrow> goerr option operation" where
  "ch_request req res = op_bind (ch_call req [res]) (\<lambda>r. op_return (call_error r))"

definition validated :: "table \<Rightarrow> goerr option operation \<Rightarrow> goerr option operation" where
  "validated args m = (if validate_field (FTable args) then m else op_return (Some EValidate))"

section \<open>The frames of a message\<close>

text \<open>Sending some frames in a row without a flush, up to the first error.\<close>

fun send_seq :: "frame list \<Rightarrow> connection \<Rightarrow> goerr option \<times> connection" where
  "send_seq [] c = (None, c)"
| "send_seq (f # fs) c =
     (case co_send_unflushed f c of
        (Some e, c') \<Rightarrow> (Some e, c')
      | (None, c') \<Rightarrow> send_seq fs c')"

function chunks :: "nat \<Rightarrow> 'a list \<Rightarrow> 'a list list" where
  "chunks n xs = (if xs = [] \<or> n = 0 then [] else take n xs # chunks n (drop n xs))"
  by pat_completeness auto
termination
  by (relation "measure (\<lambda>(n, xs). length xs)") auto

declare chunks.simps [simp del]

lemma chunks_Nil [simp]: "chunks n [] = []"
  by (simp add: chunks.simps)

lemma chunks_cuts: "0 < n \<Longrightarrow> cuts xs (chunks n xs)"
proof (induction n xs rule: chunks.induct)
  case (1 n xs)
  show ?case
  proof (cases "xs = []")
    case False
    with 1 have "cuts (drop n xs) (chunks n (drop n xs))"
      by simp
    with False 1 show ?thesis
      by (subst chunks.simps) (auto simp: cuts_def)
  qed (simp add: cuts_def)
qed

lemma chunks_length: "x \<in> set (chunks n xs) \<Longrightarrow> length x \<le> n"
proof (induction n xs rule: chunks.induct)
  case (1 n xs)
  then show ?case
    by (subst (asm) (2) chunks.simps) (auto split: if_splits)
qed

lemma chunks_butlast: "x \<in> set (butlast (chunks n xs)) \<Longrightarrow> length x = n"
proof (induction n xs rule: chunks.induct)
  case (1 n xs)
  show ?case
  proof (cases "xs = [] \<or> n = 0")
    case True
    with "1.prems" show ?thesis
      by (simp add: chunks.simps [of n xs])
  next
    case False
    then have xs: "chunks n xs = take n xs # chunks n (drop n xs)"
      by (simp add: chunks.simps [of n xs])
    then consider "x \<in> set (butlast (chunks n (drop n xs)))" | "x = take n xs" "chunks n (drop n xs) \<noteq> []"
      using "1.prems" by (auto split: if_splits)
    then show ?thesis
    proof cases
      case 1
      then show ?thesis
        using "1.IH" False by simp
    next
      case 2
      then have "drop n xs \<noteq> []"
        by auto
      with 2 show ?thesis
        by simp
    qed
  qed
qed

lemma chunks_whole: "chunks (length xs) xs = (if xs = [] then [] else [xs])"
  by (simp add: chunks.simps [of "length xs" xs])

definition body_of :: "16 word \<Rightarrow> byte list \<Rightarrow> frame" where
  "body_of cid x = BodyFrame \<lparr>bf_ChannelId = cid, bf_Body = x\<rparr>"

lemma send_body_seq:
  assumes "0 < chunk" "0 \<le> i"
  shows "send_body chunk body i (i + chunk) ch =
    (case send_seq (map (body_of (ch_id ch)) (chunks (nat chunk) (drop (nat i) body))) (ch_connection ch) of
       (r, c) \<Rightarrow> Some (Done r (ch\<lparr>ch_connection := c\<rparr>)))"
  using assms(2)
proof (induction "length (drop (nat i) body)" arbitrary: i ch rule: less_induct)
  case less
  show ?case
  proof (cases "i < int (length body)")
    case False
    with less.prems show ?thesis
      by (simp add: send_body.simps)
  next
    case True
    define e where "e = (if i + chunk > int (length body) then int (length body) else i + chunk)"
    have e: "i < e" "0 \<le> e" "nat e = nat i + (if i + chunk > int (length body) then length body - nat i else nat chunk)"
      using True assms(1) less.prems by (auto simp: e_def)
    have ne: "drop (nat i) body \<noteq> []" "nat chunk \<noteq> 0"
      using True assms(1) less.prems by auto
    have piece: "take (nat (e - i)) (drop (nat i) body) = take (nat chunk) (drop (nat i) body)"
      using True assms(1) less.prems by (auto simp: e_def nat_diff_distrib nat_add_distrib)
    have next_piece: "drop (nat e) body = drop (nat chunk) (drop (nat i) body)"
      unfolding e(3) using True assms(1) less.prems by (auto simp: add.commute)
    let ?f = "body_of (ch_id ch) (take (nat chunk) (drop (nat i) body))"
    have unroll: "send_body chunk body i (i + chunk) ch =
      (case co_send_unflushed ?f (ch_connection ch) of
         (Some err, c) \<Rightarrow> Some (Done (Some err) (ch\<lparr>ch_connection := c\<rparr>))
       | (None, c) \<Rightarrow> send_body chunk body e (e + chunk) (ch\<lparr>ch_connection := c\<rparr>))"
      using True e(1) by (subst send_body.simps) (simp add: Let_def piece body_of_def flip: e_def)
    have IH: "send_body chunk body e (e + chunk) (ch\<lparr>ch_connection := c\<rparr>) =
      (case send_seq (map (body_of (ch_id ch)) (chunks (nat chunk) (drop (nat chunk) (drop (nat i) body)))) c of
         (r, c') \<Rightarrow> Some (Done r (ch\<lparr>ch_connection := c'\<rparr>)))" for c
    proof -
      have "length (drop (nat e) body) < length (drop (nat i) body)"
        unfolding next_piece using ne by simp
      from less.hyps [OF this e(2), of "ch\<lparr>ch_connection := c\<rparr>"] show ?thesis
        unfolding next_piece by simp
    qed
    have "chunks (nat chunk) (drop (nat i) body)
      = take (nat chunk) (drop (nat i) body) # chunks (nat chunk) (drop (nat chunk) (drop (nat i) body))"
      using ne by (subst chunks.simps) simp
    then show ?thesis
      unfolding unroll IH by (auto split: prod.splits option.splits)
  qed
qed


lemma content_frames_unfold:
  "get_content m = Some (p, b) \<Longrightarrow> content_frames cid m pieces =
     method_of cid (MBasic m)
     # HeaderFrame \<lparr>hf_ChannelId = cid, hf_ClassId = fst (basic_id m), hf_weight = 0,
         hf_Size = word_of_nat (length b), hf_Properties = p\<rparr>
     # map (body_of cid) pieces"
  by (simp add: content_frames_def method_of_def body_of_def)

lemma send_content_seq:
  assumes "0 < chunk \<or> b = []" "get_content m = Some (p, b)"
  shows "send_content_frames chunk (MBasic m) (fst (basic_id m)) p b ch =
    (case send_seq (content_frames (ch_id ch) m (chunks (nat chunk) b)) (ch_connection ch) of
       (r, c) \<Rightarrow> Some (Done r (ch\<lparr>ch_connection := c\<rparr>)))"
proof -
  have body: "send_body chunk b 0 chunk ch' =
      (case send_seq (map (body_of (ch_id ch')) (chunks (nat chunk) b)) (ch_connection ch') of
         (r, c) \<Rightarrow> Some (Done r (ch'\<lparr>ch_connection := c\<rparr>)))" for ch'
  proof (cases "b = []")
    case True
    then show ?thesis
      by (simp add: send_body.simps)
  next
    case False
    with assms(1) show ?thesis
      using send_body_seq [of chunk 0 b ch'] by simp
  qed
  show ?thesis
    unfolding content_frames_unfold [OF assms(2)] send_content_frames_def
    by (auto simp: op_bind_def on_connection_def op_return_def body split: prod.splits option.splits)
qed

section \<open>The frames on the wire\<close>

definition frames_of :: "16 word \<Rightarrow> frame list \<Rightarrow> bool" where
  "frames_of k fs \<longleftrightarrow> list_all (\<lambda>f. frame_ok f \<and> frame_channel f = k) fs"

lemma frames_of_simps [simp]:
  "frames_of k []"
  "frames_of k (f # fs) \<longleftrightarrow> frame_ok f \<and> frame_channel f = k \<and> frames_of k fs"
  "frames_of k (fs @ gs) \<longleftrightarrow> frames_of k fs \<and> frames_of k gs"
  by (simp_all add: frames_of_def conj_assoc)

lemma carries_more:
  assumes "carries k c fs" "\<not> co_open c" "frames_of k gs"
  shows "carries k c (fs @ gs)"
  using assms(3)
proof (induction gs rule: rev_induct)
  case Nil
  with assms(1) show ?case
    by simp
next
  case (snoc g gs)
  have "carries k c ((fs @ gs) @ on_channel k [g])"
    using snoc.IH snoc.prems assms(2) by (intro carries_frame [where c = c]) (auto simp: bw_within_more)
  with snoc.prems show ?case
    by simp
qed

lemma send_seq_carries:
  assumes "carries k c fs" "env_ok k c" "frames_of k gs" "send_seq gs c = (r, c')"
  shows "carries k c' (fs @ gs) \<and> env_ok k c' \<and> co_FrameSize c' = co_FrameSize c
    \<and> (co_open c' \<longrightarrow> co_open c \<and> r = None) \<and> (r = None \<and> gs \<noteq> [] \<longrightarrow> co_open c')"
  using assms
proof (induction gs arbitrary: c fs)
  case Nil
  then show ?case
    by simp
next
  case (Cons g gs)
  obtain q d where q: "co_send_unflushed g c = (q, d)"
    by fastforce
  have g: "frame_ok g" "frames_of k gs" "on_channel k [g] = [g]"
    using Cons.prems(3) by simp_all
  have d: "carries k d (fs @ [g])" "env_ok k d" "q = None \<longleftrightarrow> co_open d" "co_open d \<Longrightarrow> co_open c"
    "co_FrameSize d = co_FrameSize c"
    using co_send_unflushed_carries [OF Cons.prems(1,2) g(1) q] g(3) by auto
  show ?case
  proof (cases q)
    case (Some e)
    then have "r = Some e" "c' = d"
      using Cons.prems(4) q by auto
    with d Some carries_more [OF d(1) _ g(2)] show ?thesis
      by auto
  next
    case None
    then have "send_seq gs d = (r, c')"
      using Cons.prems(4) q by simp
    note IH = Cons.IH [OF d(1,2) g(2) this]
    show ?thesis
    proof (cases "gs = []")
      case True
      with None d q Cons.prems(4) show ?thesis
        by auto
    next
      case False
      with IH d None show ?thesis
        by auto
    qed
  qed
qed

text \<open>
  \<open>holds k c fs\<close>: the frames of the channel are \<open>fs\<close> and all of them are sent or buffered,
  whether or not the connection has been closed in the meantime.
\<close>

definition holds :: "16 word \<Rightarrow> connection \<Rightarrow> frame list \<Rightarrow> bool" where
  "holds k c fs \<longleftrightarrow> (\<exists>sent bs. list_all frame_ok sent \<and> write_many frame_write sent = Inr bs
     \<and> on_channel k sent = fs \<and> bw_exact (co_writer c) (protocol_header @ bs))"

lemma carries_holds: "carries k c fs \<Longrightarrow> co_open c \<Longrightarrow> holds k c fs"
  unfolding carries_as_def holds_def by blast

lemma holds_carries: "holds k c fs \<Longrightarrow> carries k c fs"
  unfolding carries_as_def holds_def by (blast intro: bw_exact_within)

text \<open>A sender that finds the connection closed, or meets an error, leaves the bytes alone.\<close>

definition quiet :: "connection \<Rightarrow> bool" where
  "quiet c \<longleftrightarrow> bw_err (co_writer c) \<noteq> None \<or> bw_buf (co_writer c) = []"

lemma not_open_send:
  assumes "\<not> co_open c" "frame_write f = Inr b"
  shows "co_writer (snd (co_send_now f c)) = co_writer c" "\<not> co_open (snd (co_send_now f c))"
    "co_writer (snd (co_send_unflushed_now f c)) = co_writer c" "\<not> co_open (snd (co_send_unflushed_now f c))"
    "fst (co_send_now f c) \<noteq> None" "fst (co_send_unflushed_now f c) \<noteq> None"
  using assms
  by (auto simp: co_send_now_def co_send_unflushed_now_def co_open_def co_sent_def write_frame_flush_def
      write_frame_no_flush_def bw_write_failed split: if_splits)


abbreviation co_out :: "connection \<Rightarrow> byte list" where
  "co_out c \<equiv> bw_out (co_writer c)"

definition dead :: "connection \<Rightarrow> bool" where
  "dead c \<longleftrightarrow> \<not> co_open c \<and> quiet c"

lemma dead_writer:
  "dead c \<Longrightarrow> co_writer c' = co_writer c \<Longrightarrow> \<not> co_open c' \<Longrightarrow> dead c'"
  by (simp add: dead_def quiet_def)

lemma env_run_dead:
  assumes "dead c"
    and "list_all (\<lambda>e. case e of EnvClose \<Rightarrow> True | EnvSend f \<Rightarrow> frame_ok f \<and> frame_channel f \<noteq> k) es"
  shows "dead (env_run es c) \<and> co_out (env_run es c) = co_out c"
  using assms
proof (induction es c rule: env_run.induct)
  case (2 f es c)
  then obtain b where "frame_write f = Inr b"
    using frame_written [of f] by auto
  with 2 not_open_send [of c f b] show ?case
    by (auto simp: dead_def quiet_def)
next
  case (3 es c)
  then show ?case
    by (simp add: dead_def quiet_def co_open_def)
qed simp

lemma co_sync_dead: "dead c \<Longrightarrow> env_ok k c \<Longrightarrow> dead (co_sync c) \<and> co_out (co_sync c) = co_out c"
  using env_run_dead [of "c\<lparr>co_env := tl (co_env c)\<rparr>" k "hd (co_env c)"]
  by (cases "co_env c") (auto simp: co_sync_def env_spares_def dead_def quiet_def co_open_def)

lemma env_ok_sync: "env_ok k c \<Longrightarrow> env_ok k (co_sync c)"
proof (cases "co_env c")
  case (Cons es ess)
  have "co_env (env_run es c) = co_env c" for c
    by (induction es c rule: env_run.induct) (auto simp: co_send_now_def)
  with Cons show "env_ok k c \<Longrightarrow> env_ok k (co_sync c)"
    by (simp add: co_sync_def env_spares_def)
qed (simp add: co_sync_def)

lemma env_ok_send:
  "env_ok k (snd (co_send_now f c)) = env_ok k c"
  "env_ok k (snd (co_send_unflushed_now f c)) = env_ok k c"
  "env_ok k (snd (co_flush_now c)) = env_ok k c"
  by (auto simp: env_spares_def co_send_now_def co_send_unflushed_now_def co_flush_now_def
      split: prod.splits option.splits)

lemma send_seq_dead:
  assumes "dead c" "env_ok k c" "frames_of k gs" "send_seq gs c = (r, c')"
  shows "dead c' \<and> env_ok k c' \<and> co_out c' = co_out c \<and> (gs \<noteq> [] \<longrightarrow> r \<noteq> None)"
proof (cases gs)
  case Nil
  with assms show ?thesis
    by simp
next
  case (Cons g gs')
  obtain b where b: "frame_write g = Inr b"
    using assms(3) Cons frame_written [of g] by auto
  have sync: "dead (co_sync c)" "co_out (co_sync c) = co_out c" "env_ok k (co_sync c)"
    using co_sync_dead [OF assms(1,2)] env_ok_sync [OF assms(2)] by auto
  obtain q d where q: "co_send_unflushed g c = (q, d)"
    by fastforce
  have "q \<noteq> None" "co_writer d = co_writer (co_sync c)" "\<not> co_open d" "env_ok k d"
    using not_open_send(3,4,6) [OF _ b, of "co_sync c"] sync env_ok_send(2) [of k g "co_sync c"] q
    by (auto simp: co_send_unflushed_def dead_def)
  with assms(4) Cons q sync show ?thesis
    by (auto simp: dead_def quiet_def)
qed

lemma flush_quiet: "co_flush c = (r, c') \<Longrightarrow> quiet c'"
  by (auto simp: co_flush_def co_flush_now_def bw_flush_def quiet_def split: option.splits list.splits prod.splits)

lemma flush_error: "co_flush c = (r, c') \<Longrightarrow> r \<noteq> None \<longleftrightarrow> bw_err (co_writer c') \<noteq> None"
  by (auto simp: co_flush_def co_flush_now_def bw_flush_def split: option.splits list.splits prod.splits)

lemma flush_dead:
  assumes "dead c" "env_ok k c" "co_flush c = (r, c')"
  shows "dead c' \<and> env_ok k c' \<and> co_out c' = co_out c"
proof -
  have sync: "dead (co_sync c)" "co_out (co_sync c) = co_out c" "env_ok k (co_sync c)"
    using co_sync_dead [OF assms(1,2)] env_ok_sync [OF assms(2)] by auto
  then show ?thesis
    using assms(3) env_ok_send(3) [of k "co_sync c"]
    by (auto simp: co_flush_def co_flush_now_def bw_flush_def dead_def quiet_def co_open_def
        split: option.splits list.splits prod.splits)
qed

text \<open>What is complete stays complete, unless the writer fails.\<close>

lemma env_run_holds:
  assumes "holds k c fs \<or> bw_err (co_writer c) \<noteq> None"
    and "list_all (\<lambda>e. case e of EnvClose \<Rightarrow> True | EnvSend f \<Rightarrow> frame_ok f \<and> frame_channel f \<noteq> k) es"
  shows "holds k (env_run es c) fs \<or> bw_err (co_writer (env_run es c)) \<noteq> None"
  using assms
proof (induction es c rule: env_run.induct)
  case (2 f es c)
  let ?c = "snd (co_send_now f c)"
  have f: "frame_ok f" "frame_channel f \<noteq> k"
    using "2.prems"(2) by simp_all
  obtain b where b: "frame_write f = Inr b"
    using frame_written [OF f(1)] by blast
  have "holds k ?c fs \<or> bw_err (co_writer ?c) \<noteq> None"
  proof (cases "co_open c")
    case False
    then show ?thesis
      using not_open_send(1) [OF False b] "2.prems"(1) by (auto simp: holds_def)
  next
    case True
    then have "carries k c fs"
      using "2.prems"(1) by (auto simp: co_open_def intro: holds_carries)
    from co_send_now_carries(1) [OF this f(1), of "fst (co_send_now f c)" ?c] f(2)
    have car: "carries k ?c fs"
      by simp
    show ?thesis
    proof (cases "co_open ?c")
      case False
      then show ?thesis
        using True by (auto simp: co_open_def co_send_now_def)
    qed (use car in \<open>simp add: carries_holds\<close>)
  qed
  with "2.IH" "2.prems"(2) show ?case
    by simp
next
  case (3 es c)
  then show ?case
    by (simp add: holds_def)
qed simp

lemma co_sync_holds:
  "holds k c fs \<Longrightarrow> env_ok k c \<Longrightarrow> holds k (co_sync c) fs \<or> bw_err (co_writer (co_sync c)) \<noteq> None"
  using env_run_holds [of k "c\<lparr>co_env := tl (co_env c)\<rparr>" fs "hd (co_env c)"]
  by (cases "co_env c") (auto simp: co_sync_def env_spares_def holds_def)

lemma flush_holds:
  assumes "holds k c fs" "env_ok k c" "co_flush c = (None, c')"
  shows "holds k c' fs \<and> env_ok k c' \<and> bw_buf (co_writer c') = []"
proof -
  let ?c = "co_sync c"
  obtain q w where q: "bw_flush (co_writer ?c) = (q, w)"
    by fastforce
  then have c': "q = None" "c' = ?c\<lparr>co_writer := w\<rparr>"
    using assms(3) by (auto simp: co_flush_def co_flush_now_def split: option.splits)
  have "bw_err (co_writer ?c) = None"
    using q c'(1) by (auto simp: bw_flush_def split: option.splits)
  then have "holds k ?c fs"
    using co_sync_holds [OF assms(1,2)] by blast
  then obtain sent bs where sent: "list_all frame_ok sent" "write_many frame_write sent = Inr bs"
    "on_channel k sent = fs" "bw_exact (co_writer ?c) (protocol_header @ bs)"
    unfolding holds_def by blast
  have w: "bw_exact w (protocol_header @ bs)" "bw_buf w = []"
    using bw_flush_within [OF bw_exact_within [OF sent(4)] q] sent(4) c'(1) by auto
  then have "holds k c' fs"
    unfolding holds_def c' using sent by auto
  with w env_ok_sync [OF assms(2)] show ?thesis
    by (simp add: c' env_spares_def)
qed


section \<open>The messages on the wire\<close>

text \<open>
  The messages that the receiving state machine makes of the frames of a channel in some
  bytes, and those in the bytes that have been written on the socket.
\<close>

definition messages_read :: "16 word \<Rightarrow> byte list \<Rightarrow> message list" where
  "messages_read k bs =
     (case recv_all (on_channel k (frames_read bs)) new_reassembly of None \<Rightarrow> [] | Some (ra, ms) \<Rightarrow> ms)"

definition wire_messages :: "16 word \<Rightarrow> connection \<Rightarrow> message list" where
  "wire_messages k c = messages_read k (bw_out (co_writer c))"

text \<open>From every initial part of the bytes a beginning of the messages is read.\<close>

definition reads_beginning :: "16 word \<Rightarrow> byte list \<Rightarrow> message list \<Rightarrow> bool" where
  "reads_beginning k bs ms \<longleftrightarrow> list_all (\<lambda>p. prefix (messages_read k p) ms) (prefixes bs)"

lemma recv_all_append:
  "recv_all (fs @ gs) ra =
     (case recv_all fs ra of
        None \<Rightarrow> None
      | Some (ra', ms) \<Rightarrow> (case recv_all gs ra' of None \<Rightarrow> None | Some (ra'', ns) \<Rightarrow> Some (ra'', ms @ ns)))"
  by (induction fs arbitrary: ra) (auto split: recv_result.splits option.splits)

text \<open>Frames that bring a receiver the messages \<open>ms\<close>, in whatever state it is.\<close>

definition brings :: "16 word \<Rightarrow> frame list \<Rightarrow> message list \<Rightarrow> bool" where
  "brings k fs ms \<longleftrightarrow> frames_of k fs \<and> (\<forall>ra. \<exists>ra'. recv_all (map frame_norm fs) ra = Some (ra', ms))"

lemma brings_Nil: "brings k [] []"
  by (simp add: brings_def)

lemma brings_append: "brings k fs ms \<Longrightarrow> brings k gs ns \<Longrightarrow> brings k (fs @ gs) (ms @ ns)"
proof -
  assume fs: "brings k fs ms" and gs: "brings k gs ns"
  have "\<exists>ra'. recv_all (map frame_norm (fs @ gs)) ra = Some (ra', ms @ ns)" for ra
  proof -
    obtain ra1 where 1: "recv_all (map frame_norm fs) ra = Some (ra1, ms)"
      using fs unfolding brings_def by blast
    obtain ra2 where "recv_all (map frame_norm gs) ra1 = Some (ra2, ns)"
      using gs unfolding brings_def by blast
    with 1 show ?thesis
      by (simp add: recv_all_append)
  qed
  with fs gs show ?thesis
    by (simp add: brings_def)
qed

lemma recv_all_prefix:
  assumes "recv_all gs ra = Some (ra', ms)" "prefix fs gs"
  shows "\<exists>ra'' ns. recv_all fs ra = Some (ra'', ns) \<and> prefix ns ms"
  using assms by (auto simp: prefix_def recv_all_append split: option.splits)

lemma wire_messages_holds:
  assumes "holds k c fs" "bw_buf (co_writer c) = []" "brings k fs ms"
  shows "wire_messages k c = ms" "reads_beginning k (co_out c) ms"
proof -
  let ?n = "length protocol_header"
  obtain sent bs where sent: "list_all frame_ok sent" "write_many frame_write sent = Inr bs"
    "on_channel k sent = fs" "bw_exact (co_writer c) (protocol_header @ bs)"
    using assms(1) unfolding holds_def by blast
  then have out: "drop ?n (co_out c) = bs"
    using assms(2) by (auto simp: bw_exact_def)
  then have frames: "on_channel k (wire_frames c) = map frame_norm fs"
    using read_frames_prefix(2) [OF sent(1,2)] sent(3)
    unfolding wire_frames_def frames_read_def by (simp add: on_channel_norm flip: sent(3))
  obtain ra' where ra': "recv_all (map frame_norm fs) new_reassembly = Some (ra', ms)"
    using assms(3) unfolding brings_def by blast
  with frames show "wire_messages k c = ms"
    by (simp add: wire_messages_def messages_read_def wire_frames_def)
  have "prefix (messages_read k p) ms" if "prefix p (co_out c)" for p
  proof -
    have "prefix (drop ?n p) bs"
      using drop_prefix [OF that, of ?n] out by simp
    then have "prefix (read_frames (drop ?n p)) (map frame_norm sent)"
      by (rule read_frames_prefix(1) [OF sent(1,2)])
    then have "prefix (on_channel k (frames_read p)) (map frame_norm fs)"
      unfolding frames_read_def sent(3) [symmetric] on_channel_norm [symmetric] by (rule selected_prefix)
    from recv_all_prefix [OF ra' this] show ?thesis
      by (auto simp: messages_read_def)
  qed
  then show "reads_beginning k (co_out c) ms"
    by (simp add: reads_beginning_def list_all_iff)
qed

lemma read_frames_mono: "prefix (read_frames p) (read_frames (p @ q))"
proof (induction p rule: read_frames.induct)
  case (1 p)
  show ?case
  proof (cases "read_frame p")
    case (Pair v r)
    show ?thesis
    proof (cases v)
      case (Inl e)
      then show ?thesis
        using Pair by (subst read_frames.simps) simp
    next
      case (Inr f)
      have whole: "read_frame (p @ q) = (Inr f, r @ q)"
        using Pair Inr by (intro steadyD [OF steady_read_frame]) simp
      have "read_frames p = f # read_frames r" "read_frames (p @ q) = f # read_frames (r @ q)"
        using Pair Inr whole by (auto simp: read_frames.simps [of p] read_frames.simps [of "p @ q"])
      moreover have "prefix (read_frames r) (read_frames (r @ q))"
        by (rule "1.IH" [of v r f]) (use Pair Inr in auto)
      ultimately show ?thesis
        by simp
    qed
  qed
qed

text \<open>When more bytes are written, more frames can be read.\<close>

lemma wire_frames_mono:
  assumes "prefix (co_out c) (co_out c')"
  shows "prefix (on_channel k (wire_frames c)) (on_channel k (wire_frames c'))"
proof -
  obtain q where "drop (length protocol_header) (co_out c') = drop (length protocol_header) (co_out c) @ q"
    using drop_prefix [OF assms] unfolding prefix_def by blast
  then show ?thesis
    unfolding wire_frames_def frames_read_def using read_frames_mono selected_prefix by metis
qed

lemma wire_messages_one_more:
  assumes "wire_messages k c = ms" "brings k fs ms" "brings k gs [m]"
    and "prefix (co_out c) (co_out c')" "carries k c' (fs @ gs)"
    and "holds k c fs" "bw_buf (co_writer c) = []"
  shows "wire_messages k c' = ms \<or> wire_messages k c' = ms @ [m]"
proof -
  let ?r = "\<lambda>fs. recv_all fs new_reassembly"
  have "prefix (on_channel k (wire_frames c')) (map frame_norm (fs @ gs))"
    by (rule carries_wire(1) [OF assms(5)])
  moreover obtain ra where "?r (map frame_norm (fs @ gs)) = Some (ra, ms @ [m])"
    using brings_append [OF assms(2,3)] unfolding brings_def by blast
  ultimately obtain rb ns where ns: "?r (on_channel k (wire_frames c')) = Some (rb, ns)" "prefix ns (ms @ [m])"
    using recv_all_prefix by blast
  from ns(1) wire_frames_mono [OF assms(4)] obtain rc ls
    where ls: "?r (on_channel k (wire_frames c)) = Some (rc, ls)" "prefix ls ns"
    using recv_all_prefix by blast
  have "ls = ms"
    using ls(1) assms(1) by (simp add: wire_messages_def messages_read_def wire_frames_def)
  with ls(2) ns(2) have "ns = ms \<or> ns = ms @ [m]"
    by (auto simp: prefix_def append_eq_append_conv2 Cons_eq_append_conv)
  then show ?thesis
    using ns(1) by (simp add: wire_messages_def messages_read_def wire_frames_def)
qed

section \<open>Output only grows\<close>

lemma bw_write_grows: "prefix (bw_out w) (bw_out (snd (bw_write p w)))"
  by (auto simp: bw_write_def split: option.splits list.splits)

lemma bw_flush_grows: "prefix (bw_out w) (bw_out (snd (bw_flush w)))"
  by (auto simp: bw_flush_def split: option.splits list.splits)

lemma co_now_grows:
  "prefix (co_out c) (co_out (snd (co_send_now f c)))"
  "prefix (co_out c) (co_out (snd (co_send_unflushed_now f c)))"
  "prefix (co_out c) (co_out (snd (co_flush_now c)))"
proof -
  have 1: "prefix (bw_out w) (bw_out (snd (write_frame_no_flush f w)))" for w
    using bw_write_grows by (auto simp: write_frame_no_flush_def split: sum.splits)
  have 2: "prefix (bw_out w) (bw_out (snd (write_frame_flush f w)))" for w
    using 1 [of w] bw_flush_grows [of "snd (write_frame_no_flush f w)"]
    by (auto simp: write_frame_flush_def split: prod.splits option.splits)
  show "prefix (co_out c) (co_out (snd (co_send_now f c)))"
    "prefix (co_out c) (co_out (snd (co_send_unflushed_now f c)))"
    using 1 2 by (auto simp: co_send_now_def co_send_unflushed_now_def)
  show "prefix (co_out c) (co_out (snd (co_flush_now c)))"
    using bw_flush_grows [of "co_writer c"] by (auto simp: co_flush_now_def split: prod.splits option.splits)
qed

lemma env_run_grows: "prefix (co_out c) (co_out (env_run es c))"
proof (induction es c rule: env_run.induct)
  case (2 f es c)
  then show ?case
    using co_now_grows(1) [of c f] by auto
qed simp_all

lemma co_sync_grows: "prefix (co_out c) (co_out (co_sync c))"
  using env_run_grows [of "c\<lparr>co_env := tl (co_env c)\<rparr>"] by (cases "co_env c") (auto simp: co_sync_def)

lemma co_grows:
  "prefix (co_out c) (co_out (snd (co_send f c)))"
  "prefix (co_out c) (co_out (snd (co_send_unflushed f c)))"
  "prefix (co_out c) (co_out (snd (co_flush c)))"
  using co_sync_grows [of c] co_now_grows [of "co_sync c"]
  unfolding co_send_def co_send_unflushed_def co_flush_def by (meson prefix_order.trans)+

lemma send_seq_grows: "prefix (co_out c) (co_out (snd (send_seq fs c)))"
proof (induction fs arbitrary: c)
  case (Cons f fs)
  show ?case
    using co_grows(2) [of c f] Cons.IH by (auto split: prod.splits option.splits intro: prefix_order.trans)
qed simp

end
