(* ===== verification/Publisher.thy ===== *)
theory Publisher
  imports ChannelOps
begin

text \<open>
  Publishing on a channel (\<open>PublishWithDeferredConfirm\<close> and the functions around it in
  \<open>channel.go\<close>): a publishing that returns no error has been written on the socket as one
  message with its properties and body, one that fails has been written wholly or not at
  all. As the comments of \<open>Publish\<close> say, that the server has the message does not follow: the
  operating system may lose what was written, and only publisher confirms tell.
\<close>

section \<open>Publishing\<close>

text \<open>\<open>Publishing\<close> of \<open>types.go\<close>.\<close>

record publishing =
  pb_Headers :: table
  pb_ContentType :: gostring
  pb_ContentEncoding :: gostring
  pb_DeliveryMode :: "8 word"
  pb_Priority :: "8 word"
  pb_CorrelationId :: gostring
  pb_ReplyTo :: gostring
  pb_Expiration :: gostring
  pb_MessageId :: gostring
  pb_Timestamp :: gotime
  pb_Type :: gostring
  pb_UserId :: gostring
  pb_AppId :: gostring
  pb_Body :: "byte list"

definition publish_method :: "gostring \<Rightarrow> gostring \<Rightarrow> bool \<Rightarrow> bool \<Rightarrow> publishing \<Rightarrow> basicPublish" where
  "publish_method exchange key mandatory immediate msg =
     \<lparr>basicPublish_reserved1 = 0, basicPublish_Exchange = exchange, basicPublish_RoutingKey = key,
      basicPublish_Mandatory = mandatory, basicPublish_Immediate = immediate,
      basicPublish_Properties =
        \<lparr>prop_ContentType = pb_ContentType msg, prop_ContentEncoding = pb_ContentEncoding msg,
         prop_Headers = pb_Headers msg, prop_DeliveryMode = pb_DeliveryMode msg,
         prop_Priority = pb_Priority msg, prop_CorrelationId = pb_CorrelationId msg,
         prop_ReplyTo = pb_ReplyTo msg, prop_Expiration = pb_Expiration msg,
         prop_MessageId = pb_MessageId msg, prop_Timestamp = pb_Timestamp msg,
         prop_Type = pb_Type msg, prop_UserId = pb_UserId msg, prop_AppId = pb_AppId msg,
         prop_reserved1 = ''''\<rparr>,
      basicPublish_Body = pb_Body msg\<rparr>"

text \<open>The result is the error or, in confirm mode, the index of the deferred confirmation.\<close>

definition publish_with_deferred_confirm ::
  "gostring \<Rightarrow> gostring \<Rightarrow> bool \<Rightarrow> bool \<Rightarrow> publishing \<Rightarrow> (goerr + nat option) operation" where
  "publish_with_deferred_confirm exchange key mandatory immediate msg ch =
     (if \<not> validate_field (FTable (pb_Headers msg)) then op_return (Inl EValidate) ch
      else
       (let (dc, ch1) =
          (if ch_confirming ch
           then (let (i, c) = cs_publish (ch_confirms ch) in (Some i, ch\<lparr>ch_confirms := c\<rparr>))
           else (None, ch))
        in op_bind (ch_send (MBasic (BasicPublish (publish_method exchange key mandatory immediate msg))))
             (\<lambda>r ch2. case r of
                Some err \<Rightarrow> op_return (Inl err)
                  (if ch_confirming ch2 then ch2\<lparr>ch_confirms := cs_unpublish (ch_confirms ch2)\<rparr> else ch2)
              | None \<Rightarrow> op_return (Inr dc) ch2) ch1))"

definition ch_publish :: "gostring \<Rightarrow> gostring \<Rightarrow> bool \<Rightarrow> bool \<Rightarrow> publishing \<Rightarrow> goerr option operation" where
  "ch_publish exchange key mandatory immediate msg =
     op_bind (publish_with_deferred_confirm exchange key mandatory immediate msg)
       (\<lambda>r. op_return (call_error r))"

section \<open>Sending a message with content\<close>

definition frame_size_ok :: "int \<Rightarrow> bool" where
  "frame_size_ok n \<longleftrightarrow> n \<le> 0 \<or> frame_header_size < n"

definition body_chunk :: "connection \<Rightarrow> byte list \<Rightarrow> int" where
  "body_chunk c b = (if co_FrameSize c > 0 then co_FrameSize c - frame_header_size else int (length b))"

lemma body_chunk_pos: "frame_size_ok (co_FrameSize c) \<Longrightarrow> 0 < body_chunk c b \<or> b = []"
  by (auto simp: frame_size_ok_def body_chunk_def frame_header_size_def)

definition message_frames :: "channel \<Rightarrow> basic_msg \<Rightarrow> frame list" where
  "message_frames ch m = (case get_content m of None \<Rightarrow> []
     | Some (p, b) \<Rightarrow> content_frames (ch_id ch) m (chunks (nat (body_chunk (ch_connection ch) b)) b))"

text \<open>The channel is the same up to its closed flag.\<close>

definition same_channel :: "channel \<Rightarrow> channel \<Rightarrow> bool" where
  "same_channel ch ch' \<longleftrightarrow> ch' = ch\<lparr>ch_closed := ch_closed ch', ch_env := ch_env ch'\<rparr>"

lemma ch_is_closed_same: "ch_is_closed ch = (b, ch') \<Longrightarrow> same_channel ch ch'"
  unfolding same_channel_def ch_is_closed_def
  by (auto split: list.splits)

lemma same_channel_trans: "same_channel a b \<Longrightarrow> same_channel b c \<Longrightarrow> same_channel a c"
  by (cases a; cases b; cases c) (simp add: same_channel_def)

lemma same_channel_sel:
  "same_channel ch ch' \<Longrightarrow> ch_connection ch' = ch_connection ch" "same_channel ch ch' \<Longrightarrow> ch_id ch' = ch_id ch"
  "same_channel ch ch' \<Longrightarrow> ch_confirms ch' = ch_confirms ch" "same_channel ch ch' \<Longrightarrow> ch_confirming ch' = ch_confirming ch"
  "same_channel ch ch' \<Longrightarrow> ch_inbox ch' = ch_inbox ch"
  by (cases ch; cases ch'; simp add: same_channel_def)+

lemma ch_send_open_content:
  assumes "get_content m = Some (p, b)" "frame_size_ok (co_FrameSize (ch_connection ch))"
  shows "\<exists>ch'. same_channel ch ch' \<and>
    (ch_send_open (MBasic m) ch = Some (Done (Some (EAmqp ErrClosed)) ch') \<or>
     ch_send_open (MBasic m) ch =
       (case send_seq (message_frames ch m) (ch_connection ch) of (r1, c1) \<Rightarrow>
        case co_flush c1 of (r2, c2) \<Rightarrow>
          Some (Done (if r1 = None then r2 else r1) (ch'\<lparr>ch_connection := c2\<rparr>))))"
proof -
  obtain closed ch' where cl: "ch_is_closed ch = (closed, ch')"
    by fastforce
  have same: "same_channel ch ch'"
    using cl by (rule ch_is_closed_same)
  note sel = same_channel_sel [OF same]
  have content: "content_of (MBasic m) = Some (p, b)"
    by (simp add: content_of_def assms)
  show ?thesis
  proof (cases closed)
    case True
    then have "ch_send_open (MBasic m) ch = Some (Done (Some (EAmqp ErrClosed)) ch')"
      by (simp add: ch_send_open_def content cl ch_send_closed_def op_return_def)
    with same show ?thesis
      by blast
  next
    case False
    let ?n = "body_chunk (ch_connection ch) b"
    have frames: "message_frames ch m = content_frames (ch_id ch) m (chunks (nat ?n) b)"
      by (simp add: message_frames_def assms)
    have "ch_send_open (MBasic m) ch =
        op_bind (send_content_frames ?n (MBasic m) (fst (basic_id m)) p b) end_send ch'"
      using False by (simp add: ch_send_open_def content cl body_chunk_def)
    also have "\<dots> = (case send_seq (message_frames ch m) (ch_connection ch) of (r1, c1) \<Rightarrow>
        case co_flush c1 of (r2, c2) \<Rightarrow>
          Some (Done (if r1 = None then r2 else r1) (ch'\<lparr>ch_connection := c2\<rparr>)))"
      using send_content_seq [OF body_chunk_pos [OF assms(2)] assms(1), of ch']
      by (simp add: op_bind_def end_send_def op_return_def on_connection_def sel frames split: prod.splits)
    finally show ?thesis
      using same by blast
  qed
qed

lemma ch_send_content:
  assumes "get_content m = Some (p, b)" "frame_size_ok (co_FrameSize (ch_connection ch))"
  shows "\<exists>ch'. same_channel ch ch' \<and>
    (ch_send (MBasic m) ch = Some (Done (Some (EAmqp ErrClosed)) ch') \<or>
     ch_send (MBasic m) ch =
       (case send_seq (message_frames ch m) (ch_connection ch) of (r1, c1) \<Rightarrow>
        case co_flush c1 of (r2, c2) \<Rightarrow>
          Some (Done (if r1 = None then r2 else r1) (ch'\<lparr>ch_connection := c2\<rparr>))))"
proof -
  obtain closed ch1 where cl: "ch_is_closed ch = (closed, ch1)"
    by fastforce
  have same: "same_channel ch ch1"
    using cl by (rule ch_is_closed_same)
  note sel = same_channel_sel [OF same]
  show ?thesis
  proof (cases closed)
    case True
    then have "ch_send (MBasic m) ch = Some (Done (Some (EAmqp ErrClosed)) ch1)"
      by (simp add: ch_send_def cl ch_send_closed_def op_return_def)
    with same show ?thesis
      by blast
  next
    case False
    have frames: "message_frames ch1 m = message_frames ch m"
      by (simp add: message_frames_def sel split: option.split)
    have size: "frame_size_ok (co_FrameSize (ch_connection ch1))"
      using assms(2) by (simp add: sel)
    have "ch_send (MBasic m) ch \<equiv> ch_send_open (MBasic m) ch1"
      using False by (simp add: ch_send_def cl)
    from ch_send_open_content [OF assms(1) size, unfolded frames sel(1), folded this]
    show ?thesis
      using same_channel_trans [OF same] by blast
  qed
qed


section \<open>One message, wholly or not at all\<close>

lemma co_now_FrameSize [simp]:
  "co_FrameSize (snd (co_send_now f c)) = co_FrameSize c"
  "co_FrameSize (snd (co_send_unflushed_now f c)) = co_FrameSize c"
  "co_FrameSize (snd (co_flush_now c)) = co_FrameSize c"
  by (auto simp: co_send_now_def co_send_unflushed_now_def co_flush_now_def split: prod.splits option.splits)

lemma env_run_FrameSize [simp]: "co_FrameSize (env_run es c) = co_FrameSize c"
  by (induction es c rule: env_run.induct) simp_all

lemma co_sync_FrameSize [simp]: "co_FrameSize (co_sync c) = co_FrameSize c"
  by (auto simp: co_sync_def split: list.splits)

lemma co_FrameSizes [simp]:
  "co_FrameSize (snd (co_send f c)) = co_FrameSize c"
  "co_FrameSize (snd (co_send_unflushed f c)) = co_FrameSize c"
  "co_FrameSize (snd (co_flush c)) = co_FrameSize c"
  by (simp_all add: co_send_def co_send_unflushed_def co_flush_def)

lemma send_seq_FrameSize [simp]: "co_FrameSize (snd (send_seq fs c)) = co_FrameSize c"
proof (induction fs arbitrary: c)
  case (Cons f fs)
  obtain q d where q: "co_send_unflushed f c = (q, d)"
    by fastforce
  then have "co_FrameSize d = co_FrameSize c"
    using co_FrameSizes(2) [of f c] by simp
  with Cons.IH [of d] q show ?case
    by (auto split: option.splits)
qed simp

text \<open>The messages \<open>ms\<close> have been written on the socket for the channel and nothing is buffered.\<close>

definition written_out :: "16 word \<Rightarrow> connection \<Rightarrow> message list \<Rightarrow> bool" where
  "written_out k c ms \<longleftrightarrow> (\<exists>fs. holds k c fs \<and> brings k fs ms \<and> bw_buf (co_writer c) = [])"

lemma written_out_messages:
  "written_out k c ms \<Longrightarrow> wire_messages k c = ms" "written_out k c ms \<Longrightarrow> reads_beginning k (co_out c) ms"
  unfolding written_out_def by (blast intro: wire_messages_holds)+

lemma wire_messages_out: "co_out c' = co_out c \<Longrightarrow> wire_messages k c' = wire_messages k c"
  by (simp add: wire_messages_def)

definition writes_one :: "16 word \<Rightarrow> message \<Rightarrow> goerr option \<Rightarrow> connection \<Rightarrow> connection \<Rightarrow> bool" where
  "writes_one k m r c c' \<longleftrightarrow>
     env_ok k c' \<and> co_FrameSize c' = co_FrameSize c \<and> (dead c \<longrightarrow> r \<noteq> None)
     \<and> (if r = None then written_out k c' (wire_messages k c @ [m])
        else dead c' \<and> (wire_messages k c' = wire_messages k c \<or> wire_messages k c' = wire_messages k c @ [m]))"

lemma content_step:
  assumes rec: "written_out k c ms" and env: "env_ok k c" and gs: "brings k gs [m]"
    and s: "send_seq gs c = (r1, c1)" and f: "co_flush c1 = (r2, c2)"
  shows "writes_one k m (if r1 = None then r2 else r1) c c2"
proof -
  obtain fs where fs: "holds k c fs" "brings k fs ms" "bw_buf (co_writer c) = []"
    using rec unfolding written_out_def by blast
  have ms: "wire_messages k c = ms"
    by (rule written_out_messages(1) [OF rec])
  have ne: "gs \<noteq> []"
    using gs unfolding brings_def by auto
  have frames: "frames_of k gs"
    using gs unfolding brings_def by blast
  note seq = send_seq_carries [OF holds_carries [OF fs(1)] env frames s]
  have car: "carries k c1 (fs @ gs)" "env_ok k c1" and open1: "r1 = None \<longleftrightarrow> co_open c1" "co_open c1 \<longrightarrow> co_open c"
    using seq ne by auto
  note fl = co_flush_carries [OF car f]
  have size: "co_FrameSize c2 = co_FrameSize c"
    using fl seq by simp
  show ?thesis
  proof (cases "(if r1 = None then r2 else r1) = None")
    case True
    then have r: "r1 = None" "r2 = None"
      by (auto split: if_splits)
    have "holds k c1 (fs @ gs)"
      using car(1) open1(1) r(1) by (simp add: carries_holds)
    then have "holds k c2 (fs @ gs) \<and> env_ok k c2 \<and> bw_buf (co_writer c2) = []"
      by (rule flush_holds [OF _ car(2)]) (use f r(2) in simp)
    then have "written_out k c2 (ms @ [m])"
      using brings_append [OF fs(2) gs] unfolding written_out_def by blast
    moreover have "\<not> dead c"
      using open1 r(1) by (auto simp: dead_def)
    ultimately show ?thesis
      using True fl size by (simp add: writes_one_def ms)
  next
    case False
    have "\<not> co_open c2"
    proof (cases "r1 = None")
      case True
      with False have "r2 \<noteq> None"
        by simp
      then show ?thesis
        using flush_error [OF f] by (auto simp: co_open_def)
    next
      case False
      then show ?thesis
        using open1(1) fl by blast
    qed
    then have "dead c2"
      using flush_quiet [OF f] by (simp add: dead_def)
    moreover have "prefix (co_out c) (co_out c2)"
      using send_seq_grows [of c gs] co_grows(3) [of c1] s f by (auto intro: prefix_order.trans)
    then have "wire_messages k c2 = ms \<or> wire_messages k c2 = ms @ [m]"
      using fl by (intro wire_messages_one_more [OF ms fs(2) gs _ _ fs(1,3)]) auto
    ultimately show ?thesis
      using False fl size by (auto simp: writes_one_def ms)
  qed
qed

lemma content_step_dead:
  assumes "dead c" and env: "env_ok k c" and gs: "brings k gs [m]"
    and s: "send_seq gs c = (r1, c1)" and f: "co_flush c1 = (r2, c2)"
  shows "writes_one k m (if r1 = None then r2 else r1) c c2"
proof -
  have frames: "frames_of k gs" and ne: "gs \<noteq> []"
    using gs unfolding brings_def by auto
  have 1: "dead c1" "env_ok k c1" "co_out c1 = co_out c" "r1 \<noteq> None"
    using send_seq_dead [OF assms(1) env frames s] ne by auto
  have 2: "dead c2" "env_ok k c2" "co_out c2 = co_out c1"
    using flush_dead [OF 1(1,2) f] by auto
  have "co_FrameSize c2 = co_FrameSize c"
    using send_seq_FrameSize [of gs c] co_FrameSizes(3) [of c1] s f by simp
  with 1 2 show ?thesis
    using wire_messages_out [of c2 c k] by (auto simp: writes_one_def)
qed

section \<open>What a message with content brings\<close>

definition message_fits :: "basic_msg \<Rightarrow> bool" where
  "message_fits m \<longleftrightarrow> basic_ok m \<and> (case get_content m of None \<Rightarrow> False
     | Some (p, b) \<Rightarrow> properties_ok p \<and> length b < 2 ^ 32)"

text \<open>The message as it is read back.\<close>

definition content_norm :: "basic_msg \<Rightarrow> basic_msg" where
  "content_norm m = (case get_content m of None \<Rightarrow> m
     | Some (p, b) \<Rightarrow> set_content (properties_norm p) b (basic_norm m))"

lemma cuts_piece_length: "cuts b pieces \<Longrightarrow> x \<in> set pieces \<Longrightarrow> length x \<le> length b"
  by (auto simp: cuts_def length_concat intro!: member_le_sum_list)

lemma message_frames_bring:
  assumes "message_fits m" "frame_size_ok (co_FrameSize (ch_connection ch))"
  shows "brings (ch_id ch) (message_frames ch m) [MBasic (content_norm m)]"
proof -
  obtain p b where pb: "get_content m = Some (p, b)" "properties_ok p" "length b < 2 ^ 32" "basic_ok m"
    using assms(1) by (auto simp: message_fits_def split: option.splits)
  let ?pieces = "chunks (nat (body_chunk (ch_connection ch) b)) b"
  have cuts: "cuts b ?pieces"
  proof (cases "b = []")
    case True
    then show ?thesis
      by (simp add: cuts_def)
  next
    case False
    with body_chunk_pos [OF assms(2)] have "0 < nat (body_chunk (ch_connection ch) b)"
      by (metis zero_less_nat_eq)
    then show ?thesis
      by (rule chunks_cuts)
  qed
  have frames: "message_frames ch m = content_frames (ch_id ch) m ?pieces"
    by (simp add: message_frames_def pb)
  have "list_all (\<lambda>f. frame_ok f \<and> frame_channel f = ch_id ch) (map (body_of (ch_id ch)) ?pieces)"
    using cuts_piece_length [OF cuts] pb(3) by (fastforce simp: list_all_iff body_of_def)
  then have "frames_of (ch_id ch) (content_frames (ch_id ch) m ?pieces)"
    using pb by (simp add: frames_of_def content_frames_unfold [OF pb(1)] method_of_def)
  moreover have "length b \<le> max_alloc"
    using pb(3) by (simp add: max_alloc_def)
  note recv_content_frames [OF pb(1) cuts this]
  ultimately show ?thesis
    unfolding brings_def frames by (simp add: content_norm_def pb)
qed

section \<open>The state of a publisher's channel\<close>

definition channel_inv :: "channel \<Rightarrow> bool" where
  "channel_inv ch \<longleftrightarrow> env_ok (ch_id ch) (ch_connection ch) \<and> frame_size_ok (co_FrameSize (ch_connection ch))
     \<and> ((\<exists>ms. written_out (ch_id ch) (ch_connection ch) ms) \<or> dead (ch_connection ch))"

definition channel_messages :: "channel \<Rightarrow> message list" where
  "channel_messages ch = wire_messages (ch_id ch) (ch_connection ch)"

text \<open>
  The result of an operation that sends the message \<open>m\<close>. Without an error it is the next
  message written on the socket, and a peer that has got only a part of the bytes has read
  a beginning of these messages; with an error it has been written or not. On a dead
  connection there always is an error.
\<close>

definition sends_one :: "message \<Rightarrow> goerr option \<Rightarrow> channel \<Rightarrow> channel \<Rightarrow> bool" where
  "sends_one m r ch ch' \<longleftrightarrow> channel_inv ch' \<and> ch_id ch' = ch_id ch
     \<and> (dead (ch_connection ch) \<longrightarrow> r \<noteq> None \<and> dead (ch_connection ch'))
     \<and> (if r = None then channel_messages ch' = channel_messages ch @ [m]
          \<and> reads_beginning (ch_id ch) (co_out (ch_connection ch')) (channel_messages ch @ [m])
        else channel_messages ch' = channel_messages ch \<or> channel_messages ch' = channel_messages ch @ [m])"

lemma ch_send_one:
  assumes inv: "channel_inv ch" and fits: "message_fits m"
  shows "\<exists>r ch'. ch_send (MBasic m) ch = Some (Done r ch') \<and> sends_one (MBasic (content_norm m)) r ch ch'
    \<and> ch_confirms ch' = ch_confirms ch \<and> ch_confirming ch' = ch_confirming ch"
proof -
  have env: "env_ok (ch_id ch) (ch_connection ch)" and size: "frame_size_ok (co_FrameSize (ch_connection ch))"
    using inv by (simp_all add: channel_inv_def)
  obtain p b where pb: "get_content m = Some (p, b)"
    using fits by (auto simp: message_fits_def split: option.splits)
  obtain r1 c1 r2 c2 where s: "send_seq (message_frames ch m) (ch_connection ch) = (r1, c1)"
    and f: "co_flush c1 = (r2, c2)"
    by (metis surj_pair)
  let ?r = "if r1 = None then r2 else r1"
  obtain ch' where ch': "same_channel ch ch'"
    "ch_send (MBasic m) ch = Some (Done (Some (EAmqp ErrClosed)) ch')
     \<or> ch_send (MBasic m) ch = Some (Done ?r (ch'\<lparr>ch_connection := c2\<rparr>))"
    using ch_send_content [OF pb size, unfolded s f prod.case] by blast
  note sel = same_channel_sel [OF ch'(1)]
  have gs: "brings (ch_id ch) (message_frames ch m) [MBasic (content_norm m)]"
    by (rule message_frames_bring [OF fits size])
  have "writes_one (ch_id ch) (MBasic (content_norm m)) ?r (ch_connection ch) c2"
    using inv content_step [OF _ env gs s f] content_step_dead [OF _ env gs s f]
    unfolding channel_inv_def by blast
  then have two: "sends_one (MBasic (content_norm m)) ?r ch (ch'\<lparr>ch_connection := c2\<rparr>)"
    using size written_out_messages
    by (auto simp: writes_one_def sends_one_def channel_inv_def channel_messages_def sel split: if_splits)
  have one: "sends_one (MBasic (content_norm m)) (Some (EAmqp ErrClosed)) ch ch'"
    using inv by (simp add: sends_one_def channel_inv_def channel_messages_def sel)
  from ch'(2) show ?thesis
    using one two sel by auto
qed


section \<open>Frame sizes below nine\<close>

definition healthy :: "connection \<Rightarrow> bool" where
  "healthy c \<longleftrightarrow> \<not> co_closed c \<and> co_env c = [] \<and> bw_err (co_writer c) = None \<and> bw_net (co_writer c) = []"

lemma healthy_send:
  assumes "healthy c" "frame_write f = Inr b"
  shows "\<exists>c'. co_send_unflushed f c = (None, c') \<and> healthy c' \<and> co_FrameSize c' = co_FrameSize c"
  using assms by (simp add: healthy_def co_send_unflushed_def co_sync_def co_send_unflushed_now_def co_sent_def
      write_frame_no_flush_def bw_write_def)

lemma send_body_empty_chunks:
  assumes "send_body 0 body 0 0 ch = Some r" "body \<noteq> []" "healthy (ch_connection ch)"
  shows False
proof -
  let ?P = "\<lambda>(chunk :: int) (body :: byte list) (i :: int) (j :: int) ch (r :: goerr option fate).
    chunk = 0 \<and> i = 0 \<and> j = 0 \<and> body \<noteq> [] \<and> healthy (ch_connection ch) \<longrightarrow> False"
  have "?P 0 body 0 0 ch r"
  proof (rule send_body.raw_induct [where P = ?P, OF _ assms(1)])
    fix sb :: "int \<Rightarrow> byte list \<Rightarrow> int \<Rightarrow> int \<Rightarrow> channel \<Rightarrow> goerr option fate option"
      and chunk body i j ch r
    assume IH: "\<And>a b c d e y. sb a b c d e = Some y \<Longrightarrow> ?P a b c d e y"
      and step: "(if i < int (length body)
        then let e = if int (length body) < j then int (length body) else j
             in if e < i then Some Panic
                else case co_send_unflushed (BodyFrame \<lparr>bf_ChannelId = ch_id ch,
                            bf_Body = take (nat (e - i)) (drop (nat i) body)\<rparr>) (ch_connection ch) of
                     (None, c) \<Rightarrow> sb chunk body e (e + chunk) (ch\<lparr>ch_connection := c\<rparr>)
                   | (Some err, c) \<Rightarrow> Some (Done (Some err) (ch\<lparr>ch_connection := c\<rparr>))
        else Some (Done None ch)) = Some r"
    show "?P chunk body i j ch r"
    proof
      assume start: "chunk = 0 \<and> i = 0 \<and> j = 0 \<and> body \<noteq> [] \<and> healthy (ch_connection ch)"
      let ?f = "BodyFrame \<lparr>bf_ChannelId = ch_id ch, bf_Body = []\<rparr>"
      have "\<exists>b. frame_write ?f = Inr b"
        by (simp add: body_frame_write_def)
      then obtain c where c: "co_send_unflushed ?f (ch_connection ch) = (None, c)" "healthy c"
        using healthy_send start by blast
      from step start c have "sb 0 body 0 0 (ch\<lparr>ch_connection := c\<rparr>) = Some r"
        by (simp add: Let_def)
      from IH [OF this] start c show False
        by simp
    qed
  qed
  with assms show False
    by blast
qed


lemma send_body_small:
  assumes "chunk \<le> 0" "body \<noteq> []" "healthy (ch_connection ch)"
  shows "send_body chunk body 0 chunk ch = (if chunk = 0 then None else Some Panic)"
proof (cases "chunk = 0")
  case True
  with send_body_empty_chunks [OF _ assms(2,3)] show ?thesis
    by (cases "send_body 0 body 0 0 ch") auto
next
  case False
  with assms(1,2) show ?thesis
    by (subst send_body.simps) (simp add: Let_def)
qed

lemma send_content_small:
  assumes "chunk \<le> 0" "healthy (ch_connection ch)" "get_content m = Some (p, b)" "message_fits m" "b \<noteq> []"
  shows "send_content_frames chunk (MBasic m) (fst (basic_id m)) p b ch = (if chunk = 0 then None else Some Panic)"
proof -
  let ?h = "HeaderFrame \<lparr>hf_ChannelId = ch_id ch, hf_ClassId = fst (basic_id m), hf_weight = 0,
    hf_Size = word_of_nat (length b), hf_Properties = p\<rparr>"
  have ok: "frame_ok (method_of (ch_id ch) (MBasic m))" "frame_ok ?h"
    using assms(3,4) by (simp_all add: message_fits_def method_of_def)
  obtain x y where x: "frame_write (method_of (ch_id ch) (MBasic m)) = Inr x" and y: "frame_write ?h = Inr y"
    using frame_written [OF ok(1)] frame_written [OF ok(2)] by blast
  obtain c where c: "co_send_unflushed (method_of (ch_id ch) (MBasic m)) (ch_connection ch) = (None, c)" "healthy c"
    using healthy_send [OF assms(2) x] by blast
  obtain d where d: "co_send_unflushed ?h c = (None, d)" "healthy d"
    using healthy_send [OF c(2) y] by blast
  have "send_content_frames chunk (MBasic m) (fst (basic_id m)) p b ch
      = send_body chunk b 0 chunk (ch\<lparr>ch_connection := d\<rparr>)"
    using c d by (simp add: send_content_frames_def op_bind_def on_connection_def)
  also have "\<dots> = (if chunk = 0 then None else Some Panic)"
    using assms(1,5) d(2) by (intro send_body_small) simp_all
  finally show ?thesis .
qed

lemma fits_validates: "message_fits m \<Longrightarrow> get_content m = Some (p, b) \<Longrightarrow> validate_field (FTable (prop_Headers p))"
  using table_written [of "prop_Headers p"] write_validates(3) [of "prop_Headers p"]
  by (auto simp: message_fits_def properties_ok_def write_table_def split: sum.splits)

lemma publish_content [simp]:
  "get_content (BasicPublish (publish_method exchange key mandatory immediate msg)) =
     Some (basicPublish_Properties (publish_method exchange key mandatory immediate msg), pb_Body msg)"
  by (simp add: publish_method_def)

lemma publish_headers [simp]:
  "prop_Headers (basicPublish_Properties (publish_method exchange key mandatory immediate msg)) = pb_Headers msg"
  "basicPublish_Body (publish_method exchange key mandatory immediate msg) = pb_Body msg"
  by (simp_all add: publish_method_def)

text \<open>A publishing in confirm mode draws a tag before it sends and returns it when the send fails.\<close>

definition confirm_drawn :: "channel \<Rightarrow> channel" where
  "confirm_drawn ch = (if ch_confirming ch then ch\<lparr>ch_confirms := snd (cs_publish (ch_confirms ch))\<rparr> else ch)"

definition confirm_returned :: "channel \<Rightarrow> channel" where
  "confirm_returned ch = (if ch_confirming ch then ch\<lparr>ch_confirms := cs_unpublish (ch_confirms ch)\<rparr> else ch)"

lemma publish_unfold:
  assumes "message_fits (BasicPublish (publish_method exchange key mandatory immediate msg))"
  shows "ch_publish exchange key mandatory immediate msg ch =
    (case ch_send (MBasic (BasicPublish (publish_method exchange key mandatory immediate msg))) (confirm_drawn ch) of
       None \<Rightarrow> None
     | Some Panic \<Rightarrow> Some Panic
     | Some (Done r ch') \<Rightarrow> Some (Done r (if r = None then ch' else confirm_returned ch')))"
proof -
  have "validate_field (FTable (pb_Headers msg))"
    using fits_validates [OF assms publish_content] by simp
  then show ?thesis
    by (auto simp: ch_publish_def publish_with_deferred_confirm_def op_bind_def op_return_def confirm_drawn_def
        confirm_returned_def call_error_def split_beta split: option.splits fate.splits)
qed

lemma confirm_sel [simp]:
  "ch_connection (confirm_drawn ch) = ch_connection ch" "ch_id (confirm_drawn ch) = ch_id ch"
  "ch_closed (confirm_drawn ch) = ch_closed ch" "ch_env (confirm_drawn ch) = ch_env ch"
  "ch_connection (confirm_returned ch) = ch_connection ch" "ch_id (confirm_returned ch) = ch_id ch"
  "channel_inv (confirm_drawn ch) = channel_inv ch" "channel_inv (confirm_returned ch) = channel_inv ch"
  "channel_messages (confirm_drawn ch) = channel_messages ch"
  "channel_messages (confirm_returned ch) = channel_messages ch"
  by (simp_all add: confirm_drawn_def confirm_returned_def channel_inv_def channel_messages_def)

lemma ch_publish_one:
  assumes "channel_inv ch"
    and "message_fits (BasicPublish (publish_method exchange key mandatory immediate msg))"
  shows "\<exists>r ch'. ch_publish exchange key mandatory immediate msg ch = Some (Done r ch')
    \<and> sends_one (MBasic (content_norm (BasicPublish (publish_method exchange key mandatory immediate msg)))) r ch ch'"
proof -
  obtain r ch' where ch': "ch_send (MBasic (BasicPublish (publish_method exchange key mandatory immediate msg)))
      (confirm_drawn ch) = Some (Done r ch')"
    "sends_one (MBasic (content_norm (BasicPublish (publish_method exchange key mandatory immediate msg))))
      r (confirm_drawn ch) ch'"
    using ch_send_one [OF _ assms(2), of "confirm_drawn ch"] assms(1) by auto
  show ?thesis
    unfolding publish_unfold [OF assms(2)] ch'(1)
    using ch'(2) by (auto simp: sends_one_def)
qed

lemma confirm_drawn_frames: "message_frames (confirm_drawn ch) m = message_frames ch m"
  by (simp add: message_frames_def split: option.split)

text \<open>The pieces of a body: together the body, none empty, all but the last of the full size.\<close>

lemma body_pieces:
  assumes "frame_size_ok (co_FrameSize c)"
  defines "pieces \<equiv> \<lambda>b. chunks (nat (body_chunk c b)) b"
  shows "concat (pieces b) = b"
    "list_all (\<lambda>x. x \<noteq> [] \<and> (co_FrameSize c \<le> 0 \<or> frame_header_size + int (length x) \<le> co_FrameSize c)) (pieces b)"
    "list_all (\<lambda>x. frame_header_size + int (length x) = co_FrameSize c) (butlast (pieces b))"
proof -
  have "cuts b (pieces b)"
  proof (cases "b = []")
    case False
    with body_chunk_pos [OF assms(1), of b] show ?thesis
      by (auto simp: pieces_def intro: chunks_cuts)
  qed (simp add: pieces_def cuts_def)
  moreover have "co_FrameSize c \<le> 0 \<or> frame_header_size + int (length x) \<le> co_FrameSize c" if "x \<in> set (pieces b)" for x
    using chunks_length [of x "nat (body_chunk c b)" b] that assms(1)
    by (cases "0 < co_FrameSize c") (simp_all add: pieces_def body_chunk_def frame_size_ok_def)
  ultimately show "concat (pieces b) = b"
    "list_all (\<lambda>x. x \<noteq> [] \<and> (co_FrameSize c \<le> 0 \<or> frame_header_size + int (length x) \<le> co_FrameSize c)) (pieces b)"
    by (auto simp: cuts_def list_all_iff)
  have "frame_header_size + int (length x) = co_FrameSize c" if x: "x \<in> set (butlast (pieces b))" for x
  proof (cases "0 < co_FrameSize c")
    case True
    with chunks_butlast [of x "nat (body_chunk c b)" b] x assms(1) show ?thesis
      by (simp add: pieces_def body_chunk_def frame_size_ok_def)
  next
    case False
    with x show ?thesis
      by (simp add: pieces_def body_chunk_def chunks_whole split: if_splits)
  qed
  then show "list_all (\<lambda>x. frame_header_size + int (length x) = co_FrameSize c) (butlast (pieces b))"
    by (simp add: list_all_iff)
qed

lemma message_frames_written:
  assumes "message_fits m" "frame_size_ok (co_FrameSize (ch_connection ch))"
  shows "\<exists>bs. write_many frame_write (message_frames ch m) = Inr bs"
proof -
  have "\<forall>f \<in> set (message_frames ch m). frame_ok f"
    using message_frames_bring [OF assms] by (auto simp: brings_def frames_of_def list_all_iff)
  then show ?thesis
    using frame_codec.stream by blast
qed

section \<open>The frames of a publishing\<close>

text \<open>On a connection that is open and that no one else uses, everything that is sent goes out.\<close>

lemma send_seq_healthy:
  "healthy c \<Longrightarrow> write_many frame_write fs = Inr bs \<Longrightarrow>
   \<exists>c'. send_seq fs c = (None, c') \<and> healthy c' \<and> bw_buf (co_writer c') = bw_buf (co_writer c) @ bs
     \<and> co_out c' = co_out c"
proof (induction fs arbitrary: c bs)
  case (Cons f fs)
  obtain x y where xy: "frame_write f = Inr x" "write_many frame_write fs = Inr y" "bs = x @ y"
    using Cons.prems(2) by (auto simp: wr_seq_eq_Inr)
  let ?c = "snd (co_send_unflushed f c)"
  have "co_send_unflushed f c = (None, ?c) \<and> healthy ?c \<and> bw_buf (co_writer ?c) = bw_buf (co_writer c) @ x
      \<and> co_out ?c = co_out c"
    using Cons.prems(1) xy(1) by (simp add: healthy_def co_send_unflushed_def co_sync_def
        co_send_unflushed_now_def co_sent_def write_frame_no_flush_def bw_write_def)
  with Cons.IH [of ?c y] xy show ?case
    by (auto split: prod.splits)
qed simp

lemma flush_healthy:
  "healthy c \<Longrightarrow> \<exists>c'. co_flush c = (None, c') \<and> co_out c' = co_out c @ bw_buf (co_writer c)"
  by (simp add: healthy_def co_flush_def co_flush_now_def co_sync_def bw_flush_def)

lemma ch_send_healthy:
  assumes "get_content m = Some (p, b)" "frame_size_ok (co_FrameSize (ch_connection ch))"
    and "healthy (ch_connection ch)" "\<not> ch_closed ch" "ch_env ch = []"
    and "write_many frame_write (message_frames ch m) = Inr bs"
  shows "\<exists>ch'. ch_send (MBasic m) ch = Some (Done None ch')
    \<and> co_out (ch_connection ch') = co_out (ch_connection ch) @ bw_buf (co_writer (ch_connection ch)) @ bs"
proof -
  obtain c1 where c1: "send_seq (message_frames ch m) (ch_connection ch) = (None, c1)" "healthy c1"
    "bw_buf (co_writer c1) = bw_buf (co_writer (ch_connection ch)) @ bs" "co_out c1 = co_out (ch_connection ch)"
    using send_seq_healthy [OF assms(3,6)] by blast
  obtain c2 where c2: "co_flush c1 = (None, c2)" "co_out c2 = co_out c1 @ bw_buf (co_writer c1)"
    using flush_healthy [OF c1(2)] by blast
  have "content_of (MBasic m) = Some (p, b)"
    by (simp add: content_of_def assms(1))
  then have "ch_send (MBasic m) ch = op_bind (send_content_frames (body_chunk (ch_connection ch) b) (MBasic m)
      (fst (basic_id m)) p b) end_send ch"
    using assms(4,5) by (simp add: ch_send_def ch_send_open_def ch_is_closed_def body_chunk_def)
  also have "\<dots> = Some (Done None (ch\<lparr>ch_connection := c2\<rparr>))"
    using send_content_seq [OF body_chunk_pos [OF assms(2)] assms(1), of ch] c1(1) c2(1) assms(1)
    by (simp add: op_bind_def end_send_def op_return_def on_connection_def message_frames_def)
  finally show ?thesis
    using c1 c2 by simp
qed

text \<open>
  What the protocol asks of a publishing: the method basic.publish with its arguments, the
  content header of class 60 with the size of the body and the properties, and the body in
  pieces.
\<close>

definition publish_wire_frames ::
  "16 word \<Rightarrow> gostring \<Rightarrow> gostring \<Rightarrow> bool \<Rightarrow> bool \<Rightarrow> publishing \<Rightarrow> byte list list \<Rightarrow> frame list" where
  "publish_wire_frames k exchange key mandatory immediate msg pieces =
     MethodFrame \<lparr>mf_ChannelId = k, mf_ClassId = 60, mf_MethodId = 40, mf_Method = Some (MBasic (BasicPublish
       \<lparr>basicPublish_reserved1 = 0, basicPublish_Exchange = exchange, basicPublish_RoutingKey = key,
        basicPublish_Mandatory = mandatory, basicPublish_Immediate = immediate,
        basicPublish_Properties = zero_properties, basicPublish_Body = []\<rparr>))\<rparr>
     # HeaderFrame \<lparr>hf_ChannelId = k, hf_ClassId = 60, hf_weight = 0, hf_Size = word_of_nat (length (pb_Body msg)),
         hf_Properties = \<lparr>prop_ContentType = pb_ContentType msg, prop_ContentEncoding = pb_ContentEncoding msg,
           prop_Headers = pb_Headers msg, prop_DeliveryMode = pb_DeliveryMode msg,
           prop_Priority = pb_Priority msg, prop_CorrelationId = pb_CorrelationId msg,
           prop_ReplyTo = pb_ReplyTo msg, prop_Expiration = pb_Expiration msg,
           prop_MessageId = pb_MessageId msg, prop_Timestamp = pb_Timestamp msg,
           prop_Type = pb_Type msg, prop_UserId = pb_UserId msg, prop_AppId = pb_AppId msg,
           prop_reserved1 = ''''\<rparr>\<rparr>
     # map (\<lambda>x. BodyFrame \<lparr>bf_ChannelId = k, bf_Body = x\<rparr>) pieces"

lemma publish_frames_wire:
  fixes ch exchange key mandatory immediate msg
  defines "m \<equiv> BasicPublish (publish_method exchange key mandatory immediate msg)"
    and "pieces \<equiv> chunks (nat (body_chunk (ch_connection ch) (pb_Body msg))) (pb_Body msg)"
  shows "write_many frame_write (message_frames ch m)
    = write_many frame_write (publish_wire_frames (ch_id ch) exchange key mandatory immediate msg pieces)"
proof -
  have "get_content m = Some (basicPublish_Properties (publish_method exchange key mandatory immediate msg), pb_Body msg)"
    by (simp add: m_def publish_method_def)
  from content_frames_unfold [OF this, of "ch_id ch" pieces] this show ?thesis
    by (simp add: message_frames_def publish_wire_frames_def method_of_def body_of_def [abs_def] pieces_def m_def
        publish_method_def method_frame_write_def basicPublish_write_def basicPublish_id_def)
qed

section \<open>Properties\<close>

text \<open>C3. Publishing is all or nothing: it returns and the channel stays consistent. Without an error
  the message is, whole and once, the next one written on the socket for this channel, and
  from any initial part of the bytes a beginning of the messages is read, never a part of
  one; after an error either nothing more or the whole message can be read from what was
  written. This is about the bytes handed to the operating system, not about what the
  server gets, of which the result says nothing. It holds while no other goroutine sends on
  this channel during the call (\<open>channel_inv\<close>), so in particular the server sends no
  channel.flow; frames of other channels may come anywhere.\<close>
theorem publish_all_or_nothing:
  assumes "channel_inv ch"
    and "message_fits (BasicPublish (publish_method exchange key mandatory immediate msg))"
  shows "\<exists>r ch'. ch_publish exchange key mandatory immediate msg ch = Some (Done r ch')
    \<and> sends_one (MBasic (content_norm (BasicPublish (publish_method exchange key mandatory immediate msg)))) r ch ch'"
  by (rule ch_publish_one [OF assms])

definition sample_connection :: connection where
  "sample_connection = \<lparr>co_writer = \<lparr>bw_out = protocol_header, bw_buf = [], bw_err = None, bw_net = []\<rparr>,
     co_closed = False, co_shutdowns = [], co_FrameSize = 131072, co_env = []\<rparr>"

definition sample_publishing :: publishing where
  "sample_publishing = \<lparr>pb_Headers = [], pb_ContentType = ''application/json'', pb_ContentEncoding = '''',
     pb_DeliveryMode = 2, pb_Priority = 0, pb_CorrelationId = ''c1'', pb_ReplyTo = '''', pb_Expiration = '''',
     pb_MessageId = '''', pb_Timestamp = (1000, 7), pb_Type = '''', pb_UserId = '''', pb_AppId = '''',
     pb_Body = [123, 125]\<rparr>"

lemma written_out_start:
  "co_writer c = \<lparr>bw_out = protocol_header, bw_buf = [], bw_err = None, bw_net = net\<rparr> \<Longrightarrow> written_out k c []"
  unfolding written_out_def holds_def
  by (rule exI [of _ "[]"]) (auto simp: brings_Nil bw_exact_def intro!: exI [of _ "[]"])

lemma sample_inv: "channel_inv (new_channel sample_connection k)"
  using written_out_start [of sample_connection "[]" k]
  by (auto simp: channel_inv_def new_channel_def sample_connection_def env_spares_def frame_size_ok_def frame_header_size_def)

lemma table_ok_Nil [simp]: "table_ok []"
  by (simp add: table_ok_def wr_shorter_def)

lemma sample_fits:
  "message_fits (BasicPublish (publish_method ''harborsync.exchange'' ''telemetry.processed'' False False sample_publishing))"
  by (simp add: message_fits_def publish_method_def sample_publishing_def properties_ok_def)

theorem publish_all_or_nothing_witness:
  "\<exists>r ch'. ch_publish ''harborsync.exchange'' ''telemetry.processed'' False False sample_publishing
      (new_channel sample_connection 1) = Some (Done r ch')
    \<and> sends_one (MBasic (content_norm (BasicPublish
        (publish_method ''harborsync.exchange'' ''telemetry.processed'' False False sample_publishing))))
      r (new_channel sample_connection 1) ch'"
  by (rule publish_all_or_nothing [OF sample_inv sample_fits])

text \<open>C16. What a publishing writes, on a connection that is open, that does not fail and that no one
  else uses: the call returns without an error and the bytes it adds to the output are
  exactly those of basic.publish with the exchange, the routing key and the flags, of a content
  header with every property and the size of the body, and of body frames that are together the
  body: none is empty, each one with its header and end octet is at most the negotiated frame
  size (if there is one), and all but the last have that size. The message read from them
  has every argument, property and the body as given, the time cut to whole seconds and the
  header table as the table codec carries it.\<close>
theorem publish_frames_written:
  assumes "channel_inv ch" "healthy (ch_connection ch)" "\<not> ch_closed ch" "ch_env ch = []"
    and "message_fits (BasicPublish (publish_method exchange key mandatory immediate msg))"
  shows "\<exists>ch' pieces bs. ch_publish exchange key mandatory immediate msg ch = Some (Done None ch')
    \<and> write_many frame_write (publish_wire_frames (ch_id ch) exchange key mandatory immediate msg pieces) = Inr bs
    \<and> co_out (ch_connection ch') = co_out (ch_connection ch) @ bs
    \<and> concat pieces = pb_Body msg
    \<and> list_all (\<lambda>x. x \<noteq> [] \<and> (co_FrameSize (ch_connection ch) \<le> 0
          \<or> frame_header_size + int (length x) \<le> co_FrameSize (ch_connection ch))) pieces
    \<and> list_all (\<lambda>x. frame_header_size + int (length x) = co_FrameSize (ch_connection ch)) (butlast pieces)
    \<and> channel_messages ch' = channel_messages ch @ [MBasic (BasicPublish
       \<lparr>basicPublish_reserved1 = 0, basicPublish_Exchange = exchange, basicPublish_RoutingKey = key,
        basicPublish_Mandatory = mandatory, basicPublish_Immediate = immediate,
        basicPublish_Properties = \<lparr>prop_ContentType = pb_ContentType msg, prop_ContentEncoding = pb_ContentEncoding msg,
           prop_Headers = norm_entries (pb_Headers msg), prop_DeliveryMode = pb_DeliveryMode msg,
           prop_Priority = pb_Priority msg, prop_CorrelationId = pb_CorrelationId msg,
           prop_ReplyTo = pb_ReplyTo msg, prop_Expiration = pb_Expiration msg,
           prop_MessageId = pb_MessageId msg,
           prop_Timestamp = (if pb_Timestamp msg = zero_time then zero_time else (fst (pb_Timestamp msg), 0)),
           prop_Type = pb_Type msg, prop_UserId = pb_UserId msg, prop_AppId = pb_AppId msg,
           prop_reserved1 = ''''\<rparr>,
        basicPublish_Body = pb_Body msg\<rparr>)]"
proof -
  let ?m = "BasicPublish (publish_method exchange key mandatory immediate msg)" and ?c = "ch_connection ch"
  let ?pieces = "chunks (nat (body_chunk ?c (pb_Body msg))) (pb_Body msg)"
  have size: "frame_size_ok (co_FrameSize ?c)"
    using assms(1) by (simp add: channel_inv_def)
  obtain bs where bs: "write_many frame_write (message_frames ch ?m) = Inr bs"
    using message_frames_written [OF assms(5) size] by blast
  have "\<not> dead ?c"
    using assms(2) by (simp add: healthy_def dead_def co_open_def)
  then have buf: "bw_buf (co_writer ?c) = []"
    using assms(1) by (auto simp: channel_inv_def written_out_def)
  have "\<exists>ch1. ch_send (MBasic ?m) (confirm_drawn ch) = Some (Done None ch1)
      \<and> co_out (ch_connection ch1) = co_out (ch_connection (confirm_drawn ch))
          @ bw_buf (co_writer (ch_connection (confirm_drawn ch))) @ bs"
    by (rule ch_send_healthy [OF publish_content]) (use size assms(2-4) bs in \<open>simp_all add: confirm_drawn_frames\<close>)
  then obtain ch1 where ch1: "ch_send (MBasic ?m) (confirm_drawn ch) = Some (Done None ch1)"
    "co_out (ch_connection ch1) = co_out ?c @ bs"
    using buf by auto
  have run: "ch_publish exchange key mandatory immediate msg ch = Some (Done None ch1)"
    unfolding publish_unfold [OF assms(5)] ch1(1) by simp
  have msgs: "channel_messages ch1 = channel_messages ch @ [MBasic (content_norm ?m)]"
    using ch_publish_one [OF assms(1,5)] run by (auto simp: sends_one_def)
  note pieces = body_pieces [OF size, of "pb_Body msg"]
  show ?thesis
  proof (intro exI conjI)
    show "ch_publish exchange key mandatory immediate msg ch = Some (Done None ch1)"
      by (rule run)
    show "write_many frame_write (publish_wire_frames (ch_id ch) exchange key mandatory immediate msg ?pieces) = Inr bs"
      using bs by (simp only: publish_frames_wire)
  qed (use ch1(2) pieces msgs in \<open>simp_all add: content_norm_def publish_method_def properties_norm_def
      is_zero_time_def\<close>)
qed

theorem publish_frames_written_witness:
  "\<exists>ch' pieces bs. ch_publish '''' ''q'' False False sample_publishing
      (new_channel (sample_connection\<lparr>co_FrameSize := 9\<rparr>) 1) = Some (Done None ch')
    \<and> write_many frame_write (publish_wire_frames 1 '''' ''q'' False False sample_publishing pieces) = Inr bs
    \<and> co_out (ch_connection ch') = protocol_header @ bs
    \<and> list_all (\<lambda>x. length x = 1) pieces \<and> concat pieces = [123, 125]"
proof -
  let ?ch = "new_channel (sample_connection\<lparr>co_FrameSize := 9\<rparr>) 1"
  let ?m = "BasicPublish (publish_method '''' ''q'' False False sample_publishing)"
  have inv: "channel_inv ?ch"
    using written_out_start [of "sample_connection\<lparr>co_FrameSize := 9\<rparr>" "[]" 1]
    by (auto simp: channel_inv_def new_channel_def sample_connection_def env_spares_def frame_size_ok_def frame_header_size_def)
  have fits: "message_fits ?m"
    by (simp add: message_fits_def publish_method_def sample_publishing_def properties_ok_def)
  have h: "healthy (ch_connection ?ch)" "\<not> ch_closed ?ch" "ch_env ?ch = []" "co_FrameSize (ch_connection ?ch) = 9"
    "ch_id ?ch = 1" "co_out (ch_connection ?ch) = protocol_header"
    by (simp_all add: new_channel_def sample_connection_def healthy_def)
  obtain ch' pieces bs where p: "ch_publish '''' ''q'' False False sample_publishing ?ch = Some (Done None ch')"
    "write_many frame_write (publish_wire_frames 1 '''' ''q'' False False sample_publishing pieces) = Inr bs"
    "co_out (ch_connection ch') = protocol_header @ bs" "concat pieces = pb_Body sample_publishing"
    "list_all (\<lambda>x. x \<noteq> [] \<and> ((9 :: int) \<le> 0 \<or> frame_header_size + int (length x) \<le> 9)) pieces"
    using publish_frames_written [OF inv h(1-3) fits] unfolding h(4-6) by blast
  have "list_all (\<lambda>x. length x = 1) pieces"
    using p(5) by (force simp: list_all_iff frame_header_size_def neq_Nil_conv)
  with p show ?thesis
    by (auto simp: sample_publishing_def)
qed

text \<open>C33. A frame size of eight or less, which a server may send in its tune and which
  \<open>openTune\<close> accepts, breaks publishing: at eight the loop over the body sends empty frames
  forever, below eight the slice expression panics.\<close>
theorem publish_small_frame_size:
  assumes "0 < co_FrameSize (ch_connection ch)" "co_FrameSize (ch_connection ch) \<le> frame_header_size"
    and "healthy (ch_connection ch)" "\<not> ch_closed ch" "ch_env ch = []" "pb_Body msg \<noteq> []"
    and "message_fits (BasicPublish (publish_method exchange key mandatory immediate msg))"
  shows "ch_publish exchange key mandatory immediate msg ch =
    (if co_FrameSize (ch_connection ch) = frame_header_size then None else Some Panic)"
proof -
  let ?m = "BasicPublish (publish_method exchange key mandatory immediate msg)"
  let ?n = "co_FrameSize (ch_connection ch) - frame_header_size"
  have "send_content_frames ?n (MBasic ?m) (fst (basic_id ?m))
      (basicPublish_Properties (publish_method exchange key mandatory immediate msg)) (pb_Body msg) (confirm_drawn ch)
      = (if ?n = 0 then None else Some Panic)"
    using assms by (intro send_content_small) auto
  then have "ch_send (MBasic ?m) (confirm_drawn ch) = (if ?n = 0 then None else Some Panic)"
    using assms(1,4,5)
    by (simp add: ch_send_def ch_send_open_def ch_is_closed_def content_of_def op_bind_def split del: if_split)
      (simp add: op_bind_def)
  then show ?thesis
    unfolding publish_unfold [OF assms(7)] by simp
qed

theorem publish_small_frame_size_witness:
  "ch_publish ''harborsync.exchange'' ''telemetry.processed'' False False sample_publishing
     (new_channel (sample_connection\<lparr>co_FrameSize := 8\<rparr>) 1) = None
   \<and> ch_publish ''harborsync.exchange'' ''telemetry.processed'' False False sample_publishing
     (new_channel (sample_connection\<lparr>co_FrameSize := 7\<rparr>) 1) = Some Panic"
  using publish_small_frame_size [OF _ _ _ _ _ _ sample_fits, of "new_channel (sample_connection\<lparr>co_FrameSize := 8\<rparr>) 1"]
    publish_small_frame_size [OF _ _ _ _ _ _ sample_fits, of "new_channel (sample_connection\<lparr>co_FrameSize := 7\<rparr>) 1"]
  by (simp add: new_channel_def sample_connection_def healthy_def frame_header_size_def sample_publishing_def)


text \<open>C23. In confirm mode a publishing that succeeds takes the next delivery tag and returns the
  deferred confirmation of that tag; one that fails gives the tag back, so the tags count
  the publishings that were sent without an error.\<close>
theorem publish_draws_tag:
  assumes "channel_inv ch" "ch_confirming ch" "cs_published (ch_confirms ch) < 2 ^ 64"
    and "message_fits (BasicPublish (publish_method exchange key mandatory immediate msg))"
  shows "\<exists>ch' r. publish_with_deferred_confirm exchange key mandatory immediate msg ch = Some (Done r ch')
    \<and> (case r of
         Inl e \<Rightarrow> cs_published (ch_confirms ch') = cs_published (ch_confirms ch)
       | Inr None \<Rightarrow> False
       | Inr (Some i) \<Rightarrow> cs_published (ch_confirms ch') = u64_succ (cs_published (ch_confirms ch))
           \<and> i < length (cs_objs (ch_confirms ch'))
           \<and> cs_objs (ch_confirms ch') ! i = \<lparr>dc_DeliveryTag = cs_published (ch_confirms ch'), dc_done = False, dc_ack = False\<rparr>)"
proof -
  let ?m = "BasicPublish (publish_method exchange key mandatory immediate msg)"
  let ?c = "snd (cs_publish (ch_confirms ch))"
  have drawn: "confirm_drawn ch = ch\<lparr>ch_confirms := ?c\<rparr>"
    using assms(2) by (simp add: confirm_drawn_def)
  have inv: "channel_inv (confirm_drawn ch)"
    using assms(1) by simp
  obtain r ch1 where s: "ch_send (MBasic ?m) (confirm_drawn ch) = Some (Done r ch1)"
    "ch_confirms ch1 = ?c" "ch_confirming ch1"
    using ch_send_one [OF inv assms(4)] drawn assms(2) by auto
  have valid: "validate_field (FTable (pb_Headers msg))"
    using fits_validates [OF assms(4) publish_content] by simp
  have run: "publish_with_deferred_confirm exchange key mandatory immediate msg ch =
      Some (case r of
          Some err \<Rightarrow> Done (Inl err) (ch1\<lparr>ch_confirms := cs_unpublish ?c\<rparr>)
        | None \<Rightarrow> Done (Inr (Some (length (cs_objs (ch_confirms ch))))) ch1)"
    using s assms(2) valid unfolding drawn
    by (simp add: publish_with_deferred_confirm_def op_bind_def op_return_def cs_publish_def dc_add_def Let_def
        split: option.split)
  have "cs_published (cs_unpublish ?c) = cs_published (ch_confirms ch)"
    using assms(3) by (simp add: cs_unpublish_def Let_def u64_pred_def u64_succ_def mod_simps)
  moreover have "length (cs_objs (ch_confirms ch)) < length (cs_objs ?c)"
    "cs_objs ?c ! length (cs_objs (ch_confirms ch)) = \<lparr>dc_DeliveryTag = cs_published ?c, dc_done = False, dc_ack = False\<rparr>"
    by (simp_all add: cs_publish_def dc_add_def Let_def)
  ultimately show ?thesis
    using s(2) by (cases r) (auto simp: run)
qed

theorem publish_draws_tag_witness:
  "\<exists>ch' r. publish_with_deferred_confirm ''harborsync.exchange'' ''telemetry.processed'' False False sample_publishing
      ((new_channel sample_connection 1)\<lparr>ch_confirming := True\<rparr>) = Some (Done r ch')
    \<and> (case r of
         Inl e \<Rightarrow> cs_published (ch_confirms ch') = 0
       | Inr None \<Rightarrow> False
       | Inr (Some i) \<Rightarrow> cs_published (ch_confirms ch') = 1 \<and> i < length (cs_objs (ch_confirms ch'))
           \<and> cs_objs (ch_confirms ch') ! i = \<lparr>dc_DeliveryTag = cs_published (ch_confirms ch'), dc_done = False, dc_ack = False\<rparr>)"
proof -
  let ?ch = "(new_channel sample_connection 1)\<lparr>ch_confirming := True\<rparr>"
  have 0: "cs_published (ch_confirms ?ch) = 0" "u64_succ 0 = 1"
    by (simp_all add: new_channel_def new_confirms_def u64_succ_def)
  have "channel_inv ?ch"
    using sample_inv [of 1] by (simp add: channel_inv_def)
  from publish_draws_tag [OF this _ _ sample_fits] show ?thesis
    unfolding 0 by simp
qed

end
