(* ===== verification/Requests.thy ===== *)
theory Requests
  imports Publisher
begin

text \<open>
  The operations of \<open>channel.go\<close> that are one request: exchanges, queues, transactions, flow,
  quality of service and acknowledgements. Each sends one method, all or nothing, and those
  that wait return what the server answers.
\<close>

section \<open>Operations\<close>

definition ch_open :: "goerr option operation" where
  "ch_open = ch_request (MChannel (ChannelOpen \<lparr>channelOpen_reserved1 = ''''\<rparr>)) channelOpenOk_id"

definition ch_qos :: "int \<Rightarrow> int \<Rightarrow> bool \<Rightarrow> goerr option operation" where
  "ch_qos prefetch_count prefetch_size global = ch_request
     (MBasic (BasicQos \<lparr>basicQos_PrefetchSize = word_of_int prefetch_size,
        basicQos_PrefetchCount = word_of_int prefetch_count, basicQos_Global = global\<rparr>)) basicQosOk_id"

definition ch_exchange_declare_req ::
  "gostring \<Rightarrow> gostring \<Rightarrow> bool \<Rightarrow> bool \<Rightarrow> bool \<Rightarrow> bool \<Rightarrow> bool \<Rightarrow> table \<Rightarrow> message" where
  "ch_exchange_declare_req name kind passive durable auto_delete internal no_wait args =
     MExchange (ExchangeDeclare \<lparr>exchangeDeclare_reserved1 = 0, exchangeDeclare_Exchange = name,
        exchangeDeclare_Type = kind, exchangeDeclare_Passive = passive, exchangeDeclare_Durable = durable,
        exchangeDeclare_AutoDelete = auto_delete, exchangeDeclare_Internal = internal,
        exchangeDeclare_NoWait = no_wait, exchangeDeclare_Arguments = args\<rparr>)"

definition ch_exchange_declare ::
  "gostring \<Rightarrow> gostring \<Rightarrow> bool \<Rightarrow> bool \<Rightarrow> bool \<Rightarrow> bool \<Rightarrow> table \<Rightarrow> goerr option operation" where
  "ch_exchange_declare name kind durable auto_delete internal no_wait args = validated args
     (ch_request (ch_exchange_declare_req name kind False durable auto_delete internal no_wait args)
        exchangeDeclareOk_id)"

definition ch_exchange_declare_passive ::
  "gostring \<Rightarrow> gostring \<Rightarrow> bool \<Rightarrow> bool \<Rightarrow> bool \<Rightarrow> bool \<Rightarrow> table \<Rightarrow> goerr option operation" where
  "ch_exchange_declare_passive name kind durable auto_delete internal no_wait args = validated args
     (ch_request (ch_exchange_declare_req name kind True durable auto_delete internal no_wait args)
        exchangeDeclareOk_id)"

definition ch_exchange_delete :: "gostring \<Rightarrow> bool \<Rightarrow> bool \<Rightarrow> goerr option operation" where
  "ch_exchange_delete name if_unused no_wait = ch_request
     (MExchange (ExchangeDelete \<lparr>exchangeDelete_reserved1 = 0, exchangeDelete_Exchange = name,
        exchangeDelete_IfUnused = if_unused, exchangeDelete_NoWait = no_wait\<rparr>)) exchangeDeleteOk_id"

definition ch_exchange_bind :: "gostring \<Rightarrow> gostring \<Rightarrow> gostring \<Rightarrow> bool \<Rightarrow> table \<Rightarrow> goerr option operation" where
  "ch_exchange_bind destination key source no_wait args = validated args (ch_request
     (MExchange (ExchangeBind \<lparr>exchangeBind_reserved1 = 0, exchangeBind_Destination = destination,
        exchangeBind_Source = source, exchangeBind_RoutingKey = key, exchangeBind_NoWait = no_wait,
        exchangeBind_Arguments = args\<rparr>)) exchangeBindOk_id)"

definition ch_exchange_unbind :: "gostring \<Rightarrow> gostring \<Rightarrow> gostring \<Rightarrow> bool \<Rightarrow> table \<Rightarrow> goerr option operation" where
  "ch_exchange_unbind destination key source no_wait args = validated args (ch_request
     (MExchange (ExchangeUnbind \<lparr>exchangeUnbind_reserved1 = 0, exchangeUnbind_Destination = destination,
        exchangeUnbind_Source = source, exchangeUnbind_RoutingKey = key, exchangeUnbind_NoWait = no_wait,
        exchangeUnbind_Arguments = args\<rparr>)) exchangeUnbindOk_id)"

text \<open>\<open>Queue\<close> of \<open>types.go\<close>.\<close>

record queue =
  qu_Name :: gostring
  qu_Messages :: int
  qu_Consumers :: int

definition zero_queue :: queue where
  "zero_queue = \<lparr>qu_Name = '''', qu_Messages = 0, qu_Consumers = 0\<rparr>"

definition queue_declare_req ::
  "gostring \<Rightarrow> bool \<Rightarrow> bool \<Rightarrow> bool \<Rightarrow> bool \<Rightarrow> bool \<Rightarrow> table \<Rightarrow> message" where
  "queue_declare_req name passive durable auto_delete exclusive no_wait args =
     MQueue (QueueDeclare \<lparr>queueDeclare_reserved1 = 0, queueDeclare_Queue = name, queueDeclare_Passive = passive,
        queueDeclare_Durable = durable, queueDeclare_Exclusive = exclusive, queueDeclare_AutoDelete = auto_delete,
        queueDeclare_NoWait = no_wait, queueDeclare_Arguments = args\<rparr>)"

definition queue_of :: "message \<Rightarrow> queue" where
  "queue_of res = (case res of
       MQueue (QueueDeclareOk ok) \<Rightarrow> \<lparr>qu_Name = queueDeclareOk_Queue ok,
         qu_Messages = uint (queueDeclareOk_MessageCount ok), qu_Consumers = uint (queueDeclareOk_ConsumerCount ok)\<rparr>
     | _ \<Rightarrow> zero_queue)"

definition declare_queue ::
  "bool \<Rightarrow> gostring \<Rightarrow> bool \<Rightarrow> bool \<Rightarrow> bool \<Rightarrow> bool \<Rightarrow> table \<Rightarrow> (queue \<times> goerr option) operation" where
  "declare_queue passive name durable auto_delete exclusive no_wait args =
     (if \<not> validate_field (FTable args) then op_return (zero_queue, Some EValidate)
      else op_bind (ch_call (queue_declare_req name passive durable auto_delete exclusive no_wait args) [queueDeclareOk_id])
        (\<lambda>r. op_return (case r of
             Inl err \<Rightarrow> (zero_queue, Some err)
           | Inr (Some res) \<Rightarrow> (queue_of res, None)
           | Inr None \<Rightarrow> (\<lparr>qu_Name = name, qu_Messages = 0, qu_Consumers = 0\<rparr>, None))))"

definition ch_queue_declare ::
  "gostring \<Rightarrow> bool \<Rightarrow> bool \<Rightarrow> bool \<Rightarrow> bool \<Rightarrow> table \<Rightarrow> (queue \<times> goerr option) operation" where
  "ch_queue_declare = declare_queue False"

definition ch_queue_declare_passive ::
  "gostring \<Rightarrow> bool \<Rightarrow> bool \<Rightarrow> bool \<Rightarrow> bool \<Rightarrow> table \<Rightarrow> (queue \<times> goerr option) operation" where
  "ch_queue_declare_passive = declare_queue True"

definition ch_queue_inspect :: "gostring \<Rightarrow> (queue \<times> goerr option) operation" where
  "ch_queue_inspect name =
     op_bind (ch_call (queue_declare_req name True False False False False []) [queueDeclareOk_id])
       (\<lambda>r. op_return (case r of
            Inr (Some res) \<Rightarrow> ((queue_of res)\<lparr>qu_Name := name\<rparr>, None)
          | r \<Rightarrow> (\<lparr>qu_Name = name, qu_Messages = 0, qu_Consumers = 0\<rparr>, call_error r)))"

definition ch_queue_bind :: "gostring \<Rightarrow> gostring \<Rightarrow> gostring \<Rightarrow> bool \<Rightarrow> table \<Rightarrow> goerr option operation" where
  "ch_queue_bind name key exchange no_wait args = validated args (ch_request
     (MQueue (QueueBind \<lparr>queueBind_reserved1 = 0, queueBind_Queue = name, queueBind_Exchange = exchange,
        queueBind_RoutingKey = key, queueBind_NoWait = no_wait, queueBind_Arguments = args\<rparr>)) queueBindOk_id)"

definition ch_queue_unbind :: "gostring \<Rightarrow> gostring \<Rightarrow> gostring \<Rightarrow> table \<Rightarrow> goerr option operation" where
  "ch_queue_unbind name key exchange args = validated args (ch_request
     (MQueue (QueueUnbind \<lparr>queueUnbind_reserved1 = 0, queueUnbind_Queue = name, queueUnbind_Exchange = exchange,
        queueUnbind_RoutingKey = key, queueUnbind_Arguments = args\<rparr>)) queueUnbindOk_id)"

definition ch_queue_purge :: "gostring \<Rightarrow> bool \<Rightarrow> (int \<times> goerr option) operation" where
  "ch_queue_purge name no_wait =
     op_bind (ch_call (MQueue (QueuePurge \<lparr>queuePurge_reserved1 = 0, queuePurge_Queue = name,
        queuePurge_NoWait = no_wait\<rparr>)) [queuePurgeOk_id])
       (\<lambda>r. op_return (case r of
            Inr (Some (MQueue (QueuePurgeOk ok))) \<Rightarrow> (uint (queuePurgeOk_MessageCount ok), None)
          | r \<Rightarrow> (0, call_error r)))"

definition ch_queue_delete :: "gostring \<Rightarrow> bool \<Rightarrow> bool \<Rightarrow> bool \<Rightarrow> (int \<times> goerr option) operation" where
  "ch_queue_delete name if_unused if_empty no_wait =
     op_bind (ch_call (MQueue (QueueDelete \<lparr>queueDelete_reserved1 = 0, queueDelete_Queue = name,
        queueDelete_IfUnused = if_unused, queueDelete_IfEmpty = if_empty, queueDelete_NoWait = no_wait\<rparr>))
        [queueDeleteOk_id])
       (\<lambda>r. op_return (case r of
            Inr (Some (MQueue (QueueDeleteOk ok))) \<Rightarrow> (uint (queueDeleteOk_MessageCount ok), None)
          | r \<Rightarrow> (0, call_error r)))"

definition ch_tx :: "goerr option operation" where
  "ch_tx = ch_request (MTx (TxSelect ())) txSelectOk_id"

definition ch_tx_commit :: "goerr option operation" where
  "ch_tx_commit = ch_request (MTx (TxCommit ())) txCommitOk_id"

definition ch_tx_rollback :: "goerr option operation" where
  "ch_tx_rollback = ch_request (MTx (TxRollback ())) txRollbackOk_id"

definition ch_flow :: "bool \<Rightarrow> goerr option operation" where
  "ch_flow active = ch_request (MChannel (ChannelFlow \<lparr>channelFlow_Active = active\<rparr>)) channelFlowOk_id"

definition ch_confirm :: "bool \<Rightarrow> goerr option operation" where
  "ch_confirm no_wait =
     op_bind (ch_request (MConfirm (ConfirmSelect \<lparr>confirmSelect_Nowait = no_wait\<rparr>)) confirmSelectOk_id)
       (\<lambda>r ch. op_return r (if r = None then ch\<lparr>ch_confirming := True\<rparr> else ch))"

definition ch_recover :: "bool \<Rightarrow> goerr option operation" where
  "ch_recover requeue = ch_request (MBasic (BasicRecover \<lparr>basicRecover_Requeue = requeue\<rparr>)) basicRecoverOk_id"

definition ch_ack :: "64 word \<Rightarrow> bool \<Rightarrow> goerr option operation" where
  "ch_ack tag multiple = ch_send (MBasic (BasicAck \<lparr>basicAck_DeliveryTag = tag, basicAck_Multiple = multiple\<rparr>))"

definition ch_nack :: "64 word \<Rightarrow> bool \<Rightarrow> bool \<Rightarrow> goerr option operation" where
  "ch_nack tag multiple requeue = ch_send (MBasic (BasicNack
     \<lparr>basicNack_DeliveryTag = tag, basicNack_Multiple = multiple, basicNack_Requeue = requeue\<rparr>))"

definition ch_reject :: "64 word \<Rightarrow> bool \<Rightarrow> goerr option operation" where
  "ch_reject tag requeue = ch_send (MBasic (BasicReject
     \<lparr>basicReject_DeliveryTag = tag, basicReject_Requeue = requeue\<rparr>))"

definition next_publish_seq_no :: "channel \<Rightarrow> nat" where
  "next_publish_seq_no ch = u64_succ (cs_published (ch_confirms ch))"


section \<open>One method, wholly or not at all\<close>

lemma method_brings:
  assumes "message_ok msg" "content_of msg = None"
  shows "brings k [method_of k msg] [message_norm msg]"
proof -
  have "\<exists>ra'. recv_method (frame_norm (method_of k msg)) ra = RecvNext ra' (Some (message_norm msg))" for ra
  proof (cases msg)
    case (MBasic m)
    then have "get_content (basic_norm m) = None"
      using assms(2) by (cases m) (auto simp: content_of_def)
    with MBasic show ?thesis
      by (simp add: method_of_def)
  qed (simp_all add: method_of_def)
  then have step: "\<exists>ra'. recv_frame (frame_norm (method_of k msg)) ra = RecvNext ra' (Some (message_norm msg))" for ra
    by (cases "ra_recv ra") (auto simp: recv_frame.simps method_of_def)
  have "\<exists>ra'. recv_all (map frame_norm [method_of k msg]) ra = Some (ra', [message_norm msg])" for ra
    using step [of ra] by (elim exE) (simp del: frame_norm.simps)
  moreover have "frames_of k [method_of k msg]"
    using assms(1) by (simp add: method_of_def)
  ultimately show ?thesis
    by (simp add: brings_def)
qed

lemma write_frame_flush_quiet:
  assumes "bw_err w \<noteq> None \<or> bw_buf w = []" "write_frame_flush f w = (r, w')"
  shows "bw_err w' \<noteq> None \<or> bw_buf w' = []"
proof -
  have flush: "bw_err (snd (bw_flush v)) \<noteq> None \<or> bw_buf (snd (bw_flush v)) = []" for v
    by (auto simp: bw_flush_def split: option.splits list.splits)
  have wr: "fst (bw_write p v) \<noteq> None \<Longrightarrow> bw_err (snd (bw_write p v)) \<noteq> None" for p v
    by (auto simp: bw_write_def split: option.splits list.splits)
  show ?thesis
    using assms flush wr unfolding write_frame_flush_def write_frame_no_flush_def
    by (auto split: sum.splits prod.splits option.splits) (metis fst_conv option.distinct(1) snd_conv)+
qed

lemma co_send_now_quiet: "quiet c \<Longrightarrow> quiet (snd (co_send_now f c))"
  using write_frame_flush_quiet [of "co_writer c" f "fst (write_frame_flush f (co_writer c))"
      "snd (write_frame_flush f (co_writer c))"]
  by (auto simp: co_send_now_def quiet_def)

lemma env_run_quiet: "quiet c \<Longrightarrow> quiet (env_run es c)"
  by (induction es c rule: env_run.induct) (simp_all add: co_send_now_quiet, simp add: quiet_def)

lemma co_send_quiet: "quiet c \<Longrightarrow> quiet (snd (co_send f c))"
proof -
  assume "quiet c"
  then have "quiet (co_sync c)"
    using env_run_quiet [of "c\<lparr>co_env := tl (co_env c)\<rparr>" "hd (co_env c)"]
    by (cases "co_env c") (simp_all add: co_sync_def, simp add: quiet_def)
  then show ?thesis
    unfolding co_send_def by (rule co_send_now_quiet)
qed

lemma method_step:
  assumes rec: "written_out k c ms" and env: "env_ok k c" and gs: "brings k [f] [m]" and s: "co_send f c = (r, c')"
  shows "writes_one k m r c c'"
proof -
  obtain fs where fs: "holds k c fs" "brings k fs ms" "bw_buf (co_writer c) = []"
    using rec unfolding written_out_def by blast
  have ms: "wire_messages k c = ms"
    by (rule written_out_messages(1) [OF rec])
  have f: "frame_ok f" "on_channel k [f] = [f]"
    using gs unfolding brings_def by simp_all
  have car: "carries k c' (fs @ [f]) \<and> env_ok k c' \<and> (r = None \<longleftrightarrow> co_open c')
      \<and> (co_open c' \<longrightarrow> co_open c \<and> bw_buf (co_writer c') = []) \<and> co_FrameSize c' = co_FrameSize c"
    using co_send_carries [OF holds_carries [OF fs(1)] env f(1) s] f(2) by simp
  show ?thesis
  proof (cases r)
    case None
    with car have "holds k c' (fs @ [f])" "bw_buf (co_writer c') = []" "co_open c"
      by (auto intro: carries_holds)
    then have "written_out k c' (ms @ [m])"
      unfolding written_out_def using brings_append [OF fs(2) gs] by blast
    with None car \<open>co_open c\<close> show ?thesis
      by (auto simp: writes_one_def ms dead_def)
  next
    case (Some e)
    with car have no: "\<not> co_open c'"
      by auto
    have "quiet c'"
      using co_send_quiet [of c f] fs(3) s by (simp add: quiet_def)
    with no have "dead c'"
      by (simp add: dead_def)
    moreover have "prefix (co_out c) (co_out c')"
      using co_grows(1) [of c f] s by simp
    then have "wire_messages k c' = ms \<or> wire_messages k c' = ms @ [m]"
      using car by (intro wire_messages_one_more [OF ms fs(2) gs _ _ fs(1,3)]) auto
    ultimately show ?thesis
      using Some car by (auto simp: writes_one_def ms)
  qed
qed


lemma method_step_dead:
  assumes "dead c" "env_ok k c" "brings k [f] [m]" "co_send f c = (r, c')"
  shows "writes_one k m r c c'"
proof -
  have f: "frame_ok f"
    using assms(3) by (simp add: brings_def)
  then obtain b where b: "frame_write f = Inr b"
    using frame_written by blast
  have sync: "dead (co_sync c)" "co_out (co_sync c) = co_out c" "env_ok k (co_sync c)"
    using co_sync_dead [OF assms(1,2)] env_ok_sync [OF assms(2)] by auto
  have "co_writer c' = co_writer (co_sync c)" "\<not> co_open c'" "r \<noteq> None"
    using not_open_send(1,2,5) [OF _ b, of "co_sync c"] sync(1) assms(4) by (simp_all add: co_send_def dead_def)
  moreover have "env_ok k c'"
    by (metis assms(4) co_send_def env_ok_send(1) snd_conv sync(3))
  moreover have "co_FrameSize c' = co_FrameSize c"
    by (metis assms(4) co_FrameSizes(1) snd_conv)
  ultimately show ?thesis
    using sync dead_writer [OF sync(1)] wire_messages_out [of c' c k] by (auto simp: writes_one_def)
qed

lemma ch_send_method_cases:
  assumes "content_of msg = None"
  shows "\<exists>ch'. same_channel ch ch' \<and>
    (ch_send msg ch = ch_send_closed msg ch' \<or> ch_send msg ch = on_connection (co_send (method_of (ch_id ch) msg)) ch')"
proof -
  obtain b ch1 where 1: "ch_is_closed ch = (b, ch1)"
    by fastforce
  obtain b' ch2 where 2: "ch_is_closed ch1 = (b', ch2)"
    by fastforce
  note same = ch_is_closed_same [OF 1] ch_is_closed_same [OF 2]
  have "ch_id ch2 = ch_id ch"
    using same by (simp add: same_channel_sel)
  then have "ch_send msg ch = ch_send_closed msg (if b then ch1 else ch2)
      \<or> ch_send msg ch = on_connection (co_send (method_of (ch_id ch) msg)) ch2"
    by (auto simp: ch_send_def ch_send_open_def 1 2 assms)
  then show ?thesis
    using same same_channel_trans [OF same] by metis
qed

lemma sends_one_connection:
  assumes "channel_inv ch" "same_channel ch ch'" "brings (ch_id ch) [f] [m]" "co_send f (ch_connection ch) = (r, c)"
  shows "sends_one m r ch (ch'\<lparr>ch_connection := c\<rparr>)"
proof -
  have env: "env_ok (ch_id ch) (ch_connection ch)"
    using assms(1) by (simp add: channel_inv_def)
  have "writes_one (ch_id ch) m r (ch_connection ch) c"
    using assms(1) method_step [OF _ env assms(3,4)] method_step_dead [OF _ env assms(3,4)]
    unfolding channel_inv_def by blast
  then show ?thesis
    using assms(1) same_channel_sel [OF assms(2)] written_out_messages
    by (auto simp: writes_one_def sends_one_def channel_inv_def channel_messages_def split: if_splits)
qed

text \<open>A method without content, sent on any channel.\<close>

lemma ch_send_method:
  assumes inv: "channel_inv ch" and ok: "message_ok msg" and none: "content_of msg = None"
  shows "\<exists>r ch'. ch_send msg ch = Some (Done r ch') \<and> sends_one (message_norm msg) r ch ch'
    \<and> ch_inbox ch' = ch_inbox ch \<and> ch_confirms ch' = ch_confirms ch \<and> ch_confirming ch' = ch_confirming ch"
proof -
  obtain ch' where ch': "same_channel ch ch'"
    "ch_send msg ch = ch_send_closed msg ch' \<or> ch_send msg ch = on_connection (co_send (method_of (ch_id ch) msg)) ch'"
    using ch_send_method_cases [OF none] by blast
  note sel = same_channel_sel [OF ch'(1)]
  obtain r c where s: "co_send (method_of (ch_id ch) msg) (ch_connection ch) = (r, c)"
    by fastforce
  have one: "on_connection (co_send (method_of (ch_id ch) msg)) ch' = Some (Done r (ch'\<lparr>ch_connection := c\<rparr>))"
    "sends_one (message_norm msg) r ch (ch'\<lparr>ch_connection := c\<rparr>)"
    using s sends_one_connection [OF inv ch'(1) method_brings [OF ok none] s] by (simp_all add: on_connection_def sel)
  have two: "sends_one (message_norm msg) (Some (EAmqp ErrClosed)) ch ch'"
    using inv by (simp add: sends_one_def channel_inv_def channel_messages_def sel)
  have "ch_send_closed msg ch' = Some (Done (Some (EAmqp ErrClosed)) ch')
      \<or> ch_send_closed msg ch' = on_connection (co_send (method_of (ch_id ch) msg)) ch'"
    by (auto simp: ch_send_closed_def op_return_def sel split: message.split channel_msg.split)
  with ch'(2) consider "ch_send msg ch = Some (Done (Some (EAmqp ErrClosed)) ch')"
    | "ch_send msg ch = on_connection (co_send (method_of (ch_id ch) msg)) ch'"
    by metis
  then show ?thesis
    by cases (use one two sel in auto)
qed

text \<open>
  A request that waits returns as soon as something arrives. It never returns without an
  error unless its method has been sent and the reply has an accepted type; with an error
  the method may have been sent.
\<close>

definition answered :: "message \<Rightarrow> response_type \<Rightarrow> (goerr + message option) \<Rightarrow> channel \<Rightarrow> channel \<Rightarrow> bool" where
  "answered req t r ch ch' \<longleftrightarrow> channel_inv ch' \<and> ch_id ch' = ch_id ch \<and> suffix (ch_inbox ch') (ch_inbox ch)
     \<and> (case r of
          Inr res \<Rightarrow> channel_messages ch' = channel_messages ch @ [message_norm req]
            \<and> (\<exists>reply. res = Some reply \<and> message_id reply = t \<and> ch_inbox ch = RpcMsg reply # ch_inbox ch')
        | Inl e \<Rightarrow> channel_messages ch' = channel_messages ch
            \<or> channel_messages ch' = channel_messages ch @ [message_norm req])"

lemma ch_call_answered:
  assumes "channel_inv ch" "message_ok req" "content_of req = None" "message_wait req" "ch_inbox ch \<noteq> []"
  shows "\<exists>r ch'. ch_call req [t] ch = Some (Done r ch') \<and> answered req t r ch ch'"
proof -
  obtain r ch1 where s: "ch_send req ch = Some (Done r ch1)" "sends_one (message_norm req) r ch ch1"
    "ch_inbox ch1 = ch_inbox ch"
    using ch_send_method [OF assms(1-3)] by blast
  show ?thesis
  proof (cases r)
    case (Some e)
    then show ?thesis
      using s by (simp add: ch_call_def op_bind_def op_return_def answered_def sends_one_def)
  next
    case None
    obtain ev evs where ev: "ch_inbox ch = ev # evs"
      using assms(5) by (cases "ch_inbox ch") auto
    then have "suffix evs (ch_inbox ch)"
      by (simp add: suffix_def)
    then show ?thesis
      using None s ev assms(4)
      by (cases ev) (auto simp: ch_call_def op_bind_def op_return_def answered_def sends_one_def
          channel_inv_def channel_messages_def)
  qed
qed

section \<open>Properties\<close>

text \<open>C17. Declaring a queue, when the server or a shutdown answers: without an error exactly one
  queue.declare has been written on the socket, with the name, the flags and the arguments in
  their places, its reply was a queue.declare-ok and the queue returned has the name and the
  counters of that reply; with an error the zero queue is returned.\<close>
theorem queue_declare_answered:
  assumes "channel_inv ch" "message_ok (queue_declare_req name False durable auto_delete exclusive False args)"
    and "ch_inbox ch \<noteq> []"
  shows "\<exists>q err ch'. ch_queue_declare name durable auto_delete exclusive False args ch = Some (Done (q, err) ch')
    \<and> channel_inv ch'
    \<and> (if err = None
       then channel_messages ch' = channel_messages ch
              @ [MQueue (QueueDeclare \<lparr>queueDeclare_reserved1 = 0, queueDeclare_Queue = name,
                   queueDeclare_Passive = False, queueDeclare_Durable = durable,
                   queueDeclare_Exclusive = exclusive, queueDeclare_AutoDelete = auto_delete,
                   queueDeclare_NoWait = False, queueDeclare_Arguments = norm_entries args\<rparr>)]
         \<and> (\<exists>ok. ch_inbox ch = RpcMsg (MQueue (QueueDeclareOk ok)) # ch_inbox ch'
              \<and> q = \<lparr>qu_Name = queueDeclareOk_Queue ok, qu_Messages = uint (queueDeclareOk_MessageCount ok),
                      qu_Consumers = uint (queueDeclareOk_ConsumerCount ok)\<rparr>)
       else q = zero_queue)"
proof -
  let ?req = "queue_declare_req name False durable auto_delete exclusive False args"
  have valid: "validate_field (FTable args)"
    using assms(2) table_written [of args] write_validates(3) [of args]
    by (auto simp: queue_declare_req_def write_table_def split: sum.splits)
  have req: "content_of ?req = None" "message_wait ?req"
    by (simp_all add: queue_declare_req_def content_of_def queueDeclare_wait_def)
  obtain r ch' where r: "ch_call ?req [queueDeclareOk_id] ch = Some (Done r ch')" "answered ?req queueDeclareOk_id r ch ch'"
    using ch_call_answered [OF assms(1,2) req assms(3)] by blast
  have id: "\<exists>ok. reply = MQueue (QueueDeclareOk ok)" if reply: "message_id reply = queueDeclareOk_id" for reply
  proof -
    have "fst (message_id reply) = 50"
      using reply by (simp add: queueDeclareOk_id_def)
    then obtain m where m: "reply = MQueue m"
      by (cases reply) (simp_all add: class_ids)
    show ?thesis
      using reply unfolding m by (cases m) (simp_all add: wire_defs)
  qed
  have run: "ch_queue_declare name durable auto_delete exclusive False args ch = Some (Done
      (case r of Inl err \<Rightarrow> (zero_queue, Some err) | Inr (Some res) \<Rightarrow> (queue_of res, None)
         | Inr None \<Rightarrow> (\<lparr>qu_Name = name, qu_Messages = 0, qu_Consumers = 0\<rparr>, None)) ch')"
    using r(1) valid by (simp add: ch_queue_declare_def declare_queue_def op_bind_def op_return_def)
  show ?thesis
  proof (cases r)
    case (Inl e)
    with run r(2) show ?thesis
      by (auto simp: answered_def)
  next
    case (Inr res)
    then obtain reply where reply: "res = Some reply" "message_id reply = queueDeclareOk_id"
      "ch_inbox ch = RpcMsg reply # ch_inbox ch'" "channel_messages ch' = channel_messages ch @ [message_norm ?req]"
      "channel_inv ch'"
      using r(2) by (auto simp: answered_def)
    obtain ok where "reply = MQueue (QueueDeclareOk ok)"
      using id [OF reply(2)] by blast
    with run Inr reply show ?thesis
      by (auto simp: queue_of_def queue_declare_req_def)
  qed
qed


definition sample_declare_ok :: queueDeclareOk where
  "sample_declare_ok = \<lparr>queueDeclareOk_Queue = ''dlq.errors'', queueDeclareOk_MessageCount = 3,
     queueDeclareOk_ConsumerCount = 0\<rparr>"

theorem queue_declare_answered_witness:
  "\<exists>q err ch'. ch_queue_declare ''dlq.errors'' True False False False []
      ((new_channel sample_connection 1)\<lparr>ch_inbox := [RpcMsg (MQueue (QueueDeclareOk sample_declare_ok))]\<rparr>)
      = Some (Done (q, err) ch') \<and> channel_inv ch'"
proof -
  let ?ch = "(new_channel sample_connection 1)\<lparr>ch_inbox := [RpcMsg (MQueue (QueueDeclareOk sample_declare_ok))]\<rparr>"
  have "channel_inv ?ch"
    using sample_inv [of 1] by (simp add: channel_inv_def)
  moreover have "message_ok (queue_declare_req ''dlq.errors'' False True False False False [])"
    by (simp add: queue_declare_req_def)
  ultimately show ?thesis
    using queue_declare_answered [of ?ch "''dlq.errors''" True False False "[]"] by auto
qed

end
