(* ===== verification/Service.thy ===== *)
theory Service
  imports Messaging Startup Requests "HOL-Library.Signed_Division"
begin

text \<open>
  The two implementations behind the server of \<open>main.go\<close>: \<open>RedisStateStore\<close> over the
  \<open>Set\<close> command of the Redis client and \<open>RabbitPublisher\<close> over a channel of the AMQP client,
  and what the whole service guarantees with them.
\<close>

section \<open>The state store\<close>

text \<open>\<open>Set\<close> with \<open>usePrecise\<close>, \<open>formatMs\<close> and \<open>formatSec\<close> of the Redis client; durations in nanoseconds.\<close>

datatype redis_arg = RStr gostring | RBytes "byte list" | RInt int

definition use_precise :: "int \<Rightarrow> bool" where
  "use_precise dur \<longleftrightarrow> dur < 1000000000 \<or> dur smod 1000000000 \<noteq> 0"

definition format_ms :: "int \<Rightarrow> int" where
  "format_ms dur = (if dur > 0 \<and> dur < 1000000 then 1 else dur sdiv 1000000)"

definition format_sec :: "int \<Rightarrow> int" where
  "format_sec dur = (if dur > 0 \<and> dur < 1000000000 then 1 else dur sdiv 1000000000)"

definition keep_ttl :: int where
  "keep_ttl = - 1"

definition redis_set :: "gostring \<Rightarrow> redis_arg \<Rightarrow> int \<Rightarrow> redis_arg list" where
  "redis_set key val expiration =
     [RStr ''set'', RStr key, val] @
     (if expiration > 0 then
        (if use_precise expiration then [RStr ''px'', RInt (format_ms expiration)]
         else [RStr ''ex'', RInt (format_sec expiration)])
      else if expiration = keep_ttl then [RStr ''keepttl'']
      else [])"

text \<open>
  \<open>marshal\<close> is the text \<open>encoding/json\<close> prints for a value, \<open>process\<close> the execution of a
  command by the Redis client and server.
\<close>

definition redis_store :: "(json \<Rightarrow> byte list) \<Rightarrow> (redis_arg list \<Rightarrow> 's \<Rightarrow> goerror option \<times> 's) \<Rightarrow> 64 word
    \<Rightarrow> raw_telemetry_payload \<Rightarrow> 's \<Rightarrow> goerror option \<times> 's" where
  "redis_store marshal process ttl payload w =
     (let raw = marshal (payload_json payload)
      in process (redis_set (''drone:'' @ pl_droneID payload) (RBytes raw) (sint ttl)) w)"

section \<open>The publisher\<close>

definition event_publishing :: "gotime \<Rightarrow> byte list \<Rightarrow> processed_telemetry_event \<Rightarrow> publishing" where
  "event_publishing now body event =
     \<lparr>pb_Headers = [], pb_ContentType = ''application/json'', pb_ContentEncoding = '''', pb_DeliveryMode = 2,
      pb_Priority = 0, pb_CorrelationId = ev_correlationID event, pb_ReplyTo = '''', pb_Expiration = '''',
      pb_MessageId = '''', pb_Timestamp = now, pb_Type = '''', pb_UserId = '''', pb_AppId = '''', pb_Body = body\<rparr>"

text \<open>\<open>Publish\<close> of \<open>RabbitPublisher\<close>; \<open>now\<close> is \<open>time.Now().UTC()\<close>.\<close>

definition rabbit_publish :: "(json \<Rightarrow> byte list) \<Rightarrow> rabbit_publisher \<Rightarrow> gotime \<Rightarrow> processed_telemetry_event
    \<Rightarrow> (gostring + goerr) option operation" where
  "rabbit_publish marshal p now event =
     (case event_json event of
        None \<Rightarrow> op_return (Some (Inl ''json: unsupported value''))
      | Some j \<Rightarrow> op_bind (ch_publish (rp_exchange p) (rp_routingKey p) False False
            (event_publishing now (marshal j) event))
          (\<lambda>r. op_return (case r of None \<Rightarrow> None | Some e \<Rightarrow> Some (Inr e))))"

section \<open>The world of the service\<close>

text \<open>
  The channel of the publisher, the commands Redis has received with the results it will
  give (\<open>None\<close> when they are used up), and the clock. \<open>sw_stuck\<close> records a publishing that
  panicked or never returned, after which nothing is said; it is proved not to happen.
\<close>

record service_world =
  sw_channel :: channel
  sw_redis :: "redis_arg list list"
  sw_redis_results :: "goerror option list"
  sw_clock :: "gotime list"
  sw_stuck :: bool

definition redis_process :: "redis_arg list \<Rightarrow> service_world \<Rightarrow> goerror option \<times> service_world" where
  "redis_process cmd w =
     (case sw_redis_results w of
        [] \<Rightarrow> (None, w\<lparr>sw_redis := sw_redis w @ [cmd]\<rparr>)
      | r # rs \<Rightarrow> (r, w\<lparr>sw_redis := sw_redis w @ [cmd], sw_redis_results := rs\<rparr>))"

definition read_clock :: "service_world \<Rightarrow> gotime \<times> service_world" where
  "read_clock w = (case sw_clock w of [] \<Rightarrow> (zero_time, w) | t # ts \<Rightarrow> (t, w\<lparr>sw_clock := ts\<rparr>))"

definition error_message :: "gostring + goerr \<Rightarrow> goerror" where
  "error_message e = (case e of Inl s \<Rightarrow> s | Inr (EAmqp a) \<Rightarrow> error_text a | Inr (EText s) \<Rightarrow> s
     | Inr EValidate \<Rightarrow> ''invalid table'')"

definition service_publish :: "(json \<Rightarrow> byte list) \<Rightarrow> rabbit_publisher \<Rightarrow> processed_telemetry_event
    \<Rightarrow> service_world \<Rightarrow> goerror option \<times> service_world" where
  "service_publish marshal p event w =
     (let (now, w1) = read_clock w
      in case rabbit_publish marshal p now event (sw_channel w1) of
           Some (Done r ch) \<Rightarrow> (map_option error_message r, w1\<lparr>sw_channel := ch\<rparr>)
         | _ \<Rightarrow> (Some ''stuck'', w1\<lparr>sw_stuck := True\<rparr>))"

definition telemetry_service :: "(json \<Rightarrow> byte list) \<Rightarrow> 64 word \<Rightarrow> rabbit_publisher \<Rightarrow> service_world server" where
  "telemetry_service marshal ttl p =
     \<lparr>sv_store = redis_store marshal redis_process ttl, sv_publish = service_publish marshal p\<rparr>"

section \<open>What the service has written\<close>

text \<open>Of a published message: exchange, routing key, delivery mode, correlation identifier and body.\<close>

type_synonym published = "gostring \<times> gostring \<times> nat \<times> gostring \<times> byte list"

definition published_of :: "message \<Rightarrow> published option" where
  "published_of m = (case m of
       MBasic (BasicPublish p) \<Rightarrow> Some (basicPublish_Exchange p, basicPublish_RoutingKey p,
         unat (prop_DeliveryMode (basicPublish_Properties p)), prop_CorrelationId (basicPublish_Properties p),
         basicPublish_Body p)
     | _ \<Rightarrow> None)"

definition world_written :: "service_world \<Rightarrow> published list" where
  "world_written w = List.map_filter published_of (channel_messages (sw_channel w))"

definition event_message :: "(json \<Rightarrow> byte list) \<Rightarrow> rabbit_publisher \<Rightarrow> processed_telemetry_event \<Rightarrow> published" where
  "event_message marshal p event =
     (rp_exchange p, rp_routingKey p, 2, ev_correlationID event, marshal (the (event_json event)))"

definition world_inv :: "service_world \<Rightarrow> bool" where
  "world_inv w \<longleftrightarrow> channel_inv (sw_channel w) \<and> \<not> sw_stuck w"

text \<open>The AMQP connection is closed or broken, with nothing under way.\<close>

definition world_dead :: "service_world \<Rightarrow> bool" where
  "world_dead w \<longleftrightarrow> dead (ch_connection (sw_channel w))"

text \<open>An event the publisher can carry: its names fit a short string, its text a frame.\<close>

definition event_fits :: "(json \<Rightarrow> byte list) \<Rightarrow> rabbit_publisher \<Rightarrow> processed_telemetry_event \<Rightarrow> bool" where
  "event_fits marshal p event \<longleftrightarrow> length (rp_exchange p) < 256 \<and> length (rp_routingKey p) < 256
     \<and> length (ev_correlationID event) < 256
     \<and> (\<exists>j. event_json event = Some j \<and> length (marshal j) < 2 ^ 32)"

lemma event_message_fits:
  assumes "event_fits marshal p event" "event_json event = Some j"
  shows "message_fits (BasicPublish (publish_method (rp_exchange p) (rp_routingKey p) False False
    (event_publishing now (marshal j) event)))"
  using assms by (simp add: event_fits_def message_fits_def publish_method_def event_publishing_def properties_ok_def)

lemma published_of_event:
  assumes "event_json event = Some j"
  shows "published_of (MBasic (content_norm (BasicPublish (publish_method (rp_exchange p) (rp_routingKey p) False False
    (event_publishing now (marshal j) event))))) = Some (event_message marshal p event)"
  using assms by (simp add: content_norm_def publish_method_def event_publishing_def properties_norm_def
      published_of_def event_message_def)

lemma service_publish_sends:
  assumes "world_inv w" "event_fits marshal p event"
  shows "world_inv (snd (service_publish marshal p event w))
    \<and> (world_dead w \<longrightarrow> fst (service_publish marshal p event w) \<noteq> None
         \<and> world_dead (snd (service_publish marshal p event w)))
    \<and> (if fst (service_publish marshal p event w) = None
       then world_written (snd (service_publish marshal p event w)) = world_written w @ [event_message marshal p event]
       else world_written (snd (service_publish marshal p event w)) = world_written w
         \<or> world_written (snd (service_publish marshal p event w)) = world_written w @ [event_message marshal p event])"
proof -
  obtain j where j: "event_json event = Some j"
    using assms(2) unfolding event_fits_def by blast
  obtain now w1 where clock: "read_clock w = (now, w1)" "sw_channel w1 = sw_channel w" "sw_stuck w1 = sw_stuck w"
    unfolding read_clock_def by (cases "sw_clock w") auto
  let ?m = "BasicPublish (publish_method (rp_exchange p) (rp_routingKey p) False False (event_publishing now (marshal j) event))"
  have inv: "channel_inv (sw_channel w)"
    using assms(1) by (simp add: world_inv_def)
  have fits: "message_fits ?m"
    by (rule event_message_fits [OF assms(2) j])
  obtain r ch' where r: "ch_publish (rp_exchange p) (rp_routingKey p) False False
      (event_publishing now (marshal j) event) (sw_channel w) = Some (Done r ch')"
    "sends_one (MBasic (content_norm ?m)) r (sw_channel w) ch'"
    using ch_publish_one [OF inv fits] by blast
  have run: "service_publish marshal p event w = (map_option error_message (map_option Inr r), w1\<lparr>sw_channel := ch'\<rparr>)"
    using r(1) clock j
    by (cases r) (simp_all add: service_publish_def rabbit_publish_def op_bind_def op_return_def)
  show ?thesis
    unfolding run using r(2) clock assms(1) published_of_event [OF j, of p now marshal]
    by (auto simp: sends_one_def world_inv_def world_dead_def world_written_def List.map_filter_def event_message_def
        split: if_splits)
qed

lemma service_store_keeps:
  "world_inv w \<Longrightarrow> world_inv (snd (redis_store marshal redis_process ttl payload w))
     \<and> world_written (snd (redis_store marshal redis_process ttl payload w)) = world_written w"
  "world_dead (snd (redis_store marshal redis_process ttl payload w)) = world_dead w"
  by (auto simp: redis_store_def redis_process_def world_inv_def world_dead_def world_written_def Let_def split: list.split)

text \<open>The service provides the interface the request path was proved over.\<close>

interpretation tele: messaging "telemetry_service marshal ttl p" world_inv world_written
    "event_message marshal p" "event_fits marshal p" for marshal ttl p
proof
  fix w payload
  assume "world_inv w"
  then show "world_inv (snd (sv_store (telemetry_service marshal ttl p) payload w))
      \<and> world_written (snd (sv_store (telemetry_service marshal ttl p) payload w)) = world_written w"
    using service_store_keeps(1) by (simp add: telemetry_service_def)
next
  fix w event
  assume "world_inv w" "event_fits marshal p event"
  note s = service_publish_sends [OF this]
  then show "world_inv (snd (sv_publish (telemetry_service marshal ttl p) event w))"
    by (simp add: telemetry_service_def)
  show "world_written (snd (sv_publish (telemetry_service marshal ttl p) event w)) = world_written w @ [event_message marshal p event]"
    if "fst (sv_publish (telemetry_service marshal ttl p) event w) = None"
    using s that by (simp add: telemetry_service_def)
  show "world_written (snd (sv_publish (telemetry_service marshal ttl p) event w)) = world_written w
      \<or> world_written (snd (sv_publish (telemetry_service marshal ttl p) event w)) = world_written w @ [event_message marshal p event]"
    if "fst (sv_publish (telemetry_service marshal ttl p) event w) \<noteq> None"
    using s that by (simp add: telemetry_service_def)
qed


section \<open>Properties\<close>

text \<open>C1. Every event the service answers with 202 has been written on the socket of the AMQP
  connection as one whole message, in the order of the requests, and nothing is written
  that a valid request did not ask for, in that order and at most once: over any requests,
  whatever the network and Redis do, and with other goroutines using the connection for
  other channels at the same time. A 202 does not say that the broker has the event: the
  service does not use publisher confirms, and the operating system may lose bytes that
  were written.\<close>
theorem accepted_events_are_written:
  assumes "world_inv w" "list_all (event_fits marshal p) (asked rs)"
    and "serve (telemetry_service marshal ttl p) rs w = (resps, w')"
  shows "world_inv w' \<and> (\<exists>new. world_written w' = world_written w @ new
    \<and> subseq (map (event_message marshal p) (accepted rs resps)) new
    \<and> subseq new (map (event_message marshal p) (asked rs)))"
  by (rule tele.serve_sends [OF assms])

definition sample_world :: service_world where
  "sample_world = \<lparr>sw_channel = new_channel sample_connection 1, sw_redis = [],
     sw_redis_results = [Some ''redis unavailable''], sw_clock = [(1736951280, 5)], sw_stuck = False\<rparr>"

definition sample_publisher :: rabbit_publisher where
  "sample_publisher = \<lparr>rp_exchange = ''harborsync.exchange'', rp_routingKey = ''telemetry.processed''\<rparr>"

lemma sample_world_inv: "world_inv sample_world"
  using sample_inv by (simp add: world_inv_def sample_world_def)

lemma sample_asked: "asked [(sample_request, now)] = [processed_event (request_correlation_id sample_request now) sample_payload]"
  by (simp add: request_event_def sample_decodes sample_valid) (simp add: sample_request_def)

lemma sample_correlation_id: "request_correlation_id sample_request now = ''CID-1''"
proof -
  have "trim_space ''CID-1'' = ''CID-1''" "canonical_key correlationHeader = ''X-Correlation-Id''"
    by code_simp+
  then show ?thesis
    by (simp add: request_correlation_id_def header_get_def sample_request_def Let_def)
qed

lemma sample_event_fits:
  "list_all (event_fits (\<lambda>_. [123, 125]) sample_publisher) (asked [(sample_request, now)])"
proof -
  obtain j where "event_json (processed_event ''CID-1'' sample_payload) = Some j"
    using event_json_valid [OF sample_valid] by blast
  then show ?thesis
    unfolding sample_asked sample_correlation_id by (simp add: event_fits_def sample_publisher_def)
qed

theorem accepted_events_are_written_witness:
  "\<exists>resps w' new. serve (telemetry_service (\<lambda>_. [123, 125]) (word_of_int 30000000000) sample_publisher)
      [(sample_request, 0)] sample_world = (resps, w')
    \<and> world_written w' = world_written sample_world @ new
    \<and> subseq (map (event_message (\<lambda>_. [123, 125]) sample_publisher) (accepted [(sample_request, 0)] resps)) new
    \<and> subseq new [(''harborsync.exchange'', ''telemetry.processed'', 2, ''CID-1'', [123, 125])]"
proof -
  obtain resps w' where s: "serve (telemetry_service (\<lambda>_. [123, 125]) (word_of_int 30000000000) sample_publisher)
      [(sample_request, 0)] sample_world = (resps, w')"
    by fastforce
  have "map (event_message (\<lambda>_. [123, 125]) sample_publisher) (asked [(sample_request, 0)])
      = [(''harborsync.exchange'', ''telemetry.processed'', 2, ''CID-1'', [123, 125])]"
    by (simp only: sample_asked sample_correlation_id) (simp add: event_message_def sample_publisher_def)
  with accepted_events_are_written [OF sample_world_inv sample_event_fits s] s show ?thesis
    by auto
qed


lemma route_dead:
  assumes "world_inv w" "world_dead w" "\<And>e. request_event (r, now) = Some e \<Longrightarrow> event_fits marshal p e"
  shows "world_dead (snd (route (telemetry_service marshal ttl p) r now w))
    \<and> (request_event (r, now) \<noteq> None \<longrightarrow> resp_status (fst (route (telemetry_service marshal ttl p) r now w)) = 502)"
proof (cases "request_event (r, now)")
  case None
  with assms(2) show ?thesis
    by (simp add: route_no_event)
next
  case (Some e)
  let ?s = "telemetry_service marshal ttl p"
  obtain q where q: "snd (route ?s r now w) = snd (sv_publish ?s e (snd (sv_store ?s q w)))"
    "resp_status (fst (route ?s r now w)) = (if fst (sv_publish ?s e (snd (sv_store ?s q w))) = None then 202 else 502)"
    using route_event [OF Some] by metis
  let ?w = "snd (redis_store marshal redis_process ttl q w)"
  have w: "world_inv ?w" "world_dead ?w"
    using service_store_keeps(1) [OF assms(1)] service_store_keeps(2) assms(2) by auto
  from service_publish_sends [OF w(1) assms(3) [OF Some]] w(2) q show ?thesis
    by (auto simp: telemetry_service_def)
qed

text \<open>C10. A broken connection is final: once the AMQP connection is closed or its writer has failed,
  every valid ingest request is answered 502, for ever (the service never reconnects), while
  the health route goes on answering 200 with status UP.\<close>
theorem broken_connection_is_final:
  assumes "world_inv w" "world_dead w" "list_all (event_fits marshal p) (asked rs)"
    and "serve (telemetry_service marshal ttl p) rs w = (resps, w')"
  shows "world_dead w'
    \<and> list_all (\<lambda>(x, resp). request_event x \<noteq> None \<longrightarrow> resp_status resp = 502) (zip rs resps)
    \<and> list_all (\<lambda>(x, resp). req_path (fst x) = ''/health'' \<and> req_method (fst x) = ''GET'' \<longrightarrow> resp = handle_health)
        (zip rs resps)"
  using assms
proof (induction rs arbitrary: w resps)
  case Nil
  then show ?case
    by simp
next
  case (Cons x rs)
  let ?s = "telemetry_service marshal ttl p"
  obtain r now where x: "x = (r, now)"
    by fastforce
  obtain resp w1 where 1: "route ?s r now w = (resp, w1)"
    by fastforce
  obtain resps' where 2: "serve ?s rs w1 = (resps', w')" "resps = resp # resps'"
    using Cons.prems(4) x 1 by (auto split: prod.splits)
  have fit: "\<And>e. request_event (r, now) = Some e \<Longrightarrow> event_fits marshal p e"
    and fits: "list_all (event_fits marshal p) (asked rs)"
    using Cons.prems(3) x by (auto split: option.splits)
  have "world_inv w1"
    using tele.route_sends [where r = r and now = now, OF Cons.prems(1)] fit 1 by (metis snd_conv)
  moreover have "world_dead w1 \<and> (request_event (r, now) \<noteq> None \<longrightarrow> resp_status resp = 502)"
    using route_dead [OF Cons.prems(1,2) fit] 1 by (metis fst_conv snd_conv)
  moreover have "req_path r = ''/health'' \<and> req_method r = ''GET'' \<longrightarrow> resp = handle_health"
    using 1 by (auto simp: route_def)
  ultimately show ?case
    using Cons.IH [OF _ _ fits 2(1)] 2(2) x by auto
qed

definition broken_world :: service_world where
  "broken_world = sample_world\<lparr>sw_channel := new_channel (sample_connection\<lparr>co_closed := True\<rparr>) 1\<rparr>"

theorem broken_connection_is_final_witness:
  "\<exists>resps w'. serve (telemetry_service (\<lambda>_. [123, 125]) (word_of_int 30000000000) sample_publisher)
      [(sample_request, 0)] broken_world = (resps, w') \<and> world_dead w'"
proof -
  obtain resps w' where s: "serve (telemetry_service (\<lambda>_. [123, 125]) (word_of_int 30000000000) sample_publisher)
      [(sample_request, 0)] broken_world = (resps, w')"
    by fastforce
  have "dead (sample_connection\<lparr>co_closed := True\<rparr>)"
    by (simp add: dead_def quiet_def co_open_def sample_connection_def)
  moreover have "env_ok 1 (sample_connection\<lparr>co_closed := True\<rparr>)" "frame_size_ok (co_FrameSize sample_connection)"
    by (simp_all add: env_spares_def sample_connection_def frame_size_ok_def frame_header_size_def)
  ultimately have "world_inv broken_world" "world_dead broken_world"
    by (simp_all add: world_inv_def world_dead_def broken_world_def sample_world_def new_channel_def channel_inv_def)
  from broken_connection_is_final [OF this sample_event_fits s] s show ?thesis
    by blast
qed

lemma sdiv_pos: "0 \<le> a \<Longrightarrow> 0 < b \<Longrightarrow> a sdiv b = a div b" "0 \<le> a \<Longrightarrow> 0 < b \<Longrightarrow> a smod b = a mod b" for a b :: int
  by (cases "a = 0"; simp add: signed_divide_int_def signed_modulo_int_def)+

lemma ttl_seconds:
  assumes "\<bar>n\<bar> \<le> 9223372036"
  shows "sint (word_of_int n * time_second) = n * 1000000000"
proof -
  have "word_of_int n * time_second = word_of_int (n * 1000000000)"
    by (simp add: time_second_def)
  moreover have "signed_take_bit 63 (n * 1000000000) = n * 1000000000"
    using assms by (intro signed_take_bit_int_eq_self) simp_all
  ultimately show ?thesis
    by (simp only: sint_sbintrunc') simp
qed

lemma redis_set_seconds:
  "redis_set key v (n * 1000000000) = [RStr ''set'', RStr key, v] @ (if 1 \<le> n then [RStr ''ex'', RInt n] else [])"
proof (cases "1 \<le> n")
  case True
  then have "\<not> use_precise (n * 1000000000)" "format_sec (n * 1000000000) = n" "0 < n * 1000000000"
    by (simp_all add: use_precise_def format_sec_def sdiv_pos)
  with True show ?thesis
    by (simp only: redis_set_def if_True if_False simp_thms)
next
  case False
  then have "n = 0 \<or> n * 1000000000 \<le> - 1000000000"
    by linarith
  then have "\<not> 0 < n * 1000000000" "n * 1000000000 \<noteq> keep_ttl"
    unfolding keep_ttl_def by linarith+
  with False show ?thesis
    by (simp only: redis_set_def if_False)
qed

text \<open>C11. Storing a drone's state is one SET of the key \<open>drone:\<close> with its identifier to the JSON of
  the payload. For a lifetime of 1 to 9223372036 seconds in the environment the key expires
  after that many seconds; for zero and negative ones it never expires.\<close>
theorem state_store_command:
  assumes "atoi (trim_space (getenv ''DRONE_STATE_TTL_SECONDS'')) = Some n" "\<bar>n\<bar> \<le> 9223372036"
  shows "redis_store marshal process (cfg_DroneStateTTL (load_config getenv)) payload w =
    process ([RStr ''set'', RStr (''drone:'' @ pl_droneID payload), RBytes (marshal (payload_json payload))]
      @ (if 1 \<le> n then [RStr ''ex'', RInt n] else [])) w"
proof -
  have "trim_space (getenv ''DRONE_STATE_TTL_SECONDS'') \<noteq> ''''"
    using assms(1) by (auto simp: atoi_def Let_def)
  then have "sint (cfg_DroneStateTTL (load_config getenv)) = n * 1000000000"
    using ttl_seconds [OF assms(2)] assms(1) by (simp add: load_config_def env_int_def Let_def)
  then have "redis_store marshal process (cfg_DroneStateTTL (load_config getenv)) payload w =
      process (redis_set (''drone:'' @ pl_droneID payload) (RBytes (marshal (payload_json payload))) (n * 1000000000)) w"
    by (simp only: redis_store_def Let_def)
  then show ?thesis
    by (simp only: redis_set_seconds append.simps)
qed

theorem state_store_command_witness:
  "redis_store (\<lambda>_. []) redis_process
     (cfg_DroneStateTTL (load_config (\<lambda>k. if k = ''DRONE_STATE_TTL_SECONDS'' then ''-5'' else ''''))) sample_payload sample_world
   = redis_process [RStr ''set'', RStr ''drone:HD-07'', RBytes []] sample_world"
proof -
  have "trim_space ''-5'' = ''-5''" "atoi ''-5'' = Some (- 5)"
    by code_simp+
  then show ?thesis
    using state_store_command [of "\<lambda>k. if k = ''DRONE_STATE_TTL_SECONDS'' then ''-5'' else ''''" "- 5" "\<lambda>_. []"
        redis_process sample_payload sample_world] by (simp add: sample_payload_def)
qed

end
