(* ===== verification/Allocator.thy ===== *)
theory Allocator
  imports GoPrelude
begin

text \<open>
  \<open>allocator.go\<close>: the bit set from which a connection takes channel identifiers, with its
  rolling search; and \<open>id_pool\<close>, the contract the connection relies on.
\<close>

section \<open>The allocator\<close>

text \<open>\<open>pool\<close> is a \<open>big.Int\<close> used as a bit set: bit \<open>n - low\<close> is set for a reserved \<open>n\<close>.\<close>

record allocator =
  al_pool :: int
  al_follow :: int
  al_low :: int
  al_high :: int

definition new_allocator :: "int \<Rightarrow> int \<Rightarrow> allocator" where
  "new_allocator low high = \<lparr>al_pool = 0, al_follow = low, al_low = low, al_high = high\<rparr>"

definition al_reserved :: "int \<Rightarrow> allocator \<Rightarrow> bool" where
  "al_reserved n a \<longleftrightarrow> bit (al_pool a) (nat (n - al_low a))"

definition al_reserve :: "int \<Rightarrow> allocator \<Rightarrow> bool \<times> allocator" where
  "al_reserve n a =
     (if al_reserved n a then (False, a)
      else (True, a\<lparr>al_pool := set_bit (nat (n - al_low a)) (al_pool a)\<rparr>))"

definition al_release :: "int \<Rightarrow> allocator \<Rightarrow> allocator" where
  "al_release n a = a\<lparr>al_pool := unset_bit (nat (n - al_low a)) (al_pool a)\<rparr>"

text \<open>Both search loops of \<open>next\<close>: try \<open>follow\<close> and move on, up to and including \<open>stop\<close>.\<close>

function al_scan :: "int \<Rightarrow> allocator \<Rightarrow> int option \<times> allocator" where
  "al_scan stop a =
     (if al_follow a \<le> stop
      then (case al_reserve (al_follow a) a of
              (True, a') \<Rightarrow> (Some (al_follow a), a')
            | (False, a') \<Rightarrow> al_scan stop (a\<lparr>al_follow := al_follow a + 1\<rparr>))
      else (None, a))"
  by pat_completeness auto
termination
  by (relation "measure (\<lambda>(stop, a). nat (stop + 1 - al_follow a))") auto

declare al_scan.simps [simp del]

text \<open>The deferred function of \<open>next\<close>: \<open>follow\<close> moves to the next value, cyclically.\<close>

definition al_advance :: "allocator \<Rightarrow> allocator" where
  "al_advance a =
     (if al_follow a = al_high a then a\<lparr>al_follow := al_low a\<rparr>
      else a\<lparr>al_follow := al_follow a + 1\<rparr>)"

definition al_next :: "allocator \<Rightarrow> int option \<times> allocator" where
  "al_next a =
     (let wrapped = al_follow a in
      case al_scan (al_high a) a of
        (Some n, a1) \<Rightarrow> (Some n, al_advance a1)
      | (None, a1) \<Rightarrow>
          (case al_scan (wrapped - 1) (a1\<lparr>al_follow := al_low a1\<rparr>) of
             (Some n, a2) \<Rightarrow> (Some n, al_advance a2)
           | (None, a2) \<Rightarrow> (None, al_advance a2)))"

text \<open>\<open>String\<close>: the reserved runs, as \<open>low..high\<close> or a single number.\<close>

function al_run_end :: "allocator \<Rightarrow> int \<Rightarrow> int" where
  "al_run_end a n = (if al_reserved n a \<and> n \<le> al_high a then al_run_end a (n + 1) else n)"
  by pat_completeness auto
termination
  by (relation "measure (\<lambda>(a, n). nat (al_high a + 1 - n))") auto

declare al_run_end.simps [simp del]

lemma al_run_end_ge: "n \<le> al_run_end a n"
proof (induction a n rule: al_run_end.induct)
  case (1 a n)
  then show ?case
    by (auto simp: al_run_end.simps [of a n])
qed

function al_runs :: "allocator \<Rightarrow> int \<Rightarrow> gostring" where
  "al_runs a low =
     (if low \<le> al_high a
      then (let high = al_run_end a low in
            (if high > low + 1 then '' '' @ show_int low @ ''..'' @ show_int (high - 1)
             else if high > low then '' '' @ show_int (high - 1) else '''')
            @ al_runs a (high + 1))
      else '''')"
  by pat_completeness auto
termination
  by (relation "measure (\<lambda>(a, n). nat (al_high a + 1 - n))") (auto, smt (verit) al_run_end_ge)

declare al_runs.simps [simp del]

definition al_string :: "allocator \<Rightarrow> gostring" where
  "al_string a = ''allocator['' @ show_int (al_low a) @ ''..'' @ show_int (al_high a) @ '']''
     @ al_runs a (al_low a)"

section \<open>The contract of an identifier pool\<close>

datatype pool_op = Acquire | Free int

text \<open>A client that keeps the identifiers it holds and gives back only those.\<close>

fun pool_run :: "('p \<Rightarrow> int option \<times> 'p) \<Rightarrow> (int \<Rightarrow> 'p \<Rightarrow> 'p) \<Rightarrow> pool_op list \<Rightarrow> 'p \<times> int list \<Rightarrow> 'p \<times> int list" where
  "pool_run nxt rel [] (p, held) = (p, held)"
| "pool_run nxt rel (Acquire # ops) (p, held) =
     (case nxt p of
        (Some n, p') \<Rightarrow> pool_run nxt rel ops (p', n # held)
      | (None, p') \<Rightarrow> pool_run nxt rel ops (p', held))"
| "pool_run nxt rel (Free n # ops) (p, held) =
     (if n \<in> set held then pool_run nxt rel ops (rel n p, remove1 n held)
      else pool_run nxt rel ops (p, held))"

locale id_pool =
  fixes inv :: "'p \<Rightarrow> bool"
    and ids :: "'p \<Rightarrow> int set"
    and used :: "'p \<Rightarrow> int set"
    and nxt :: "'p \<Rightarrow> int option \<times> 'p"
    and rel :: "int \<Rightarrow> 'p \<Rightarrow> 'p"
  assumes used_ids: "inv p \<Longrightarrow> used p \<subseteq> ids p"
    and next_Some: "inv p \<Longrightarrow> nxt p = (Some n, p') \<Longrightarrow>
      inv p' \<and> ids p' = ids p \<and> n \<in> ids p \<and> n \<notin> used p \<and> used p' = insert n (used p)"
    and next_None: "inv p \<Longrightarrow> nxt p = (None, p') \<Longrightarrow>
      inv p' \<and> ids p' = ids p \<and> used p' = used p \<and> used p = ids p"
    and release: "inv p \<Longrightarrow> n \<in> ids p \<Longrightarrow>
      inv (rel n p) \<and> ids (rel n p) = ids p \<and> used (rel n p) = used p - {n}"
begin

lemma run_held:
  assumes "inv p" "distinct held" "set held = used p" "pool_run nxt rel ops (p, held) = (p', held')"
  shows "inv p' \<and> ids p' = ids p \<and> distinct held' \<and> set held' = used p'"
  using assms
proof (induction ops arbitrary: p held)
  case (Cons op ops)
  show ?case
  proof (cases op)
    case Acquire
    obtain r p1 where n: "nxt p = (r, p1)"
      by fastforce
    show ?thesis
    proof (cases r)
      case None
      then show ?thesis
        using Cons.IH [of p1 held] next_None [of p p1] Cons.prems n Acquire by auto
    next
      case (Some i)
      then show ?thesis
        using Cons.IH [of p1 "i # held"] next_Some [of p i p1] Cons.prems n Acquire by auto
    qed
  next
    case (Free i)
    show ?thesis
    proof (cases "i \<in> set held")
      case True
      then have "i \<in> ids p"
        using used_ids Cons.prems by auto
      then show ?thesis
        using Cons.IH [of "rel i p" "remove1 i held"] release [of p i] Cons.prems Free True
        by (auto simp: distinct_remove1)
    next
      case False
      then show ?thesis
        using Cons.IH [of p held] Cons.prems Free by auto
    qed
  qed
qed auto

lemma next_fails_iff_full: "inv p \<Longrightarrow> fst (nxt p) = None \<longleftrightarrow> used p = ids p"
proof -
  assume p: "inv p"
  obtain r p' where n: "nxt p = (r, p')"
    by fastforce
  show ?thesis
  proof (cases r)
    case None
    with n next_None [OF p] show ?thesis
      by simp
  next
    case (Some i)
    with n next_Some [OF p, of i p'] show ?thesis
      by auto
  qed
qed

end


section \<open>The allocator keeps the contract\<close>

definition al_ids :: "allocator \<Rightarrow> int set" where
  "al_ids a = {al_low a..al_high a}"

definition al_used :: "allocator \<Rightarrow> int set" where
  "al_used a = {n \<in> {al_low a..al_high a}. al_reserved n a}"

definition al_inv :: "allocator \<Rightarrow> bool" where
  "al_inv a \<longleftrightarrow> al_low a \<le> al_follow a \<and> al_follow a \<le> al_high a"

lemma al_reserved_upd:
  "al_low a \<le> n \<Longrightarrow> al_low a \<le> m \<Longrightarrow>
     al_reserved m (a\<lparr>al_pool := set_bit (nat (n - al_low a)) (al_pool a)\<rparr>) = (m = n \<or> al_reserved m a)"
  "al_low a \<le> n \<Longrightarrow> al_low a \<le> m \<Longrightarrow> al_reserved m (al_release n a) = (m \<noteq> n \<and> al_reserved m a)"
proof -
  assume n: "al_low a \<le> n" and m: "al_low a \<le> m"
  then have eq: "nat (n - al_low a) = nat (m - al_low a) \<longleftrightarrow> m = n"
    by (subst eq_nat_nat_iff) auto
  show "al_reserved m (a\<lparr>al_pool := set_bit (nat (n - al_low a)) (al_pool a)\<rparr>) = (m = n \<or> al_reserved m a)"
    by (auto simp add: al_reserved_def bit_set_bit_iff eq)
  show "al_reserved m (al_release n a) = (m \<noteq> n \<and> al_reserved m a)"
    by (auto simp add: al_reserved_def al_release_def bit_unset_bit_iff eq)
qed

lemma al_reserved_follow [simp]: "al_reserved m (a\<lparr>al_follow := f\<rparr>) = al_reserved m a"
  by (simp add: al_reserved_def)

lemma al_scan_spec:
  assumes "al_scan stop a = (r, a')" "al_low a \<le> al_follow a"
  shows "case r of
     Some n \<Rightarrow> al_follow a \<le> n \<and> n \<le> stop \<and> \<not> al_reserved n a
       \<and> a' = a\<lparr>al_pool := set_bit (nat (n - al_low a)) (al_pool a), al_follow := n\<rparr>
   | None \<Rightarrow> (\<forall>m. al_follow a \<le> m \<and> m \<le> stop \<longrightarrow> al_reserved m a)
       \<and> a' = a\<lparr>al_follow := max (al_follow a) (stop + 1)\<rparr>"
  using assms
proof (induction stop a arbitrary: r a' rule: al_scan.induct)
  case (1 stop a)
  show ?case
  proof (cases "al_follow a \<le> stop")
    case False
    with "1.prems" show ?thesis
      by (auto simp: al_scan.simps [of stop a] max_def)
  next
    case True
    show ?thesis
    proof (cases "al_reserved (al_follow a) a")
      case False
      with True "1.prems" show ?thesis
        by (auto simp: al_scan.simps [of stop a] al_reserve_def)
    next
      case res: True
      let ?b = "a\<lparr>al_follow := al_follow a + 1\<rparr>"
      have s: "al_scan stop ?b = (r, a')"
        using True res "1.prems" by (simp add: al_scan.simps [of stop a] al_reserve_def)
      have r: "al_reserve (al_follow a) a = (False, a)"
        using res by (simp add: al_reserve_def)
      have "case r of
           Some n \<Rightarrow> al_follow ?b \<le> n \<and> n \<le> stop \<and> \<not> al_reserved n ?b
             \<and> a' = ?b\<lparr>al_pool := set_bit (nat (n - al_low ?b)) (al_pool ?b), al_follow := n\<rparr>
         | None \<Rightarrow> (\<forall>m. al_follow ?b \<le> m \<and> m \<le> stop \<longrightarrow> al_reserved m ?b)
             \<and> a' = ?b\<lparr>al_follow := max (al_follow ?b) (stop + 1)\<rparr>"
        by (rule "1.IH" [OF True r [symmetric]]) (use s "1.prems" in auto)
      with res True show ?thesis
        by (auto split: option.splits)
           (metis linorder_cases zless_imp_add1_zle linorder_not_le)
    qed
  qed
qed

lemma al_advance_sel [simp]:
  "al_pool (al_advance a) = al_pool a" "al_low (al_advance a) = al_low a" "al_high (al_advance a) = al_high a"
  "al_reserved m (al_advance a) = al_reserved m a"
  by (simp_all add: al_advance_def al_reserved_def)

lemma al_advance_inv: "al_low a \<le> al_follow a \<Longrightarrow> al_follow a \<le> al_high a \<Longrightarrow> al_inv (al_advance a)"
  by (auto simp: al_inv_def al_advance_def)

lemma al_next_Some:
  assumes "al_inv a" "al_next a = (Some n, a')"
  shows "al_inv a' \<and> al_low a' = al_low a \<and> al_high a' = al_high a \<and> al_low a \<le> n \<and> n \<le> al_high a
     \<and> \<not> al_reserved n a \<and> al_pool a' = set_bit (nat (n - al_low a)) (al_pool a)"
proof -
  obtain r1 a1 where s1: "al_scan (al_high a) a = (r1, a1)"
    by fastforce
  have f: "al_low a \<le> al_follow a" "al_follow a \<le> al_high a"
    using assms(1) by (auto simp: al_inv_def)
  note c1 = al_scan_spec [OF s1 f(1)]
  show ?thesis
  proof (cases r1)
    case (Some m)
    then have a1: "a' = al_advance a1" "m = n"
      using assms(2) s1 by (auto simp: al_next_def)
    show ?thesis
      using c1 Some a1 f by (auto intro!: al_advance_inv)
  next
    case None
    let ?b = "a1\<lparr>al_follow := al_low a1\<rparr>"
    obtain r2 a2 where s2: "al_scan (al_follow a - 1) ?b = (r2, a2)"
      by fastforce
    have b: "?b = a\<lparr>al_follow := al_low a\<rparr>"
      using c1 None by auto
    have c2: "case r2 of
       Some n \<Rightarrow> al_follow ?b \<le> n \<and> n \<le> al_follow a - 1 \<and> \<not> al_reserved n ?b
         \<and> a2 = ?b\<lparr>al_pool := set_bit (nat (n - al_low ?b)) (al_pool ?b), al_follow := n\<rparr>
     | None \<Rightarrow> (\<forall>m. al_follow ?b \<le> m \<and> m \<le> al_follow a - 1 \<longrightarrow> al_reserved m ?b)
         \<and> a2 = ?b\<lparr>al_follow := max (al_follow ?b) (al_follow a - 1 + 1)\<rparr>"
      by (rule al_scan_spec [OF s2]) simp
    have "r2 = Some n" "a' = al_advance a2"
      using assms(2) s1 s2 None by (auto simp: al_next_def split: option.splits)
    then show ?thesis
      using c2 f unfolding b by (auto intro!: al_advance_inv)
  qed
qed

lemma al_next_None:
  assumes "al_inv a" "al_next a = (None, a')"
  shows "al_inv a' \<and> al_low a' = al_low a \<and> al_high a' = al_high a \<and> al_pool a' = al_pool a
     \<and> (\<forall>m. al_low a \<le> m \<and> m \<le> al_high a \<longrightarrow> al_reserved m a)"
proof -
  obtain r1 a1 where s1: "al_scan (al_high a) a = (r1, a1)"
    by fastforce
  have f: "al_low a \<le> al_follow a" "al_follow a \<le> al_high a"
    using assms(1) by (auto simp: al_inv_def)
  note c1 = al_scan_spec [OF s1 f(1)]
  have None: "r1 = None"
    using assms(2) s1 by (auto simp: al_next_def split: option.splits)
  let ?b = "a1\<lparr>al_follow := al_low a1\<rparr>"
  have b: "?b = a\<lparr>al_follow := al_low a\<rparr>"
    using c1 None by auto
  obtain r2 a2 where s2: "al_scan (al_follow a - 1) ?b = (r2, a2)"
    by fastforce
  have c2: "case r2 of
     Some n \<Rightarrow> al_follow ?b \<le> n \<and> n \<le> al_follow a - 1 \<and> \<not> al_reserved n ?b
       \<and> a2 = ?b\<lparr>al_pool := set_bit (nat (n - al_low ?b)) (al_pool ?b), al_follow := n\<rparr>
   | None \<Rightarrow> (\<forall>m. al_follow ?b \<le> m \<and> m \<le> al_follow a - 1 \<longrightarrow> al_reserved m ?b)
       \<and> a2 = ?b\<lparr>al_follow := max (al_follow ?b) (al_follow a - 1 + 1)\<rparr>"
    by (rule al_scan_spec [OF s2]) simp
  have "r2 = None" "a' = al_advance a2"
    using assms(2) s1 s2 None by (auto simp: al_next_def split: option.splits)
  then show ?thesis
    using c1 c2 f None unfolding b by (auto intro!: al_advance_inv) (metis linorder_not_le zle_diff1_eq)
qed

interpretation al: id_pool al_inv al_ids al_used al_next al_release
proof
  fix a a' :: allocator and n :: int
  assume inv: "al_inv a"
  show "al_used a \<subseteq> al_ids a"
    by (auto simp: al_used_def al_ids_def)
  show "al_inv a' \<and> al_ids a' = al_ids a \<and> n \<in> al_ids a \<and> n \<notin> al_used a \<and> al_used a' = insert n (al_used a)"
    if "al_next a = (Some n, a')"
  proof -
    have s: "al_inv a' \<and> al_low a' = al_low a \<and> al_high a' = al_high a \<and> al_low a \<le> n \<and> n \<le> al_high a
       \<and> \<not> al_reserved n a \<and> al_pool a' = set_bit (nat (n - al_low a)) (al_pool a)"
      by (rule al_next_Some [OF inv that])
    then have "al_reserved m a' = (m = n \<or> al_reserved m a)" if "al_low a \<le> m" for m
      using al_reserved_upd(1) [of a n m] that by (simp add: al_reserved_def)
    with s show ?thesis
      by (auto simp: al_ids_def al_used_def)
  qed
  show "al_inv a' \<and> al_ids a' = al_ids a \<and> al_used a' = al_used a \<and> al_used a = al_ids a"
    if "al_next a = (None, a')"
    using al_next_None [OF inv that] by (auto simp: al_ids_def al_used_def al_reserved_def)
  show "al_inv (al_release n a) \<and> al_ids (al_release n a) = al_ids a \<and> al_used (al_release n a) = al_used a - {n}"
    if "n \<in> al_ids a"
    using inv that al_reserved_upd(2) [of a n]
    by (auto simp: al_inv_def al_ids_def al_used_def) (auto simp: al_release_def)
qed


section \<open>Properties\<close>

lemma al_new: "low \<le> high \<Longrightarrow> al_inv (new_allocator low high)"
  "al_used (new_allocator low high) = {}" "al_ids (new_allocator low high) = {low..high}"
  by (auto simp: al_inv_def al_used_def al_ids_def al_reserved_def new_allocator_def)

text \<open>C21. Channel identifiers are unique: whatever sequence of allocations and releases a
  client makes on a fresh allocator, the identifiers it holds are distinct, lie between the
  two bounds, and are exactly the reserved ones.\<close>
theorem allocator_unique_ids:
  assumes "low \<le> high"
    and "pool_run al_next al_release ops (new_allocator low high, []) = (a, held)"
  shows "distinct held \<and> set held \<subseteq> {low..high} \<and> set held = al_used a"
  using al.run_held [OF al_new(1) [OF assms(1)] _ _ assms(2)] al_new(2,3) [of low high]
    al.used_ids [of a] by auto

theorem allocator_unique_ids_witness:
  "distinct (snd (pool_run al_next al_release [Acquire, Acquire, Free 1, Acquire] (new_allocator 1 3, [])))
   \<and> set (snd (pool_run al_next al_release [Acquire, Acquire, Free 1, Acquire] (new_allocator 1 3, []))) \<subseteq> {1..3}
   \<and> set (snd (pool_run al_next al_release [Acquire, Acquire, Free 1, Acquire] (new_allocator 1 3, [])))
     = al_used (fst (pool_run al_next al_release [Acquire, Acquire, Free 1, Acquire] (new_allocator 1 3, [])))"
  by (rule allocator_unique_ids [OF _ prod.collapse [symmetric]]) simp

text \<open>C22. The allocator gives up only when it is exhausted: after any sequence of allocations
  and releases, \<open>next\<close> fails exactly when every identifier of the range is held; the search
  that starts in the middle of the range misses none.\<close>
theorem allocator_complete:
  assumes "low \<le> high"
    and "pool_run al_next al_release ops (new_allocator low high, []) = (a, held)"
  shows "fst (al_next a) = None \<longleftrightarrow> set held = {low..high}"
  using al.run_held [OF al_new(1) [OF assms(1)] _ _ assms(2)] al_new(2,3) [of low high]
    al.next_fails_iff_full [of a] by auto

theorem allocator_complete_witness:
  "fst (al_next (fst (pool_run al_next al_release [Acquire, Acquire] (new_allocator 1 2, [])))) = None
   \<longleftrightarrow> set (snd (pool_run al_next al_release [Acquire, Acquire] (new_allocator 1 2, []))) = {1..2}"
  by (rule allocator_complete [OF _ prod.collapse [symmetric]]) simp

end
