(* ===== verification/Spec2Isabelle.thy ===== *)
theory Spec2Isabelle
  imports Service Allocator
begin

text \<open>
  HarborSync's telemetry service (\<open>src/telemetry-service/main.go\<close>) and the AMQP client it
  publishes through (\<open>src/.gomodcache/github.com/rabbitmq/amqp091-go@v1.10.0\<close>, kept in the
  repository), the Go code of the system.

  \<^bold>\<open>The program.\<close> Drones post telemetry to \<open>POST /telemetry/ingest\<close>. The handler decodes the
  JSON body, validates it, computes the fill rate of the sector, stores the drone's state in
  Redis, publishes an event to RabbitMQ and answers 202, or 400 or 502. At start-up the
  service reads its configuration from the environment and connects to RabbitMQ with
  retries, declaring an exchange, two queues and a binding. Publishing goes down through the
  client library: a message is a method frame, a header frame and body frames of the
  negotiated size, written through a buffered writer that all channels of the connection
  share; from those bytes the frames are taken apart again and the messages put together.

  \<^bold>\<open>The theories, from the bottom.\<close>
    \<^item> \<open>GoPrelude\<close>: byte strings, readers with an error value (\<open>rd\<close>), big-endian integers, bit
      flags, decimal numerals, and the contract \<open>codec\<close> of an encoder and a decoder.
    \<^item> \<open>GoStrings\<close>: \<open>strings.TrimSpace\<close>, \<open>strconv.Atoi\<close>, canonical header keys, UTF-8, \<open>strconv.Quote\<close>.
    \<^item> \<open>GoFloat\<close>: float64 division of integers as IEEE 754 rounds it.
    \<^item> \<open>Telemetry\<close>: \<open>main.go\<close> lines 19 to 65 and 128 to 222, the request path over the two
      interfaces \<open>StateStore\<close> and \<open>EventPublisher\<close> (the record \<open>server\<close>).
    \<^item> \<open>Messaging\<close>: what that path needs of the interfaces, the locale \<open>messaging\<close>, and what it
      then guarantees for any sequence of requests.
    \<^item> \<open>Startup\<close>: \<open>main.go\<close> lines 94 to 126 and 244 to 305, configuration, connecting,
      topology, closing.
    \<^item> \<open>WireFields\<close>: strings, decimals, times, tables and arrays of \<open>read.go\<close>, \<open>write.go\<close> and
      \<open>types.go\<close>; the table codec is an instance of \<open>codec\<close>.
    \<^item> \<open>MethodsConnection\<close>, \<open>MethodsTopology\<close>, \<open>MethodsBasic\<close>, \<open>Methods\<close>: the 64 methods of
      \<open>spec091.go\<close>, a record each with its identifier, its writer and its reader.
    \<^item> \<open>FrameCodec\<close>: frames, their writers and \<open>ReadFrame\<close>; again an instance of \<open>codec\<close>.
    \<^item> \<open>Reassembly\<close>: \<open>recvMethod\<close>, \<open>recvHeader\<close> and \<open>recvContent\<close> of \<open>channel.go\<close>.
    \<^item> \<open>Connection\<close>: the buffered writer, \<open>send\<close>, \<open>sendUnflushed\<close> and \<open>endSendUnflushed\<close> of
      \<open>connection.go\<close>, and what can be read from the bytes that went out.
    \<^item> \<open>Allocator\<close>: \<open>allocator.go\<close>, an instance of the contract \<open>id_pool\<close>.
    \<^item> \<open>Confirms\<close>: \<open>confirms.go\<close>, the resequencer and the deferred confirmations.
    \<^item> \<open>ChannelOps\<close>, \<open>Publisher\<close>, \<open>Requests\<close>: sending on a channel, \<open>call\<close>, publishing, and the
      operations that are one request (\<open>channel.go\<close>).
    \<^item> \<open>Service\<close>: \<open>RedisStateStore\<close> and \<open>RabbitPublisher\<close> (\<open>main.go\<close> lines 224 to 242 and 307
      to 320) as the instance of \<open>messaging\<close>, and the properties of the whole service.

  \<^bold>\<open>Correspondence.\<close> A Go struct is a record with the field names under a prefix, an \<open>int\<close> an
  \<open>int\<close>, a fixed-width integer a word, a string a list of characters (its bytes), a Go map
  of the wire a list of its entries in iteration order, a pointer to a string an option. A
  Go error is a value of an option or of a sum; a panic is a constructor of the result
  (\<open>RPanic\<close>, \<open>RecvPanic\<close>, \<open>Panic\<close>) or the flag \<open>cs_panic\<close>; an operation that blocks or
  loops for ever is \<open>None\<close> of \<open>operation\<close> or of a \<open>partial_function\<close>.

  \<^bold>\<open>The outside.\<close> The network is an oracle in the writer (\<open>bw_net\<close>: how many pending bytes go
  out at each call, and its error); the other goroutines are an oracle in the connection
  (\<open>co_env\<close>: the frames they send and a shutdown, at every point where a sender looks at the
  connection) and in the channel (\<open>ch_env\<close>, \<open>ch_inbox\<close>); Redis and the broker at start-up are
  lists of results. All of them are arbitrary in the theorems, but that the other goroutines
  send well-formed frames, and none of the channel in question while it sends a message
  (\<open>env_ok\<close>; \<open>frames_written_in_order\<close> also allows the answers of the reader goroutine). The text
  \<open>encoding/json\<close> prints for a tree is a parameter \<open>marshal\<close> of which nothing is assumed; the
  strings of the tree are what it prints for them, with U+FFFD for bytes that are not UTF-8.
  What has been \<open>written\<close> is what went out on the socket, that is to the operating system. No
  theorem says that the server has received it: without publisher confirms, which the service
  does not use, the result of \<open>Publish\<close> does not tell.

  \<^bold>\<open>What is shown.\<close> \<open>Service\<close>: an event answered with 202 has been written on the socket, in order
  and once, and nothing else has; a broken connection is final. \<open>Publisher\<close>: a publishing is
  all or nothing, the bytes it writes, frame sizes, confirm tags. \<open>Connection\<close>: the frames of a
  sender go out in order under every interleaving. \<open>FrameCodec\<close> and \<open>WireFields\<close>: what is
  written is read back, the readers end and accept only frames. \<open>Telemetry\<close>: the status on
  every branch, rejected requests change nothing, the correlation identifier, the bounds of the
  fill rate. \<open>Startup\<close>: no connection leaks, the order of the declarations, the lifetime of the
  state. \<open>Allocator\<close>, \<open>Confirms\<close>, \<open>Reassembly\<close>: their invariants and contracts. Some theorems and
  lemmas show defects: \<open>receiver_panics\<close>, \<open>publish_small_frame_size\<close>, \<open>multiple_overrides_nack\<close>,
  \<open>read_bytes_negative_length\<close>, \<open>shortstr_truncates\<close>, \<open>longstr_too_long_is_empty\<close>,
  \<open>fill_rate_rounds_to_full\<close>, \<open>broken_connection_is_final\<close>, \<open>state_store_command\<close>,
  \<open>read_frame_accepts\<close>.

  \<^bold>\<open>Bounds and fuel.\<close> The field readers take one unit of fuel for each call and every call
  consumes a byte before the next, so one more than the input's length is enough, which the
  lemmas of \<open>WireFields\<close> show; \<open>read_frame_returns\<close> states it. A message is assumed to have
  strings below 256 bytes and a body below 2 to the 32 bytes (\<open>message_fits\<close>, \<open>event_fits\<close>),
  the limits of the wire format.

  \<^bold>\<open>Not modelled.\<close> Of the client library: dialling, URIs, SASL, the opening handshake, the
  reader loop and the demultiplexing, shutdown with its listeners, consumers and deliveries,
  the heartbeater. Of the Redis client everything but the command that \<open>Set\<close> builds. The
  scanner and printer of \<open>encoding/json\<close> (values are trees) and \<open>net/http\<close> below the
  handlers. The services in Java and Python, and the deployment.

  \<^bold>\<open>Order of the work.\<close> The request path, the wire format, sending, the service over it; next the
  life cycle of a connection (handshake, registry of channels, dispatch, shutdown), then
  consumers and deliveries, then the text of JSON and the Redis protocol.
\<close>

end
